(* ===== verification/Sill_Prelude.thy ===== *)
theory Sill_Prelude
  imports Main "HOL-Library.Word"
begin

text \<open>
  Shared vocabulary of the development.

  \<^item> \<open>outcome\<close>: what a call of a Rust function can do. It returns (\<open>Done\<close>), it panics
    (\<open>Panic\<close>, with the reason), or it does not return (\<open>Hang\<close>). The kernel is built with the
    \<open>dev\<close> profile (\<open>Makefile\<close>: plain \<open>cargo build\<close>), in which integer overflow panics, so the
    arithmetic of the code is \<open>uadd\<close>, \<open>usub\<close>, \<open>umul\<close> below wherever it can leave the range
    of \<open>usize\<close>/\<open>u64\<close>.
  \<^item> \<open>usize\<close> and \<open>u64\<close> values are \<open>nat\<close>s below \<open>usize_lim\<close> = 2^64.
  \<^item> \<open>checked_add\<close>, \<open>sat_add\<close>: the standard library's checked and saturating addition.
  \<^item> \<open>fetch\<close>, \<open>store\<close>: slice indexing, which panics out of bounds.
\<close>

unbundle bit_operations_syntax

named_theorems outcome_simps \<open>evaluation of the outcome operations\<close>

section \<open>Outcomes\<close>

datatype panic =
    AddOverflow
  | SubOverflow
  | MulOverflow
  | ShlOverflow
  | DivByZero
  | IndexOutOfBounds
  | Assertion string
  | Expect string
  | Explicit string

datatype 'a outcome = Done 'a | Panic panic | Hang

primrec andthen :: "'a outcome \<Rightarrow> ('a \<Rightarrow> 'b outcome) \<Rightarrow> 'b outcome" where
  "andthen (Done x) f = f x"
| "andthen (Panic p) f = Panic p"
| "andthen Hang f = Hang"

lemma andthen_cong [fundef_cong]:
  "m = m' \<Longrightarrow> (\<And>x. m' = Done x \<Longrightarrow> f x = f' x) \<Longrightarrow> andthen m f = andthen m' f'"
  by (cases m') auto

lemma andthen_Done_iff: "andthen m f = Done y \<longleftrightarrow> (\<exists>x. m = Done x \<and> f x = Done y)"
  by (cases m) auto

lemma andthen_DoneE:
  assumes "andthen m f = Done y"
  obtains x where "m = Done x" and "f x = Done y"
  using assms by (auto simp: andthen_Done_iff)

lemma andthen_assoc: "andthen (andthen m f) g = andthen m (\<lambda>x. andthen (f x) g)"
  by (cases m) auto

lemma andthen_Done_right [simp]: "andthen m Done = m"
  by (cases m) auto

text \<open>
  Evaluation of closed terms: the continuation is not entered before its argument is a value,
  so that recursive equations unfold only as far as the run goes.
\<close>

lemma andthen_weak_cong: "m = m' \<Longrightarrow> andthen m f = andthen m' f"
  by simp

section \<open>Machine arithmetic\<close>

abbreviation usize_lim :: nat where
  "usize_lim \<equiv> 18446744073709551616"

lemma usize_lim_pow: "usize_lim = 2 ^ 64"
  by simp

definition uadd :: "nat \<Rightarrow> nat \<Rightarrow> nat outcome" where
  "uadd a b = (if a + b < usize_lim then Done (a + b) else Panic AddOverflow)"

definition usub :: "nat \<Rightarrow> nat \<Rightarrow> nat outcome" where
  "usub a b = (if b \<le> a then Done (a - b) else Panic SubOverflow)"

definition umul :: "nat \<Rightarrow> nat \<Rightarrow> nat outcome" where
  "umul a b = (if a * b < usize_lim then Done (a * b) else Panic MulOverflow)"

definition checked_add :: "nat \<Rightarrow> nat \<Rightarrow> nat option" where
  "checked_add a b = (if a + b < usize_lim then Some (a + b) else None)"

definition sat_add :: "nat \<Rightarrow> nat \<Rightarrow> nat" where
  "sat_add a b = min (a + b) (usize_lim - 1)"

lemma uadd_Done [simp, outcome_simps]: "a + b < usize_lim \<Longrightarrow> uadd a b = Done (a + b)"
  by (simp add: uadd_def)

lemma usub_Done [simp, outcome_simps]: "b \<le> a \<Longrightarrow> usub a b = Done (a - b)"
  by (simp add: usub_def)

lemma umul_Done [simp, outcome_simps]: "a * b < usize_lim \<Longrightarrow> umul a b = Done (a * b)"
  by (simp add: umul_def)

lemma uadd_DoneD: "uadd a b = Done c \<Longrightarrow> c = a + b \<and> a + b < usize_lim"
  by (simp add: uadd_def split: if_splits)

lemma usub_DoneD: "usub a b = Done c \<Longrightarrow> c = a - b \<and> b \<le> a"
  by (simp add: usub_def split: if_splits)

lemma checked_add_Some [simp, outcome_simps]:
  "a + b < usize_lim \<Longrightarrow> checked_add a b = Some (a + b)"
  by (simp add: checked_add_def)

lemma checked_add_None [simp, outcome_simps]:
  "usize_lim \<le> a + b \<Longrightarrow> checked_add a b = None"
  by (simp add: checked_add_def)

lemma checked_add_SomeD: "checked_add a b = Some c \<Longrightarrow> c = a + b \<and> a + b < usize_lim"
  by (simp add: checked_add_def split: if_splits)

section \<open>Slices\<close>

definition fetch :: "'a list \<Rightarrow> nat \<Rightarrow> 'a outcome" where
  "fetch xs i = (if i < length xs then Done (xs ! i) else Panic IndexOutOfBounds)"

definition store :: "'a list \<Rightarrow> nat \<Rightarrow> 'a \<Rightarrow> 'a list outcome" where
  "store xs i v = (if i < length xs then Done (xs[i := v]) else Panic IndexOutOfBounds)"

text \<open>\<open>&xs[a..b]\<close>\<close>

definition subslice :: "'a list \<Rightarrow> nat \<Rightarrow> nat \<Rightarrow> 'a list outcome" where
  "subslice xs a b =
     (if a \<le> b \<and> b \<le> length xs then Done (take (b - a) (drop a xs)) else Panic IndexOutOfBounds)"

lemma fetch_Done [simp, outcome_simps]: "i < length xs \<Longrightarrow> fetch xs i = Done (xs ! i)"
  by (simp add: fetch_def)

lemma store_Done [simp, outcome_simps]: "i < length xs \<Longrightarrow> store xs i v = Done (xs[i := v])"
  by (simp add: store_def)

section \<open>Counted loops\<close>

text \<open>\<open>for x in xs { s = f(x, s) }\<close> over a state.\<close>

primrec for_each :: "'a list \<Rightarrow> ('a \<Rightarrow> 's \<Rightarrow> 's outcome) \<Rightarrow> 's \<Rightarrow> 's outcome" where
  "for_each [] f s = Done s"
| "for_each (x # xs) f s = andthen (f x s) (\<lambda>s'. for_each xs f s')"

lemma for_each_append:
  "for_each (xs @ ys) f s = andthen (for_each xs f s) (\<lambda>s'. for_each ys f s')"
  by (induction xs arbitrary: s) (simp_all add: andthen_assoc)

lemma for_each_fold:
  "(\<And>x s. x \<in> set xs \<Longrightarrow> P s \<Longrightarrow> f x s = Done (g x s) \<and> P (g x s)) \<Longrightarrow> P s \<Longrightarrow>
     for_each xs f s = Done (fold g xs s) \<and> P (fold g xs s)"
  by (induction xs arbitrary: s) auto

lemma for_each_invariant:
  "(\<And>x s s'. x \<in> set xs \<Longrightarrow> P s \<Longrightarrow> f x s = Done s' \<Longrightarrow> P s') \<Longrightarrow> P s \<Longrightarrow>
     for_each xs f s = Done s' \<Longrightarrow> P s'"
  by (induction xs arbitrary: s) (auto simp: andthen_Done_iff)

lemma for_each_cong [fundef_cong]:
  "xs = ys \<Longrightarrow> s = t \<Longrightarrow> (\<And>x s. x \<in> set ys \<Longrightarrow> f x s = g x s) \<Longrightarrow> for_each xs f s = for_each ys g t"
proof -
  assume "xs = ys" "s = t" and fg: "\<And>x s. x \<in> set ys \<Longrightarrow> f x s = g x s"
  from fg have "for_each ys f t = for_each ys g t"
    by (induction ys arbitrary: t) (auto intro: andthen_cong)
  with \<open>xs = ys\<close> \<open>s = t\<close> show ?thesis by simp
qed

section \<open>Powers of two, alignment\<close>

text \<open>
  \<open>value & !(alignment - 1)\<close> on a 64-bit value, as the code writes it.
\<close>

definition align_mask :: "nat \<Rightarrow> nat \<Rightarrow> nat" where
  "align_mask v a = unat ((word_of_nat v :: 64 word) AND NOT (word_of_nat (a - 1)))"

lemma word_of_pow2_mask:
  "k < 64 \<Longrightarrow> (word_of_nat (2 ^ k - 1) :: 64 word) = mask k"
  by (simp add: mask_eq_exp_minus_1 of_nat_diff)

lemma align_mask_eq:
  assumes "v < usize_lim" and "k < 64"
  shows "align_mask v (2 ^ k) = v div 2 ^ k * 2 ^ k"
proof -
  let ?w = "word_of_nat v :: 64 word"
  have "?w AND NOT (mask k) = push_bit k (drop_bit k ?w)"
    by (rule bit_word_eqI) (auto simp: bit_simps)
  then have "unat (?w AND NOT (mask k)) = unat (push_bit k (drop_bit k ?w))"
    by simp
  also have "\<dots> = v div 2 ^ k * 2 ^ k mod 2 ^ 64"
    using assms
    by (simp only: unsigned_push_bit_eq unat_drop_bit_eq unat_of_nat)
      (simp add: take_bit_eq_mod push_bit_eq_mult drop_bit_eq_div)
  also have "v div 2 ^ k * 2 ^ k mod 2 ^ 64 = v div 2 ^ k * 2 ^ k"
    using assms(1) le_less_trans [OF div_times_less_eq_dividend [of v "2 ^ k"]]
    by (simp add: mod_less)
  finally show ?thesis
    using assms by (simp only: align_mask_def word_of_pow2_mask)
qed

end
