(* ===== verification/Allocator.thy ===== *)
theory Allocator
  imports Sill_Prelude
begin

text \<open>
  The trait \<open>MemoryAllocator\<close> of \<open>src/kmem/heap.rs\<close> as an interface: \<open>alloc\<close> and
  \<open>dealloc\<close> with the contract its safety comments state, and the code that uses it (a client
  that frees only what it got, with the layout it got it with, and writes only inside its live
  blocks). The consequences for every run of such a client are proved once, here; the two
  allocators of the kernel interpret the locale.
\<close>

record layout =
  lsize :: nat
  lalign :: nat

text \<open>\<open>usize::is_power_of_two\<close>: exactly one bit is set.\<close>

fun count_ones :: "nat \<Rightarrow> nat" where
  "count_ones n = (if n = 0 then 0 else n mod 2 + count_ones (n div 2))"

declare count_ones.simps [simp del]

definition power_of_two :: "nat \<Rightarrow> bool" where
  "power_of_two n \<longleftrightarrow> count_ones n = 1"

lemma count_ones_zero: "count_ones n = 0 \<longleftrightarrow> n = 0"
  by (induction n rule: count_ones.induct) (subst count_ones.simps, auto)

lemma count_ones_power: "count_ones (2 ^ k) = 1"
  by (induction k) (subst count_ones.simps, simp add: count_ones_zero)+

lemma count_ones_one: "count_ones n = 1 \<Longrightarrow> \<exists>k. n = 2 ^ k"
proof (induction n rule: count_ones.induct)
  case (1 n)
  have n: "n \<noteq> 0" using "1.prems" count_ones_zero [of n] by simp
  then have eq: "count_ones n = n mod 2 + count_ones (n div 2)"
    by (simp add: count_ones.simps [of n])
  show ?case
  proof (cases "even n")
    case True
    then have "n mod 2 = 0" by presburger
    then have "count_ones (n div 2) = 1" using eq "1.prems" by simp
    then obtain k where "n div 2 = 2 ^ k" using "1.IH" [OF n] by blast
    with True have "n = 2 ^ Suc k" by auto
    then show ?thesis by blast
  next
    case False
    then have "n mod 2 = 1" by presburger
    then have "n div 2 = 0" using eq "1.prems" count_ones_zero [of "n div 2"] by simp
    with False have "n = 1" by presburger
    then have "n = 2 ^ 0" by simp
    then show ?thesis by blast
  qed
qed

lemma power_of_two_iff: "power_of_two n \<longleftrightarrow> (\<exists>k. n = 2 ^ k)"
  using count_ones_power count_ones_one by (auto simp: power_of_two_def)

text \<open>\<open>Layout::from_size_align\<close> of the standard library.\<close>

definition from_size_align :: "nat \<Rightarrow> nat \<Rightarrow> layout option" where
  "from_size_align sz al =
     (if power_of_two al \<and> sz \<le> 9223372036854775808 - al
      then Some \<lparr>lsize = sz, lalign = al\<rparr> else None)"

definition footprint :: "nat \<Rightarrow> layout \<Rightarrow> nat set" where
  "footprint p l = {p ..< p + lsize l}"

type_synonym live_map = "nat \<Rightarrow> layout option"

inductive client_step ::
    "(layout \<Rightarrow> 's \<Rightarrow> (nat \<times> 's) outcome) \<Rightarrow> (nat \<Rightarrow> layout \<Rightarrow> 's \<Rightarrow> 's outcome) \<Rightarrow>
     (nat \<Rightarrow> nat \<Rightarrow> 's \<Rightarrow> 's) \<Rightarrow> (layout \<Rightarrow> bool) \<Rightarrow> 's \<times> live_map \<Rightarrow> 's \<times> live_map \<Rightarrow> bool"
  for alloc dealloc write_word ok where
  allocated: "ok l \<Longrightarrow> alloc l s = Done (p, s') \<Longrightarrow> p \<noteq> 0 \<Longrightarrow>
     client_step alloc dealloc write_word ok (s, L) (s', L(p \<mapsto> l))"
| refused: "ok l \<Longrightarrow> alloc l s = Done (0, s') \<Longrightarrow>
     client_step alloc dealloc write_word ok (s, L) (s', L)"
| freed: "L p = Some l \<Longrightarrow> dealloc p l s = Done s' \<Longrightarrow>
     client_step alloc dealloc write_word ok (s, L) (s', L(p := None))"
| written: "L p = Some l \<Longrightarrow> a \<in> footprint p l \<Longrightarrow>
     client_step alloc dealloc write_word ok (s, L) (write_word a v s, L)"

inductive_cases client_stepE: "client_step alloc dealloc write_word ok (s, L) (s', L')"

inductive client_run ::
    "(layout \<Rightarrow> 's \<Rightarrow> (nat \<times> 's) outcome) \<Rightarrow> (nat \<Rightarrow> layout \<Rightarrow> 's \<Rightarrow> 's outcome) \<Rightarrow>
     (nat \<Rightarrow> nat \<Rightarrow> 's \<Rightarrow> 's) \<Rightarrow> (layout \<Rightarrow> bool) \<Rightarrow> 's \<times> live_map \<Rightarrow> 's \<times> live_map \<Rightarrow> bool"
  for alloc dealloc write_word ok where
  stop: "client_run alloc dealloc write_word ok c c"
| step: "client_run alloc dealloc write_word ok c d \<Longrightarrow>
     client_step alloc dealloc write_word ok d e \<Longrightarrow> client_run alloc dealloc write_word ok c e"

locale memory_allocator =
  fixes alloc :: "layout \<Rightarrow> 's \<Rightarrow> (nat \<times> 's) outcome"
    and dealloc :: "nat \<Rightarrow> layout \<Rightarrow> 's \<Rightarrow> 's outcome"
    and write_word :: "nat \<Rightarrow> nat \<Rightarrow> 's \<Rightarrow> 's"
    and ok :: "layout \<Rightarrow> bool"
    and invar :: "'s \<Rightarrow> live_map \<Rightarrow> bool"
  assumes alloc_returns: "invar s L \<Longrightarrow> ok l \<Longrightarrow> \<exists>p s'. alloc l s = Done (p, s')"
    and alloc_null: "invar s L \<Longrightarrow> ok l \<Longrightarrow> alloc l s = Done (0, s') \<Longrightarrow> invar s' L"
    and alloc_block: "invar s L \<Longrightarrow> ok l \<Longrightarrow> alloc l s = Done (p, s') \<Longrightarrow> p \<noteq> 0 \<Longrightarrow>
          L p = None \<and> invar s' (L(p \<mapsto> l))"
    and dealloc_block: "invar s L \<Longrightarrow> L p = Some l \<Longrightarrow>
          \<exists>s'. dealloc p l s = Done s' \<and> invar s' (L(p := None))"
    and write_block: "invar s L \<Longrightarrow> L p = Some l \<Longrightarrow> a \<in> footprint p l \<Longrightarrow>
          invar (write_word a v s) L"
    and live_disjoint: "invar s L \<Longrightarrow> L p = Some l \<Longrightarrow> L q = Some l' \<Longrightarrow> p \<noteq> q \<Longrightarrow>
          footprint p l \<inter> footprint q l' = {}"
    and live_nonnull: "invar s L \<Longrightarrow> L 0 = None"
begin

abbreviation step_rel where
  "step_rel \<equiv> client_step alloc dealloc write_word ok"

abbreviation run_rel where
  "run_rel \<equiv> client_run alloc dealloc write_word ok"

lemma step_invar:
  assumes "step_rel (s, L) (s', L')" and "invar s L"
  shows "invar s' L'"
  using assms(1)
  by (rule client_stepE)
    (use alloc_block [OF assms(2)] alloc_null [OF assms(2)] dealloc_block [OF assms(2)]
      write_block [OF assms(2)] in fastforce)+

lemma run_invar:
  assumes "run_rel c d" and "invar (fst c) (snd c)"
  shows "invar (fst d) (snd d)"
  using assms
proof (induction rule: client_run.induct)
  case (step c d e)
  then show ?case using step_invar [of "fst d" "snd d" "fst e" "snd e"] by simp
qed simp

lemma run_never_fails:
  assumes "run_rel (s, L) (s', L')" and "invar s L"
  shows "ok l \<Longrightarrow> \<exists>p s2. alloc l s' = Done (p, s2)"
    and "L' p = Some l \<Longrightarrow> \<exists>s2. dealloc p l s' = Done s2"
  using run_invar [OF assms(1)] assms(2) alloc_returns dealloc_block by fastforce+

lemma run_disjoint:
  assumes "run_rel (s, L) (s', L')" and "invar s L"
    and "L' p = Some l" and "L' q = Some l'" and "p \<noteq> q"
  shows "footprint p l \<inter> footprint q l' = {}"
  using run_invar [OF assms(1)] assms(2-) live_disjoint by simp

lemma alloc_fresh:
  assumes "invar s L" and "ok l" and "alloc l s = Done (p, s')" and "p \<noteq> 0"
    and "L q = Some l'"
  shows "footprint p l \<inter> footprint q l' = {}"
proof -
  note a = alloc_block [OF assms(1-4)]
  then have "q \<noteq> p" using assms(5) by auto
  then show ?thesis
    using live_disjoint [OF conjunct2 [OF a], of p l q l'] assms(5) by simp
qed

end

end
