(* ===== verification/Buddy.thy ===== *)
theory Buddy
  imports Allocator
begin

text \<open>
  The binary buddy allocator of \<open>src/kmem/heap/buddy.rs\<close>, as the code has it.

  The free blocks of each order form a singly linked list whose nodes are stored in the free
  blocks themselves: \<open>free_lists\<close> holds the head pointers (0 is the null pointer) and
  \<open>node_next a\<close> is the field \<open>next\<close> of the \<open>FreeListNode\<close> at address \<open>a\<close>, i.e. the word of heap
  memory at \<open>a\<close>. A panic is \<open>Panic\<close>; the scan of \<open>remove_free_block\<close>, which does not return
  on a cyclic list, is \<open>Hang\<close> there.
\<close>

section \<open>State\<close>

abbreviation MIN_ORDER :: nat where
  "MIN_ORDER \<equiv> 6"

abbreviation MAX_ORDER :: nat where
  "MAX_ORDER \<equiv> 30"

abbreviation ORDER_COUNT :: nat where
  "ORDER_COUNT \<equiv> MAX_ORDER - MIN_ORDER + 1"

record buddy =
  heap_start :: nat
  heap_size :: nat
  max_order :: nat
  free_lists :: "nat list"
  initialized :: bool
  node_next :: "nat \<Rightarrow> nat"

definition buddy_new :: "(nat \<Rightarrow> nat) \<Rightarrow> buddy" where
  "buddy_new mem =
     \<lparr>heap_start = 0, heap_size = 0, max_order = MIN_ORDER,
      free_lists = replicate ORDER_COUNT 0, initialized = False, node_next = mem\<rparr>"

section \<open>Orders\<close>

definition block_size :: "nat \<Rightarrow> nat" where
  "block_size order = 2 ^ order"

definition index_for :: "nat \<Rightarrow> nat outcome" where
  "index_for order = usub order MIN_ORDER"

text \<open>\<open>size_of::<FreeListNode>()\<close>: one pointer.\<close>

abbreviation free_node_size :: nat where
  "free_node_size \<equiv> 8"

function largest_order_loop :: "nat \<Rightarrow> nat \<Rightarrow> nat" where
  "largest_order_loop sz order =
     (if order < MAX_ORDER \<and> block_size (order + 1) \<le> sz
      then largest_order_loop sz (order + 1) else order)"
  by pat_completeness auto
termination
  by (relation "measure (\<lambda>(sz, order). MAX_ORDER - order)") auto

definition largest_order_for :: "nat \<Rightarrow> nat" where
  "largest_order_for sz = largest_order_loop sz MIN_ORDER"

function order_for_size_loop :: "nat \<Rightarrow> nat \<Rightarrow> nat option" where
  "order_for_size_loop sz order =
     (if block_size order < sz
      then if order = MAX_ORDER then None else order_for_size_loop sz (order + 1)
      else Some order)"
  by pat_completeness auto
termination
  by (relation "measure (\<lambda>(sz, order). sz - order)")
    (auto simp: block_size_def intro!: diff_less_mono2
      intro: less_trans [OF less_exp])

definition order_for_size :: "nat \<Rightarrow> nat option" where
  "order_for_size sz = order_for_size_loop (max sz free_node_size) MIN_ORDER"

declare largest_order_loop.simps [simp del] order_for_size_loop.simps [simp del]

section \<open>The free lists\<close>

definition push_free_block :: "nat \<Rightarrow> nat \<Rightarrow> buddy \<Rightarrow> buddy outcome" where
  "push_free_block addr order s =
     andthen (index_for order) (\<lambda>index.
     andthen (fetch (free_lists s) index) (\<lambda>head.
     andthen (store (free_lists s) index addr) (\<lambda>heads.
       Done (s\<lparr>node_next := (node_next s)(addr := head), free_lists := heads\<rparr>))))"

definition pop_free_block :: "nat \<Rightarrow> buddy \<Rightarrow> (nat option \<times> buddy) outcome" where
  "pop_free_block order s =
     andthen (index_for order) (\<lambda>index.
     andthen (fetch (free_lists s) index) (\<lambda>node.
       if node = 0 then Done (None, s)
       else andthen (store (free_lists s) index (node_next s node)) (\<lambda>heads.
         Done (Some node, s\<lparr>free_lists := heads\<rparr>))))"

text \<open>
  The \<open>while\<close> loop of \<open>remove_free_block\<close>: the inner result is the predecessor of the
  target (0 when the target is the head), or \<open>None\<close> when the end of the list was reached.
\<close>

partial_function (option) remove_scan ::
    "(nat \<Rightarrow> nat) \<Rightarrow> nat \<Rightarrow> nat \<Rightarrow> nat \<Rightarrow> nat option option" where
  "remove_scan nxt target prev current =
     (if current = 0 then Some None
      else if current = target then Some (Some prev)
      else remove_scan nxt target current (nxt current))"

definition remove_free_block :: "nat \<Rightarrow> nat \<Rightarrow> buddy \<Rightarrow> (bool \<times> buddy) outcome" where
  "remove_free_block addr order s =
     andthen (index_for order) (\<lambda>index.
     andthen (fetch (free_lists s) index) (\<lambda>head.
       case remove_scan (node_next s) addr 0 head of
         None \<Rightarrow> Hang
       | Some None \<Rightarrow> Done (False, s)
       | Some (Some prev) \<Rightarrow>
           (let nxt = node_next s addr in
            if prev = 0
            then andthen (store (free_lists s) index nxt) (\<lambda>heads.
                   Done (True, s\<lparr>free_lists := heads\<rparr>))
            else Done (True, s\<lparr>node_next := (node_next s)(prev := nxt)\<rparr>))))"

section \<open>Initialisation\<close>

text \<open>The inner loop of \<open>init\<close>: the largest order that fits at \<open>addr\<close>, or \<open>MIN_ORDER\<close>.\<close>

function fit_order :: "nat \<Rightarrow> nat \<Rightarrow> nat \<Rightarrow> nat" where
  "fit_order addr remaining order =
     (if MIN_ORDER < order
      then if block_size order \<le> remaining \<and> addr mod block_size order = 0 then order
           else fit_order addr remaining (order - 1)
      else order)"
  by pat_completeness auto
termination
  by (relation "measure (\<lambda>(addr, remaining, order). order)") auto

declare fit_order.simps [simp del]

lemma block_size_pos [simp]: "0 < block_size k"
  by (simp add: block_size_def)

function init_loop :: "nat \<Rightarrow> nat \<Rightarrow> buddy \<Rightarrow> buddy outcome" where
  "init_loop addr remaining s =
     (if block_size MIN_ORDER \<le> remaining then
        let order = fit_order addr remaining (max_order s);
            sz = block_size order in
        if remaining < sz \<or> addr mod sz \<noteq> 0 then Done s
        else andthen (push_free_block addr order s) (\<lambda>s'.
             andthen (uadd addr sz) (\<lambda>addr'.
               init_loop addr' (remaining - sz) s'))
      else Done s)"
  by pat_completeness auto
termination
  by (relation "measure (\<lambda>(addr, remaining, s). remaining)") (auto simp: not_less intro!: diff_less less_le_trans [OF block_size_pos])

declare remove_scan.simps [code]

declare init_loop.simps [simp del]

definition buddy_init :: "nat \<Rightarrow> nat \<Rightarrow> buddy \<Rightarrow> buddy outcome" where
  "buddy_init start sz s =
     (if start mod block_size MIN_ORDER \<noteq> 0 then
        Panic (Assertion ''heap start is not aligned to the minimum block size'')
      else if sz < block_size MIN_ORDER then
        Panic (Assertion ''heap is too small'')
      else
        andthen (init_loop start sz
          (s\<lparr>heap_start := start, heap_size := sz,
             max_order := min (largest_order_for sz) MAX_ORDER,
             free_lists := replicate ORDER_COUNT 0\<rparr>)) (\<lambda>s'.
          Done (s'\<lparr>initialized := True\<rparr>)))"

section \<open>Allocation and deallocation\<close>

text \<open>The fields that only \<open>init\<close> writes.\<close>

definition same_heap :: "buddy \<Rightarrow> buddy \<Rightarrow> bool" where
  "same_heap s s' \<longleftrightarrow> max_order s' = max_order s \<and> heap_start s' = heap_start s \<and>
     heap_size s' = heap_size s \<and> initialized s' = initialized s"

lemma same_heap_refl [simp]: "same_heap s s"
  by (simp add: same_heap_def)

lemma same_heap_trans [trans]: "same_heap s t \<Longrightarrow> same_heap t u \<Longrightarrow> same_heap s u"
  by (simp add: same_heap_def)

lemma push_free_block_same: "push_free_block a k s = Done s' \<Longrightarrow> same_heap s s'"
  by (auto simp: push_free_block_def same_heap_def elim!: andthen_DoneE)

lemma pop_free_block_same: "pop_free_block k s = Done (r, s') \<Longrightarrow> same_heap s s'"
  by (auto simp: pop_free_block_def same_heap_def elim!: andthen_DoneE split: if_splits)

lemma remove_free_block_same: "remove_free_block a k s = Done (b, s') \<Longrightarrow> same_heap s s'"
  by (auto simp: remove_free_block_def same_heap_def Let_def elim!: andthen_DoneE
      split: if_splits option.splits)

function allocate_order :: "nat \<Rightarrow> buddy \<Rightarrow> (nat option \<times> buddy) outcome" where
  "allocate_order order s =
     (if max_order s < order then Done (None, s)
      else andthen (pop_free_block order s) (\<lambda>(popped, s').
        case popped of
          Some addr \<Rightarrow> Done (Some addr, s')
        | None \<Rightarrow>
            andthen (allocate_order (order + 1) s') (\<lambda>(got, s2).
              case got of
                None \<Rightarrow> Done (None, s2)
              | Some addr \<Rightarrow>
                  andthen (uadd addr (block_size order)) (\<lambda>buddy_addr.
                  andthen (push_free_block buddy_addr order s2) (\<lambda>s3.
                    Done (Some addr, s3))))))"
  by pat_completeness auto
termination
  by (relation "measure (\<lambda>(order, s). Suc (max_order s) - order)")
    (auto simp: same_heap_def dest!: pop_free_block_same)

declare allocate_order.simps [simp del]

definition buddy_of :: "nat \<Rightarrow> nat \<Rightarrow> buddy \<Rightarrow> nat outcome" where
  "buddy_of addr order s =
     andthen (usub addr (heap_start s)) (\<lambda>offset.
       uadd (heap_start s) (offset XOR block_size order))"

definition buddy_alloc :: "layout \<Rightarrow> buddy \<Rightarrow> (nat \<times> buddy) outcome" where
  "buddy_alloc l s =
     (if \<not> initialized s then Done (0, s)
      else case order_for_size (max (lsize l) (lalign l)) of
          None \<Rightarrow> Done (0, s)
        | Some order \<Rightarrow>
            andthen (allocate_order order s) (\<lambda>(got, s').
              case got of Some addr \<Rightarrow> Done (addr, s') | None \<Rightarrow> Done (0, s')))"

text \<open>The merging loop of \<open>dealloc\<close>: the block to push at the end and the state.\<close>

function merge_loop :: "nat \<Rightarrow> nat \<Rightarrow> buddy \<Rightarrow> (nat \<times> nat \<times> buddy) outcome" where
  "merge_loop addr order s =
     (if order < max_order s then
        andthen (buddy_of addr order s) (\<lambda>buddy_addr.
        andthen (remove_free_block buddy_addr order s) (\<lambda>(found, s').
          if found then merge_loop (min addr buddy_addr) (order + 1) s'
          else Done (addr, order, s')))
      else Done (addr, order, s))"
  by pat_completeness auto
termination
  by (relation "measure (\<lambda>(addr, order, s). max_order s - order)")
    (auto simp: same_heap_def dest!: remove_free_block_same)

declare merge_loop.simps [simp del]

definition buddy_dealloc :: "nat \<Rightarrow> layout \<Rightarrow> buddy \<Rightarrow> buddy outcome" where
  "buddy_dealloc ptr l s =
     (if ptr = 0 \<or> \<not> initialized s then Done s
      else case order_for_size (max (lsize l) (lalign l)) of
          None \<Rightarrow> Done s
        | Some order \<Rightarrow>
            andthen (merge_loop ptr order s) (\<lambda>(addr, order', s').
              push_free_block addr order' s'))"

text \<open>One equation per branch of each loop, for rewriting under a known branch.\<close>

lemma order_for_size_loop_branches:
  "sz \<le> block_size k \<Longrightarrow> order_for_size_loop sz k = Some k"
  "block_size MAX_ORDER < sz \<Longrightarrow> order_for_size_loop sz MAX_ORDER = None"
  "block_size k < sz \<Longrightarrow> k \<noteq> MAX_ORDER \<Longrightarrow> order_for_size_loop sz k = order_for_size_loop sz (k + 1)"
  by (simp_all add: order_for_size_loop.simps [of sz])

lemma fit_order_branches:
  "k \<le> MIN_ORDER \<Longrightarrow> fit_order addr rest k = k"
  "MIN_ORDER < k \<Longrightarrow> block_size k \<le> rest \<Longrightarrow> addr mod block_size k = 0 \<Longrightarrow> fit_order addr rest k = k"
  "MIN_ORDER < k \<Longrightarrow> \<not> (block_size k \<le> rest \<and> addr mod block_size k = 0) \<Longrightarrow>
     fit_order addr rest k = fit_order addr rest (k - 1)"
  by (auto simp: fit_order.simps [of addr rest k])

lemma allocate_order_branches:
  "max_order s < k \<Longrightarrow> allocate_order k s = Done (None, s)"
  "k \<le> max_order s \<Longrightarrow> pop_free_block k s = Done (Some a, s') \<Longrightarrow>
     allocate_order k s = Done (Some a, s')"
  "k \<le> max_order s \<Longrightarrow> pop_free_block k s = Done (None, s') \<Longrightarrow>
     allocate_order (k + 1) s' = Done (None, s2) \<Longrightarrow> allocate_order k s = Done (None, s2)"
  "k \<le> max_order s \<Longrightarrow> pop_free_block k s = Done (None, s') \<Longrightarrow>
     allocate_order (k + 1) s' = Done (Some a, s2) \<Longrightarrow> a + block_size k < usize_lim \<Longrightarrow>
     push_free_block (a + block_size k) k s2 = Done s3 \<Longrightarrow> allocate_order k s = Done (Some a, s3)"
  by (simp_all add: allocate_order.simps [of k s])

lemma merge_loop_branches:
  "max_order s \<le> k \<Longrightarrow> merge_loop a k s = Done (a, k, s)"
  "k < max_order s \<Longrightarrow> buddy_of a k s = Done b \<Longrightarrow> remove_free_block b k s = Done (False, s') \<Longrightarrow>
     merge_loop a k s = Done (a, k, s')"
  "k < max_order s \<Longrightarrow> buddy_of a k s = Done b \<Longrightarrow> remove_free_block b k s = Done (True, s') \<Longrightarrow>
     merge_loop a k s = merge_loop (min a b) (k + 1) s'"
  by (simp_all add: merge_loop.simps [of a k s])

text \<open>The equations that run the allocator on closed states.\<close>

lemmas buddy_eval =
  buddy_init_def init_loop.simps fit_order.simps largest_order_for_def largest_order_loop.simps
  buddy_new_def block_size_def push_free_block_def pop_free_block_def index_for_def
  order_for_size_def order_for_size_loop.simps buddy_alloc_def buddy_dealloc_def
  allocate_order.simps merge_loop.simps remove_free_block_def remove_scan.simps buddy_of_def
  Let_def

end
