(* ===== verification/Blocks.thy ===== *)
theory Blocks
  imports Sill_Prelude
begin

text \<open>
  Power-of-two blocks and tilings: the abstract view of the buddy allocator's memory.
  A block \<open>(k, a)\<close> is the address range \<open>[a, a + 2^k)\<close>; a set of blocks tiles a set of
  addresses when the blocks are pairwise disjoint and cover exactly that set. Splitting a block in
  two halves and merging two adjacent blocks of the same order keep a tiling.
\<close>

type_synonym block = "nat \<times> nat"

definition bytes_of :: "block \<Rightarrow> nat set" where
  "bytes_of b = {snd b ..< snd b + 2 ^ fst b}"

definition tiling :: "nat set \<Rightarrow> block set \<Rightarrow> bool" where
  "tiling H B \<longleftrightarrow> (\<Union>b\<in>B. bytes_of b) = H \<and>
     (\<forall>b\<in>B. \<forall>c\<in>B. b \<noteq> c \<longrightarrow> bytes_of b \<inter> bytes_of c = {})"

lemma mem_bytes_of [simp]: "x \<in> bytes_of (k, a) \<longleftrightarrow> a \<le> x \<and> x < a + 2 ^ k"
  by (auto simp: bytes_of_def)

lemma start_in_bytes [simp]: "a \<in> bytes_of (k, a)"
  by simp

lemma tilingD_disjoint:
  "tiling H B \<Longrightarrow> b \<in> B \<Longrightarrow> c \<in> B \<Longrightarrow> x \<in> bytes_of b \<Longrightarrow> x \<in> bytes_of c \<Longrightarrow> b = c"
  by (auto simp: tiling_def)

lemma tilingD_subset: "tiling H B \<Longrightarrow> b \<in> B \<Longrightarrow> bytes_of b \<subseteq> H"
  by (auto simp: tiling_def)

lemma tiling_empty [simp]: "tiling {} {}"
  by (simp add: tiling_def)

lemma tiling_insert:
  assumes "tiling H B" and "bytes_of b \<inter> H = {}"
  shows "tiling (H \<union> bytes_of b) (insert b B)"
  using assms by (auto simp: tiling_def)

text \<open>Exchange: one block set is replaced by another that covers the same bytes.\<close>

lemma tiling_exchange:
  assumes t: "tiling H (C \<union> B)" and dis: "C \<inter> B = {}"
    and same: "(\<Union>b\<in>C. bytes_of b) = (\<Union>b\<in>D. bytes_of b)"
    and D: "\<And>b c. b \<in> D \<Longrightarrow> c \<in> D \<Longrightarrow> b \<noteq> c \<Longrightarrow> bytes_of b \<inter> bytes_of c = {}"
  shows "tiling H (D \<union> B)" and "D \<inter> B = {}"
proof -
  have sep: "bytes_of d \<inter> bytes_of b = {}" if "d \<in> D" and b: "b \<in> B" for d b
  proof (rule equals0I)
    fix x assume x: "x \<in> bytes_of d \<inter> bytes_of b"
    with same \<open>d \<in> D\<close> obtain c where c: "c \<in> C" "x \<in> bytes_of c" by blast
    then have "c = b"
      using tilingD_disjoint [OF t, of c b x] b x by simp
    with c b dis show False by blast
  qed
  have "bytes_of b \<inter> bytes_of c = {}" if "b \<in> D \<union> B" "c \<in> D \<union> B" "b \<noteq> c" for b c
  proof -
    have "bytes_of b \<inter> bytes_of c = {}" if "b \<in> B" "c \<in> B"
      using t that \<open>b \<noteq> c\<close> by (simp add: tiling_def)
    then show ?thesis
      using that sep [of b c] sep [of c b] D [of b c] by (auto simp: Int_commute)
  qed
  moreover have "(\<Union>b\<in>D \<union> B. bytes_of b) = H"
    using t same by (simp add: tiling_def UN_Un)
  ultimately show "tiling H (D \<union> B)" by (simp add: tiling_def)
  have "bytes_of b \<noteq> {}" for b by (simp add: bytes_of_def)
  then show "D \<inter> B = {}" using sep by (metis Int_absorb disjoint_iff)
qed

lemma split_bytes: "bytes_of (Suc k, a) = bytes_of (k, a) \<union> bytes_of (k, a + 2 ^ k)"
  by (auto simp: bytes_of_def)

lemma halves_disjoint:
  "b \<in> {(k, a), (k, a + 2 ^ k)} \<Longrightarrow> c \<in> {(k, a), (k, a + 2 ^ k)} \<Longrightarrow> b \<noteq> c \<Longrightarrow>
     bytes_of b \<inter> bytes_of c = {}"
  by (auto simp: bytes_of_def)

lemma tiling_split:
  assumes "tiling H (insert (Suc k, a) B)" and "(Suc k, a) \<notin> B"
  shows "tiling H (insert (k, a) (insert (k, a + 2 ^ k) B))"
    and "(k, a) \<notin> B" and "(k, a + 2 ^ k) \<notin> B"
  using tiling_exchange [of H "{(Suc k, a)}" B "{(k, a), (k, a + 2 ^ k)}", OF _ _ _ halves_disjoint]
    assms by (simp_all add: split_bytes)

lemma tiling_merge:
  assumes t: "tiling H (insert (k, a) (insert (k, b) B))"
    and new: "(k, a) \<notin> B" "(k, b) \<notin> B" and adj: "b = a + 2 ^ k \<or> a = b + 2 ^ k"
  shows "tiling H (insert (Suc k, min a b) B)" and "(Suc k, min a b) \<notin> B"
proof -
  have "bytes_of (k, a) \<union> bytes_of (k, b) = bytes_of (Suc k, min a b)"
    using adj by (auto simp: bytes_of_def)
  then show "tiling H (insert (Suc k, min a b) B)" and "(Suc k, min a b) \<notin> B"
    using tiling_exchange [of H "{(k, a), (k, b)}" B "{(Suc k, min a b)}"] t new by simp_all
qed

section \<open>The xor buddy\<close>

lemma xor_power_nat:
  "(n :: nat) XOR 2 ^ k = (if bit n k then n - 2 ^ k else n + 2 ^ k)"
proof -
  have flip: "n XOR 2 ^ k = flip_bit k n"
    by (simp add: flip_bit_eq_xor push_bit_eq_mult)
  show ?thesis
  proof (cases "bit n k")
    case True
    then have "set_bit k (unset_bit k n) = n"
      by (auto intro: bit_eqI simp: bit_simps)
    then have "unset_bit k n + 2 ^ k = n"
      by (simp add: set_bit_eq bit_simps)
    with True flip show ?thesis by (simp add: flip_bit_eq_if)
  next
    case False
    with flip show ?thesis by (simp add: flip_bit_eq_if set_bit_eq)
  qed
qed

lemma bit_ge_power: "bit (n :: nat) k \<Longrightarrow> 2 ^ k \<le> n"
  by (metis bit_iff_odd div_less even_zero linorder_not_less)

lemma xor_power_adjacent:
  "(n XOR 2 ^ k = n + 2 ^ k) \<or> (n = (n XOR 2 ^ k) + 2 ^ k)" for n :: nat
  by (auto simp: xor_power_nat dest: bit_ge_power)

lemma not_bit_dvd: "2 ^ k dvd n \<Longrightarrow> \<not> bit n k \<Longrightarrow> 2 ^ Suc k dvd n" for n :: nat
proof -
  assume "2 ^ k dvd n" and "\<not> bit n k"
  then obtain m where "n = 2 ^ k * m" by (auto simp: dvd_def)
  with \<open>\<not> bit n k\<close> have "even m" by (simp add: bit_iff_odd)
  with \<open>n = 2 ^ k * m\<close> show ?thesis by auto
qed

lemma xor_min_dvd: "2 ^ k dvd n \<Longrightarrow> 2 ^ Suc k dvd min n (n XOR 2 ^ k)" for n :: nat
proof (cases "bit n k")
  case True
  assume d: "2 ^ k dvd n"
  obtain m where m: "n = 2 ^ k * m" using d by (auto simp: dvd_def)
  with True have "odd m" by (simp add: bit_iff_odd)
  then have "n - 2 ^ k = 2 ^ k * (m - 1)" and "even (m - 1)"
    using m by (simp_all add: diff_mult_distrib2)
  then have "2 ^ Suc k dvd n - 2 ^ k" by auto
  moreover have "min n (n - 2 ^ k) = n - 2 ^ k" by simp
  ultimately show ?thesis using True by (simp only: xor_power_nat if_True)
next
  case False
  assume "2 ^ k dvd n"
  with False show ?thesis
    using not_bit_dvd [of k n] by (simp add: xor_power_nat min_def)
qed

end
