(* ===== verification/Buddy_Spec.thy ===== *)
theory Buddy_Spec
  imports Buddy Blocks
begin

text \<open>
  The abstract buddy allocator: one list of block addresses per order instead of pointers in
  memory. \<open>owned H m M F L\<close> is its invariant: the free blocks of \<open>F\<close> and the blocks \<open>L\<close>
  handed out tile the heap \<open>H\<close>, every block has an order between \<open>MIN_ORDER\<close> and \<open>m\<close>, and a block
  of order \<open>k\<close> starts at a multiple of \<open>2^min(k, M)\<close>, where \<open>2^M\<close> divides the start of the heap.
  Each step of the allocator moves one block between \<open>F\<close> and \<open>L\<close>, splits one or merges two.
\<close>

type_synonym flists = "nat \<Rightarrow> nat list"

definition free_blocks :: "flists \<Rightarrow> block set" where
  "free_blocks F = {b. snd b \<in> set (F (fst b))}"

definition owned :: "nat set \<Rightarrow> nat \<Rightarrow> nat \<Rightarrow> flists \<Rightarrow> block set \<Rightarrow> bool" where
  "owned H m M F L \<longleftrightarrow>
     (\<forall>k. distinct (F k)) \<and> tiling H (free_blocks F \<union> L) \<and> free_blocks F \<inter> L = {} \<and>
     (\<forall>b \<in> free_blocks F \<union> L. MIN_ORDER \<le> fst b \<and> fst b \<le> m \<and> 2 ^ min (fst b) M dvd snd b)"

function spec_allocate :: "nat \<Rightarrow> nat \<Rightarrow> flists \<Rightarrow> nat option \<times> flists" where
  "spec_allocate m k F =
     (if m < k then (None, F)
      else case F k of
          a # as \<Rightarrow> (Some a, F(k := as))
        | [] \<Rightarrow> (case spec_allocate m (k + 1) F of
              (None, F') \<Rightarrow> (None, F')
            | (Some a, F') \<Rightarrow> (Some a, F'(k := (a + 2 ^ k) # F' k))))"
  by pat_completeness auto
termination
  by (relation "measure (\<lambda>(m, k, F). Suc m - k)") auto

definition xbuddy :: "nat \<Rightarrow> nat \<Rightarrow> nat \<Rightarrow> nat" where
  "xbuddy st k a = st + ((a - st) XOR 2 ^ k)"

function spec_merge :: "nat \<Rightarrow> nat \<Rightarrow> nat \<Rightarrow> nat \<Rightarrow> flists \<Rightarrow> nat \<times> nat \<times> flists" where
  "spec_merge st m a k F =
     (if k < m \<and> xbuddy st k a \<in> set (F k)
      then spec_merge st m (min a (xbuddy st k a)) (k + 1)
             (F(k := remove1 (xbuddy st k a) (F k)))
      else (a, k, F))"
  by pat_completeness auto
termination
  by (relation "measure (\<lambda>(st, m, a, k, F). m - k)") auto

declare spec_allocate.simps [simp del] spec_merge.simps [simp del]

lemma spec_allocate_branches:
  "m < k \<Longrightarrow> spec_allocate m k F = (None, F)"
  "k \<le> m \<Longrightarrow> F k = a # as \<Longrightarrow> spec_allocate m k F = (Some a, F(k := as))"
  "k \<le> m \<Longrightarrow> F k = [] \<Longrightarrow> spec_allocate m k F =
     (case spec_allocate m (k + 1) F of
        (None, F') \<Rightarrow> (None, F') | (Some b, F') \<Rightarrow> (Some b, F'(k := (b + 2 ^ k) # F' k)))"
  by (simp_all add: spec_allocate.simps [of m k F])

lemma spec_merge_branches:
  "\<not> (k < m \<and> xbuddy st k a \<in> set (F k)) \<Longrightarrow> spec_merge st m a k F = (a, k, F)"
  "k < m \<Longrightarrow> xbuddy st k a \<in> set (F k) \<Longrightarrow> spec_merge st m a k F =
     spec_merge st m (min a (xbuddy st k a)) (k + 1) (F(k := remove1 (xbuddy st k a) (F k)))"
  by (auto simp: spec_merge.simps [of st m a k F])

definition spec_release :: "nat \<Rightarrow> nat \<Rightarrow> nat \<Rightarrow> nat \<Rightarrow> flists \<Rightarrow> flists" where
  "spec_release st m a k F =
     (case spec_merge st m a k F of (a', k', F') \<Rightarrow> F'(k' := a' # F' k'))"

section \<open>Free block sets\<close>

lemma mem_free_blocks [simp]: "(k, a) \<in> free_blocks F \<longleftrightarrow> a \<in> set (F k)"
  by (simp add: free_blocks_def)

lemma free_blocks_push: "free_blocks (F(k := a # F k)) = insert (k, a) (free_blocks F)"
  by (auto simp: free_blocks_def)

lemma free_blocks_take:
  assumes "distinct (F k)" and "a \<in> set (F k)"
  shows "free_blocks F = insert (k, a) (free_blocks (F(k := remove1 a (F k))))"
    and "(k, a) \<notin> free_blocks (F(k := remove1 a (F k)))"
  using assms by (auto simp: free_blocks_def)

lemma free_blocks_empty [simp]: "free_blocks (\<lambda>_. []) = {}"
  by (auto simp: free_blocks_def)

section \<open>Moving, splitting and merging blocks\<close>

lemma ownedD:
  assumes "owned H m M F L"
  shows "distinct (F k)" and "tiling H (free_blocks F \<union> L)" and "free_blocks F \<inter> L = {}"
    and "b \<in> free_blocks F \<union> L \<Longrightarrow> MIN_ORDER \<le> fst b"
    and "b \<in> free_blocks F \<union> L \<Longrightarrow> fst b \<le> m"
    and "b \<in> free_blocks F \<union> L \<Longrightarrow> 2 ^ min (fst b) M dvd snd b"
  using assms by (simp_all add: owned_def)

lemma owned_take:
  assumes o: "owned H m M F L" and a: "a \<in> set (F k)"
  shows "owned H m M (F(k := remove1 a (F k))) (insert (k, a) L)" and "(k, a) \<notin> L"
proof -
  let ?F = "F(k := remove1 a (F k))"
  note split = free_blocks_take [of F k, OF ownedD(1) [OF o] a]
  show "(k, a) \<notin> L" using ownedD(3) [OF o] split(1) by auto
  have "free_blocks F \<union> L = free_blocks ?F \<union> insert (k, a) L"
    using split(1) by simp
  moreover have "free_blocks ?F \<inter> insert (k, a) L = {}"
    using ownedD(3) [OF o] split by auto
  moreover have "distinct (?F j)" for j
    using ownedD(1) [OF o] by (simp add: distinct_remove1)
  ultimately show "owned H m M ?F (insert (k, a) L)"
    using o unfolding owned_def by metis
qed

lemma owned_push:
  assumes o: "owned H m M F (insert (k, a) L)" and new: "(k, a) \<notin> L"
  shows "owned H m M (F(k := a # F k)) L"
proof -
  have notin: "a \<notin> set (F k)" using ownedD(3) [OF o] by auto
  have "free_blocks (F(k := a # F k)) \<union> L = free_blocks F \<union> insert (k, a) L"
    by (simp add: free_blocks_push)
  moreover have "free_blocks (F(k := a # F k)) \<inter> L = {}"
    using ownedD(3) [OF o] new by (auto simp: free_blocks_push)
  moreover have "distinct ((F(k := a # F k)) j)" for j
    using ownedD(1) [OF o] notin by simp
  ultimately show ?thesis
    using o unfolding owned_def by metis
qed

lemma owned_split:
  assumes o: "owned H m M F (insert (Suc k, a) L)" and new: "(Suc k, a) \<notin> L"
    and k: "MIN_ORDER \<le> k"
  shows "owned H m M (F(k := (a + 2 ^ k) # F k)) (insert (k, a) L)" and "(k, a) \<notin> L"
proof -
  let ?B = "free_blocks F \<union> L" and ?u = "a + 2 ^ k"
  have t: "tiling H (insert (Suc k, a) ?B)" and out: "(Suc k, a) \<notin> ?B"
    using ownedD(2,3) [OF o] new by auto
  note halves = tiling_split [OF t out]
  have al: "2 ^ min (Suc k) M dvd a" and m: "Suc k \<le> m"
    using ownedD(5,6) [OF o, of "(Suc k, a)"] by simp_all
  have "2 ^ min k M dvd a"
    by (rule dvd_trans [OF _ al]) (simp add: le_imp_power_dvd)
  then have al2: "2 ^ min k M dvd a \<and> 2 ^ min k M dvd ?u"
    by (simp add: le_imp_power_dvd)
  have eq: "free_blocks (F(k := ?u # F k)) \<union> insert (k, a) L = insert (k, a) (insert (k, ?u) ?B)"
    by (auto simp: free_blocks_push)
  have "\<forall>b \<in> insert (k, a) (insert (k, ?u) ?B).
      MIN_ORDER \<le> fst b \<and> fst b \<le> m \<and> 2 ^ min (fst b) M dvd snd b"
    using o m k al2 unfolding owned_def by auto
  moreover have "distinct ((F(k := ?u # F k)) j)" for j
    using ownedD(1) [OF o] halves(3) by simp
  moreover have "free_blocks (F(k := ?u # F k)) \<inter> insert (k, a) L = {}"
    using ownedD(3) [OF o] halves(2,3) by (auto simp: free_blocks_push)
  ultimately show "owned H m M (F(k := ?u # F k)) (insert (k, a) L)"
    using halves(1) unfolding owned_def eq by simp
  show "(k, a) \<notin> L" using halves(2) by simp
qed

lemma xbuddy_adjacent: "st \<le> a \<Longrightarrow> xbuddy st k a = a + 2 ^ k \<or> a = xbuddy st k a + 2 ^ k"
  using xor_power_adjacent [of "a - st" k] by (auto simp: xbuddy_def)

lemma min_xbuddy: "st \<le> a \<Longrightarrow> min a (xbuddy st k a) = st + min (a - st) ((a - st) XOR 2 ^ k)"
  by (auto simp: xbuddy_def min_def dest!: le_Suc_ex)

lemma xbuddy_min_aligned:
  assumes st: "2 ^ M dvd st" "st \<le> a"
    and a: "2 ^ min k M dvd a" and b: "2 ^ min k M dvd xbuddy st k a"
  shows "2 ^ min (Suc k) M dvd min a (xbuddy st k a)"
proof (cases "k < M")
  case True
  then have k: "2 ^ Suc k dvd st" and k': "2 ^ k dvd st"
    using st(1) by (meson Suc_leI le_imp_power_dvd dvd_trans, meson le_imp_power_dvd dvd_trans less_imp_le)
  then have "2 ^ k dvd a - st" using a True by (simp add: min_def)
  then have "2 ^ Suc k dvd min (a - st) ((a - st) XOR 2 ^ k)" by (rule xor_min_dvd)
  with k have "2 ^ Suc k dvd min a (xbuddy st k a)"
    by (simp only: min_xbuddy [OF st(2)] dvd_add)
  with True show ?thesis by (simp add: min_def)
next
  case False
  then have "min k M = M" and "min (Suc k) M = M" by simp_all
  with a b show ?thesis by (simp add: min_def [of a])
qed

lemma owned_merge:
  assumes o: "owned H m M F (insert (k, a) L)" and new: "(k, a) \<notin> L"
    and st: "2 ^ M dvd st" "st \<le> a" and k: "k < m"
    and b: "xbuddy st k a \<in> set (F k)"
  shows "owned H m M (F(k := remove1 (xbuddy st k a) (F k)))
           (insert (Suc k, min a (xbuddy st k a)) L)"
    and "(Suc k, min a (xbuddy st k a)) \<notin> L"
proof -
  let ?b = "xbuddy st k a" and ?F = "F(k := remove1 (xbuddy st k a) (F k))"
  let ?B = "free_blocks ?F \<union> L"
  note o2 = owned_take [OF o b]
  have ab: "(k, a) \<notin> ?B" "(k, ?b) \<notin> ?B"
    using ownedD(3) [OF o2(1)] new o2(2) by auto
  have "tiling H (insert (k, a) (insert (k, ?b) ?B))"
    using ownedD(2) [OF o2(1)] by (simp add: insert_commute)
  note merged = tiling_merge [OF this ab xbuddy_adjacent [OF st(2)]]
  have "2 ^ min k M dvd a" "2 ^ min k M dvd ?b"
    using ownedD(6) [OF o2(1), of "(k, a)"] ownedD(6) [OF o2(1), of "(k, ?b)"] by simp_all
  then have al: "2 ^ min (Suc k) M dvd min a ?b"
    by (rule xbuddy_min_aligned [OF st])
  have min_k: "MIN_ORDER \<le> k" using ownedD(4) [OF o, of "(k, a)"] by simp
  have eq: "free_blocks ?F \<union> insert (Suc k, min a ?b) L = insert (Suc k, min a ?b) ?B"
    by simp
  have "\<forall>b \<in> insert (Suc k, min a ?b) ?B.
      MIN_ORDER \<le> fst b \<and> fst b \<le> m \<and> 2 ^ min (fst b) M dvd snd b"
    using o2(1) k min_k al unfolding owned_def by auto
  moreover have "free_blocks ?F \<inter> insert (Suc k, min a ?b) L = {}"
    using ownedD(3) [OF o2(1)] merged(2) by auto
  ultimately show "owned H m M ?F (insert (Suc k, min a ?b) L)"
    using merged(1) ownedD(1) [OF o2(1)] unfolding owned_def eq by simp
  show "(Suc k, min a ?b) \<notin> L" using merged(2) by simp
qed

section \<open>The abstract operations keep the invariant\<close>

lemma spec_allocate_owned:
  assumes "owned H m M F L" and "MIN_ORDER \<le> k" and "spec_allocate m k F = (r, F')"
  shows "case r of None \<Rightarrow> F' = F
       | Some a \<Rightarrow> owned H m M F' (insert (k, a) L) \<and> (k, a) \<notin> L"
  using assms
proof (induction m k F arbitrary: r F' rule: spec_allocate.induct)
  case (1 m k F)
  consider "m < k" | (pop) a as where "k \<le> m" "F k = a # as" | (split) "k \<le> m" "F k = []"
    by (metis list.exhaust linorder_not_less)
  then show ?case
  proof cases
    case pop
    have "F(k := as) = F(k := remove1 a (F k))" using pop(2) by simp
    then show ?thesis
      using owned_take [OF "1.prems"(1), of a k] "1.prems"(3) pop
      by (auto simp: spec_allocate.simps [of m k])
  next
    case split
    obtain r2 F2 where rec: "spec_allocate m (k + 1) F = (r2, F2)" by fastforce
    have "case r2 of None \<Rightarrow> F2 = F
        | Some a \<Rightarrow> owned H m M F2 (insert (k + 1, a) L) \<and> (k + 1, a) \<notin> L"
      by (rule "1.IH" [OF _ split(2) "1.prems"(1) _ rec]) (use split(1) "1.prems"(2) in simp_all)
    then have IH: "case r2 of None \<Rightarrow> F2 = F
        | Some a \<Rightarrow> owned H m M F2 (insert (Suc k, a) L) \<and> (Suc k, a) \<notin> L"
      by (cases r2) simp_all
    show ?thesis
    proof (cases r2)
      case None
      with IH rec split "1.prems"(3) show ?thesis by (auto simp: spec_allocate.simps [of m k])
    next
      case (Some a)
      with IH have IH': "owned H m M F2 (insert (Suc k, a) L)" "(Suc k, a) \<notin> L" by simp_all
      from Some rec split "1.prems"(3) have "r = Some a \<and> F' = F2(k := (a + 2 ^ k) # F2 k)"
        by (auto simp: spec_allocate.simps [of m k])
      with owned_split [OF IH' "1.prems"(2)] show ?thesis by simp
    qed
  qed (use "1.prems"(3) in \<open>auto simp: spec_allocate.simps [of m k]\<close>)
qed

lemma spec_merge_owned:
  assumes "owned H m M F (insert (k, a) L)" and "(k, a) \<notin> L"
    and "2 ^ M dvd st" and "H \<subseteq> {st..}" and "spec_merge st m a k F = (a', k', F')"
  shows "owned H m M F' (insert (k', a') L) \<and> (k', a') \<notin> L"
  using assms
proof (induction st m a k F rule: spec_merge.induct)
  case (1 st m a k F)
  show ?case
  proof (cases "k < m \<and> xbuddy st k a \<in> set (F k)")
    case True
    have "bytes_of (k, a) \<subseteq> H"
      using tilingD_subset [OF ownedD(2) [OF "1.prems"(1)]] by simp
    then have "st \<le> a" using "1.prems"(4) start_in_bytes [of a k] by blast
    note m = owned_merge [OF "1.prems"(1-3) this conjunct1 [OF True] conjunct2 [OF True]]
    have "spec_merge st m (min a (xbuddy st k a)) (k + 1)
        (F(k := remove1 (xbuddy st k a) (F k))) = (a', k', F')"
      using True "1.prems"(5) by (simp add: spec_merge.simps [of st m a k])
    then show ?thesis
      by (intro "1.IH" [OF True _ _ "1.prems"(3,4)]) (use m in \<open>simp_all add: fun_upd_def\<close>)
  next
    case False
    with "1.prems" show ?thesis by (auto simp: spec_merge.simps [of st m a k])
  qed
qed

lemma spec_release_owned:
  assumes "owned H m M F (insert (k, a) L)" and "(k, a) \<notin> L"
    and "2 ^ M dvd st" and "H \<subseteq> {st..}"
  shows "owned H m M (spec_release st m a k F) L"
  using spec_merge_owned [OF assms] owned_push
  by (auto simp: spec_release_def split: prod.splits)

end
