(* ===== verification/Buddy_Refine.thy ===== *)
theory Buddy_Refine
  imports Buddy_Spec
begin

text \<open>
  The pointer-level allocator of \<open>Buddy\<close> implements the lists of \<open>Buddy_Spec\<close>.
  \<open>chain nxt p xs\<close>: following \<open>nxt\<close> from \<open>p\<close> visits exactly \<open>xs\<close> and ends at the null
  pointer. \<open>repr s F\<close>: every free list head of \<open>s\<close> is the start of the chain \<open>F k\<close> in memory.
  Under the ownership invariant the operations neither panic nor hang, and they compute what the
  abstract operations compute.
\<close>

section \<open>Chains in memory\<close>

primrec chain :: "(nat \<Rightarrow> nat) \<Rightarrow> nat \<Rightarrow> nat list \<Rightarrow> bool" where
  "chain nxt p [] \<longleftrightarrow> p = 0"
| "chain nxt p (x # xs) \<longleftrightarrow> p = x \<and> x \<noteq> 0 \<and> chain nxt (nxt x) xs"

lemma chain_null [simp]: "chain nxt 0 xs \<longleftrightarrow> xs = []"
  by (cases xs) auto

lemma chain_cong: "(\<And>x. x \<in> set xs \<Longrightarrow> nxt' x = nxt x) \<Longrightarrow> chain nxt' p xs = chain nxt p xs"
  by (induction xs arbitrary: p) auto

lemma chain_upd [simp]: "a \<notin> set xs \<Longrightarrow> chain (nxt(a := v)) p xs = chain nxt p xs"
  by (rule chain_cong) auto

lemma remove_scan_chain:
  "chain nxt p xs \<Longrightarrow>
   remove_scan nxt t prev p =
     Some (if t \<in> set xs then Some (last (prev # takeWhile (\<lambda>x. x \<noteq> t) xs)) else None)"
  by (induction xs arbitrary: p prev) (auto simp: remove_scan.simps)

lemma last_prev_nonzero:
  "0 \<notin> set ys \<Longrightarrow> last (0 # ys) = 0 \<longleftrightarrow> ys = []"
  by (cases ys rule: rev_cases) auto

lemma chain_nonzero: "chain nxt p xs \<Longrightarrow> 0 \<notin> set xs"
  by (induction xs arbitrary: p) auto

lemma chain_unlink:
  assumes "chain nxt p xs" and "distinct xs" and "t \<in> set xs"
    and "q = last (0 # takeWhile (\<lambda>x. x \<noteq> t) xs)"
  shows "if q = 0 then chain nxt (nxt t) (remove1 t xs)
         else q \<in> set xs \<and> chain (nxt(q := nxt t)) p (remove1 t xs)"
  using assms
proof (induction xs arbitrary: p q)
  case (Cons x xs)
  show ?case
  proof (cases "x = t")
    case False
    let ?ys = "takeWhile (\<lambda>x. x \<noteq> t) xs"
    have t: "t \<in> set xs" and c: "chain nxt (nxt x) xs" and x: "x \<notin> set xs" "p = x" "x \<noteq> 0"
      using Cons.prems False by auto
    have q: "q = last (x # ?ys)" using Cons.prems(4) False by simp
    show ?thesis
    proof (cases "?ys = []")
      case True
      then obtain zs where zs: "xs = t # zs" using t by (cases xs) (auto split: if_splits)
      with q c x True Cons.prems(2) show ?thesis using False by auto
    next
      case ys: False
      have "last (0 # ?ys) \<noteq> 0"
        using chain_nonzero [OF c] ys
        by (metis last_prev_nonzero set_takeWhileD)
      then have "q \<in> set xs \<and> chain (nxt(q := nxt t)) (nxt x) (remove1 t xs)"
        using Cons.IH [OF c _ t, of "last (0 # ?ys)"] Cons.prems(2) q ys by (simp split: if_splits)
      then show ?thesis using x False chain_nonzero [OF c] by (auto simp: fun_upd_def)
    qed
  qed (use Cons.prems in auto)
qed simp

section \<open>Representation\<close>

definition repr :: "buddy \<Rightarrow> flists \<Rightarrow> bool" where
  "repr s F \<longleftrightarrow> length (free_lists s) = ORDER_COUNT \<and>
     MIN_ORDER \<le> max_order s \<and> max_order s \<le> MAX_ORDER \<and>
     (\<forall>k \<in> {MIN_ORDER..MAX_ORDER}. chain (node_next s) (free_lists s ! (k - MIN_ORDER)) (F k))"

lemma reprD:
  assumes "repr s F"
  shows "length (free_lists s) = ORDER_COUNT" and "MIN_ORDER \<le> max_order s"
    and "max_order s \<le> MAX_ORDER"
    and "MIN_ORDER \<le> k \<Longrightarrow> k \<le> max_order s \<Longrightarrow>
         chain (node_next s) (free_lists s ! (k - MIN_ORDER)) (F k)"
  using assms by (auto simp: repr_def)

lemma repr_index:
  assumes "repr s F" and "MIN_ORDER \<le> k" and "k \<le> max_order s"
  shows "index_for k = Done (k - MIN_ORDER)" and "k - MIN_ORDER < length (free_lists s)"
  using assms by (auto simp: repr_def index_for_def)

lemma repr_update:
  assumes r: "repr s F" and k: "MIN_ORDER \<le> k" "k \<le> max_order s"
    and new: "chain mem p xs"
    and frame: "\<And>j x. j \<noteq> k \<Longrightarrow> x \<in> set (F j) \<Longrightarrow> mem x = node_next s x"
  shows "repr (s\<lparr>node_next := mem, free_lists := (free_lists s)[k - MIN_ORDER := p]\<rparr>) (F(k := xs))"
proof -
  have "chain mem ((free_lists s)[k - MIN_ORDER := p] ! (j - MIN_ORDER)) ((F(k := xs)) j)"
    if "MIN_ORDER \<le> j" "j \<le> MAX_ORDER" for j
  proof (cases "j = k")
    case True
    then show ?thesis using new repr_index(2) [OF r k] by simp
  next
    case False
    then have "j - MIN_ORDER \<noteq> k - MIN_ORDER" using k that by simp
    then show ?thesis
      using r that False frame [OF False] by (simp add: repr_def chain_cong [of _ mem "node_next s"])
  qed
  then show ?thesis using r by (simp add: repr_def)
qed

lemma push_repr:
  assumes r: "repr s F" and k: "MIN_ORDER \<le> k" "k \<le> max_order s"
    and a: "a \<noteq> 0" "\<And>j. a \<notin> set (F j)"
  obtains s' where "push_free_block a k s = Done s'" and "repr s' (F(k := a # F k))"
    and "same_heap s s'"
proof -
  let ?h = "free_lists s ! (k - MIN_ORDER)"
  have "chain ((node_next s)(a := ?h)) a (a # F k)"
    using a reprD(4) [OF r k] by simp
  then have "repr (s\<lparr>node_next := (node_next s)(a := ?h),
      free_lists := (free_lists s)[k - MIN_ORDER := a]\<rparr>) (F(k := a # F k))"
    by (rule repr_update [OF r k]) (use a(2) in auto)
  moreover have "push_free_block a k s = Done (s\<lparr>node_next := (node_next s)(a := ?h),
      free_lists := (free_lists s)[k - MIN_ORDER := a]\<rparr>)"
    using repr_index [OF r k] by (simp add: push_free_block_def)
  ultimately show thesis using that push_free_block_same by blast
qed

lemma pop_repr_Nil:
  assumes r: "repr s F" and k: "MIN_ORDER \<le> k" "k \<le> max_order s" and "F k = []"
  shows "pop_free_block k s = Done (None, s)"
  using repr_index [OF r k] reprD(4) [OF r k] assms(4) by (simp add: pop_free_block_def)

lemma pop_repr_Cons:
  assumes r: "repr s F" and k: "MIN_ORDER \<le> k" "k \<le> max_order s" and F: "F k = a # as"
  obtains s' where "pop_free_block k s = Done (Some a, s')" and "repr s' (F(k := as))"
    and "same_heap s s'"
proof -
  have c: "free_lists s ! (k - MIN_ORDER) = a" "a \<noteq> 0" "chain (node_next s) (node_next s a) as"
    using reprD(4) [OF r k] F by auto
  have "pop_free_block k s =
      Done (Some a, s\<lparr>free_lists := (free_lists s)[k - MIN_ORDER := node_next s a]\<rparr>)"
    using repr_index [OF r k] c by (simp add: pop_free_block_def)
  moreover have "repr (s\<lparr>free_lists := (free_lists s)[k - MIN_ORDER := node_next s a]\<rparr>) (F(k := as))"
    using repr_update [OF r k c(3)] by simp
  ultimately show thesis using that pop_free_block_same by blast
qed

lemma remove_repr:
  assumes r: "repr s F" and k: "MIN_ORDER \<le> k" "k \<le> max_order s"
    and d: "distinct (F k)" and sep: "\<And>j x. x \<in> set (F j) \<Longrightarrow> x \<in> set (F k) \<Longrightarrow> j = k"
  obtains s' where "remove_free_block b k s = Done (b \<in> set (F k), s')"
    and "repr s' (F(k := remove1 b (F k)))" and "same_heap s s'"
proof (cases "b \<in> set (F k)")
  case False
  have "remove_free_block b k s = Done (False, s)"
    using repr_index [OF r k] remove_scan_chain [OF reprD(4) [OF r k], of b 0] False
    by (simp add: remove_free_block_def)
  then show thesis using that [of s] False r by (simp add: remove1_idem)
next
  case True
  define q where "q = last (0 # takeWhile (\<lambda>x. x \<noteq> b) (F k))"
  note c = reprD(4) [OF r k]
  note un = chain_unlink [OF c d True q_def]
  have scan: "remove_scan (node_next s) b 0 (free_lists s ! (k - MIN_ORDER)) = Some (Some q)"
    unfolding q_def using remove_scan_chain [OF c, of b 0] True by simp
  show thesis
  proof (cases "q = 0")
    case q: True
    let ?s = "s\<lparr>free_lists := (free_lists s)[k - MIN_ORDER := node_next s b]\<rparr>"
    have "remove_free_block b k s = Done (True, ?s)"
      using repr_index [OF r k] scan q by (simp add: remove_free_block_def)
    moreover have "repr ?s (F(k := remove1 b (F k)))"
      using repr_update [OF r k, of "node_next s"] un q by simp
    ultimately show thesis using that True remove_free_block_same by metis
  next
    case q: False
    let ?s = "s\<lparr>node_next := (node_next s)(q := node_next s b)\<rparr>"
    have "remove_free_block b k s = Done (True, ?s)"
      using repr_index [OF r k] scan q by (simp add: remove_free_block_def)
    moreover have "repr ?s (F(k := remove1 b (F k)))"
    proof -
      have "repr (s\<lparr>node_next := (node_next s)(q := node_next s b),
          free_lists := (free_lists s)[k - MIN_ORDER := free_lists s ! (k - MIN_ORDER)]\<rparr>)
          (F(k := remove1 b (F k)))"
        by (rule repr_update [OF r k]) (use un q sep in auto)
      then show ?thesis by simp
    qed
    ultimately show thesis using that True remove_free_block_same by metis
  qed
qed

end
