(* ===== verification/Buddy_Correct.thy ===== *)
theory Buddy_Correct
  imports Buddy_Refine
begin

text \<open>
  Correctness of the buddy allocator: \<open>init\<close> tiles the heap, \<open>alloc\<close> and \<open>dealloc\<close> refine
  the abstract operations, and the heap invariant \<open>buddy_inv\<close> (free blocks and live blocks tile the
  heap, the chains in memory are well formed) is kept by every operation. No operation panics or
  hangs in a state that satisfies it.
\<close>

section \<open>Orders\<close>

lemma largest_order_loop_spec:
  "k \<le> MAX_ORDER \<Longrightarrow> k \<le> largest_order_loop sz k \<and> largest_order_loop sz k \<le> MAX_ORDER \<and>
     (2 ^ k \<le> sz \<longrightarrow> 2 ^ largest_order_loop sz k \<le> sz) \<and>
     (\<forall>j. largest_order_loop sz k < j \<and> j \<le> MAX_ORDER \<longrightarrow> sz < 2 ^ j)"
proof (induction sz k rule: largest_order_loop.induct)
  case (1 sz k)
  show ?case
  proof (cases "k < MAX_ORDER \<and> block_size (k + 1) \<le> sz")
    case True
    then have "(2::nat) ^ (k + 1) \<le> sz" by (simp add: block_size_def)
    with "1.IH" [OF True] True show ?thesis by (simp add: largest_order_loop.simps [of sz k])
  next
    case False
    have "sz < 2 ^ j" if "k < j" "j \<le> MAX_ORDER" for j
    proof -
      have "sz < 2 ^ Suc k" using False that by (simp add: block_size_def)
      also have "\<dots> \<le> 2 ^ j" using that by (simp only: power_increasing Suc_leI one_le_numeral)
      finally show ?thesis .
    qed
    with False "1.prems" show ?thesis by (auto simp: largest_order_loop.simps [of sz k])
  qed
qed

lemma order_for_size_loop_spec:
  "k \<le> MAX_ORDER \<Longrightarrow>
   case order_for_size_loop sz k of
     None \<Rightarrow> 2 ^ MAX_ORDER < sz
   | Some j \<Rightarrow> k \<le> j \<and> j \<le> MAX_ORDER \<and> sz \<le> 2 ^ j \<and> (j = k \<or> 2 ^ (j - 1) < sz)"
proof (induction sz k rule: order_for_size_loop.induct)
  case (1 sz k)
  consider "2 ^ k < sz" "k = MAX_ORDER" | (below) "2 ^ k < sz" "k < MAX_ORDER" | "sz \<le> 2 ^ k"
    using "1.prems" by linarith
  then show ?case
  proof cases
    case below
    have "case order_for_size_loop sz (k + 1) of
        None \<Rightarrow> 2 ^ MAX_ORDER < sz
      | Some j \<Rightarrow> k + 1 \<le> j \<and> j \<le> MAX_ORDER \<and> sz \<le> 2 ^ j \<and> (j = k + 1 \<or> 2 ^ (j - 1) < sz)"
      by (rule "1.IH") (use below in \<open>auto simp: block_size_def\<close>)
    with below show ?thesis
      by (auto simp: order_for_size_loop_branches block_size_def split: option.splits)
  qed (use "1.prems" in \<open>simp_all add: order_for_size_loop_branches block_size_def\<close>)
qed

lemma order_for_size_spec:
  "case order_for_size sz of
     None \<Rightarrow> 2 ^ MAX_ORDER < sz
   | Some k \<Rightarrow> MIN_ORDER \<le> k \<and> k \<le> MAX_ORDER \<and> sz \<le> 2 ^ k \<and>
       (k = MIN_ORDER \<or> 2 ^ (k - 1) < sz)"
  using order_for_size_loop_spec [of MIN_ORDER "max sz free_node_size"]
proof (cases "order_for_size_loop (max sz free_node_size) MIN_ORDER")
  case (Some k)
  have "k = MIN_ORDER \<or> 2 ^ (k - 1) < sz" if "k = MIN_ORDER \<or> 2 ^ (k - 1) < max sz 8" "MIN_ORDER \<le> k"
  proof (cases "k = MIN_ORDER")
    case False
    then have "MIN_ORDER < k" using that(2) by simp
    then have "(2::nat) ^ 6 \<le> 2 ^ (k - 1)" by (intro power_increasing) auto
    with that(1) False show ?thesis by (simp add: less_max_iff_disj)
  qed simp
  with Some order_for_size_loop_spec [of MIN_ORDER "max sz free_node_size"] show ?thesis
    by (auto simp: order_for_size_def)
qed (simp add: order_for_size_def max_def split: if_splits)

lemma fit_order_spec:
  "MIN_ORDER \<le> m \<Longrightarrow> MIN_ORDER \<le> fit_order addr rest m \<and> fit_order addr rest m \<le> m \<and>
     (fit_order addr rest m = MIN_ORDER \<or>
        2 ^ fit_order addr rest m \<le> rest \<and> 2 ^ fit_order addr rest m dvd addr) \<and>
     (\<forall>j. fit_order addr rest m < j \<and> j \<le> m \<longrightarrow> \<not> (2 ^ j \<le> rest \<and> 2 ^ j dvd addr))"
proof (induction addr rest m rule: fit_order.induct)
  case (1 addr rest m)
  show ?case
  proof (cases "MIN_ORDER < m")
    case lt: True
    show ?thesis
    proof (cases "block_size m \<le> rest \<and> addr mod block_size m = 0")
      case True
      with lt show ?thesis
        by (auto simp: fit_order.simps [of addr rest m] block_size_def dvd_eq_mod_eq_0)
    next
      case False
      from lt have "MIN_ORDER \<le> m - 1" by simp
      note IH = "1.IH" [OF lt False this]
      have "j \<le> m - 1 \<or> j = m" if "j \<le> m" for j using that by auto
      with IH False lt show ?thesis
        by (auto simp: fit_order.simps [of addr rest m] block_size_def dvd_eq_mod_eq_0)
    qed
  next
    case False
    then have "fit_order addr rest m = m" and "m = MIN_ORDER"
      using "1.prems" by (simp_all add: fit_order_branches)
    then show ?thesis by auto
  qed
qed

section \<open>Addresses of the heap\<close>

text \<open>
  \<open>heap_range H\<close>: the heap's addresses are not null and leave room for the end address below
  2^64.
\<close>

definition heap_range :: "nat set \<Rightarrow> bool" where
  "heap_range H \<longleftrightarrow> H \<subseteq> {0 <..< usize_lim - 1}"

lemma owned_range:
  assumes "owned H m M F L" and "heap_range H" and "(k, a) \<in> free_blocks F \<union> L"
  shows "0 < a" and "a + 2 ^ k < usize_lim"
proof -
  have sub: "bytes_of (k, a) \<subseteq> {0 <..< usize_lim - 1}"
    using tilingD_subset [OF ownedD(2) [OF assms(1)] assms(3)] assms(2) by (auto simp: heap_range_def)
  have "a \<in> {0 <..< usize_lim - 1}"
    by (rule subsetD [OF sub]) simp
  then show "0 < a" by simp
  have "a + 2 ^ k - 1 \<in> {0 <..< usize_lim - 1}"
    by (rule subsetD [OF sub]) (use zero_less_power [of "2::nat" k] in \<open>unfold mem_bytes_of, linarith\<close>)
  then show "a + 2 ^ k < usize_lim" unfolding greaterThanLessThan_iff by linarith
qed

lemma owned_lists_disjoint:
  assumes "owned H m M F L" and "x \<in> set (F j)" and "x \<in> set (F k)"
  shows "j = k"
  using tilingD_disjoint [OF ownedD(2) [OF assms(1)], of "(j, x)" "(k, x)" x] assms(2,3) by simp

text \<open>An address inside a live block, other than its start, is in no free list.\<close>

lemma owned_inside:
  assumes "owned H m M F L" and "(k, a) \<in> L" and "x \<in> bytes_of (k, a)"
  shows "x \<notin> set (F j)"
proof
  assume "x \<in> set (F j)"
  then have f: "(j, x) \<in> free_blocks F" by simp
  then have "(j, x) = (k, a)"
    using tilingD_disjoint [OF ownedD(2) [OF assms(1)], of "(j, x)" "(k, a)" x] assms(2,3) by simp
  with f assms(2) ownedD(3) [OF assms(1)] show False by (metis IntI empty_iff)
qed

lemma owned_heap_order:
  "owned H m M F L \<Longrightarrow> x \<in> set (F k) \<Longrightarrow> MIN_ORDER \<le> k \<and> k \<le> m"
  using ownedD(4,5) [of H m M F L "(k, x)"] by simp

section \<open>Refinement\<close>

lemma allocate_refines:
  assumes "repr s F" and "owned H (max_order s) M F L" and "heap_range H" and "MIN_ORDER \<le> k"
    and "m = max_order s"
  shows "\<exists>s'. allocate_order k s = Done (fst (spec_allocate m k F), s') \<and>
    repr s' (snd (spec_allocate m k F)) \<and> same_heap s s'"
  using assms
proof (induction m k F rule: spec_allocate.induct)
  case (1 m k F)
  note r = "1.prems"(1) and o = "1.prems"(2)
  consider "m < k" | (pop) a as where "k \<le> m" "F k = a # as" | (split) "k \<le> m" "F k = []"
    by (metis list.exhaust linorder_not_less)
  then show ?case
  proof cases
    case 1
    then show ?thesis
      using r "1.prems"(5) by (simp add: spec_allocate_branches allocate_order_branches fun_upd_def)
  next
    case pop
    obtain s' where "pop_free_block k s = Done (Some a, s')" "repr s' (F(k := as))" "same_heap s s'"
      using pop_repr_Cons [OF r "1.prems"(4) _ pop(2)] pop(1) "1.prems"(5) by blast
    then show ?thesis
      using pop "1.prems"(5) by (simp add: spec_allocate_branches allocate_order_branches fun_upd_def)
  next
    case split
    note none = pop_repr_Nil [OF r "1.prems"(4) _ split(2)]
    obtain got F2 where rec: "spec_allocate m (k + 1) F = (got, F2)" by fastforce
    have "\<exists>s'. allocate_order (k + 1) s = Done (fst (spec_allocate m (k + 1) F), s') \<and>
        repr s' (snd (spec_allocate m (k + 1) F)) \<and> same_heap s s'"
      using "1.IH" [OF _ split(2) r o "1.prems"(3) _ "1.prems"(5)] split(1) "1.prems"(4) by simp
    then obtain s2 where s2: "allocate_order (k + 1) s = Done (got, s2)" "repr s2 F2" "same_heap s s2"
      using rec by auto
    show ?thesis
    proof (cases got)
      case None
      then show ?thesis
        using s2 rec split none "1.prems"(5)
        by (simp add: spec_allocate_branches allocate_order_branches fun_upd_def)
    next
      case (Some a)
      have o2: "owned H m M F2 (insert (k + 1, a) L)"
        using spec_allocate_owned [OF o [folded "1.prems"(5)] _ rec] "1.prems"(4) Some by simp
      note rng = owned_range [OF o2 "1.prems"(3), of "k + 1" a]
      have lim: "a + 2 ^ k < usize_lim" using rng by simp
      have "\<And>j. a + 2 ^ k \<notin> set (F2 j)"
        by (rule owned_inside [OF o2, of "k + 1" a]) auto
      then obtain s3 where s3: "push_free_block (a + 2 ^ k) k s2 = Done s3"
          "repr s3 (F2(k := (a + 2 ^ k) # F2 k))" "same_heap s2 s3"
        using push_repr [OF s2(2) "1.prems"(4), of "a + 2 ^ k"] split(1) s2(3) "1.prems"(5)
        by (auto simp: same_heap_def)
      show ?thesis
        using s2 s3 rec split none Some lim "1.prems"(5) same_heap_trans [OF s2(3) s3(3)]
        by (simp add: spec_allocate_branches allocate_order_branches fun_upd_def block_size_def)
    qed
  qed
qed

lemma merge_refines:
  assumes "repr s F" and "owned H m M F (insert (k, a) L)" and "(k, a) \<notin> L"
    and "heap_range H" and "2 ^ M dvd st" and "H \<subseteq> {st..}"
    and "m = max_order s" and "st = heap_start s"
    and "spec_merge st m a k F = (a', k', F')"
  shows "\<exists>s'. merge_loop a k s = Done (a', k', s') \<and> repr s' F' \<and> same_heap s s'"
  using assms
proof (induction st m a k F arbitrary: s rule: spec_merge.induct)
  case (1 st m a k F s)
  note r = "1.prems"(1) and o = "1.prems"(2)
  have k: "MIN_ORDER \<le> k" "k \<le> m" using ownedD(4,5) [OF o, of "(k, a)"] by simp_all
  have a: "st \<le> a"
    using tilingD_subset [OF ownedD(2) [OF o], of "(k, a)"] "1.prems"(6) start_in_bytes [of a k]
    by blast
  show ?case
  proof (cases "k < m")
    case False
    then show ?thesis
      using "1.prems" by (auto simp: spec_merge_branches merge_loop_branches)
  next
    case lt: True
    let ?b = "xbuddy st k a"
    have "?b < usize_lim"
      using xbuddy_adjacent [OF a, of k] owned_range [OF o "1.prems"(4), of k a] by auto
    then have buddy: "buddy_of a k s = Done ?b"
      using a "1.prems"(8) by (simp add: buddy_of_def xbuddy_def block_size_def)
    obtain s' where s': "remove_free_block ?b k s = Done (?b \<in> set (F k), s')"
        "repr s' (F(k := remove1 ?b (F k)))" "same_heap s s'"
      by (rule remove_repr [OF r k(1) _ ownedD(1) [OF o]])
        (use k "1.prems"(7) owned_lists_disjoint [OF o] in auto)
    show ?thesis
    proof (cases "?b \<in> set (F k)")
      case True
      then have found: "k < m \<and> ?b \<in> set (F k)" using lt by simp
      note om = owned_merge [OF o "1.prems"(3,5) a lt True]
      have "\<exists>s2. merge_loop (min a ?b) (k + 1) s' = Done (a', k', s2) \<and> repr s2 F' \<and> same_heap s' s2"
        by (rule "1.IH" [OF found s'(2) _ _ "1.prems"(4-6)])
          (use om "1.prems" s'(3) found in
            \<open>simp_all add: fun_upd_def same_heap_def spec_merge_branches\<close>)
      then obtain s2 where s2: "merge_loop (min a ?b) (k + 1) s' = Done (a', k', s2)" "repr s2 F'"
          "same_heap s' s2" by blast
      then show ?thesis
        using lt buddy s' True "1.prems"(7) same_heap_trans [OF s'(3) s2(3)]
        by (simp add: merge_loop_branches)
    next
      case False
      then have "F(k := remove1 ?b (F k)) = F" by (simp add: remove1_idem)
      then show ?thesis
        using lt buddy s' False "1.prems"(7,9)
        by (auto simp: spec_merge_branches merge_loop_branches)
    qed
  qed
qed

section \<open>Initialisation tiles the heap\<close>

definition heap_state :: "nat set \<Rightarrow> nat \<Rightarrow> buddy \<Rightarrow> flists \<Rightarrow> block set \<Rightarrow> bool" where
  "heap_state H M s F L \<longleftrightarrow> initialized s \<and> heap_range H \<and> 2 ^ M dvd heap_start s \<and>
     H \<subseteq> {heap_start s..} \<and> repr s F \<and> owned H (max_order s) M F L"

definition buddy_inv :: "nat set \<Rightarrow> nat \<Rightarrow> buddy \<Rightarrow> block set \<Rightarrow> bool" where
  "buddy_inv H M s L \<longleftrightarrow> (\<exists>F. heap_state H M s F L)"

lemma owned_extend:
  assumes o: "owned {st..<addr} m M F {}" and st: "st \<le> addr"
    and k: "MIN_ORDER \<le> k" "k \<le> m" and al: "2 ^ k dvd addr"
  shows "owned {st..<addr + 2 ^ k} m M (F(k := addr # F k)) {}" and "\<And>j. addr \<notin> set (F j)"
proof -
  have notin: "(j, addr) \<notin> free_blocks F" for j
  proof
    assume "(j, addr) \<in> free_blocks F"
    then have "bytes_of (j, addr) \<subseteq> {st..<addr}"
      using tilingD_subset [OF ownedD(2) [OF o], of "(j, addr)"] by simp
    from subsetD [OF this, of addr] show False by simp
  qed
  then show "\<And>j. addr \<notin> set (F j)" by simp
  have "{st..<addr} \<union> bytes_of (k, addr) = {st..<addr + 2 ^ k}"
    using st by (auto simp: bytes_of_def)
  moreover have "bytes_of (k, addr) \<inter> {st..<addr} = {}" by (auto simp: bytes_of_def)
  ultimately have "tiling {st..<addr + 2 ^ k} (insert (k, addr) (free_blocks F))"
    using tiling_insert [of "{st..<addr}" "free_blocks F" "(k, addr)"] ownedD(2) [OF o] by simp
  moreover have "2 ^ min k M dvd addr"
    by (rule dvd_trans [OF _ al]) (simp add: le_imp_power_dvd)
  ultimately have "owned {st..<addr + 2 ^ k} m M F {(k, addr)}"
    using o k notin by (simp add: owned_def)
  then show "owned {st..<addr + 2 ^ k} m M (F(k := addr # F k)) {}"
    by (rule owned_push) simp
qed

lemma init_loop_spec:
  assumes "repr s F" and "owned {st..<addr} (max_order s) M F {}" and "0 < st" and "st \<le> addr"
    and "2 ^ MIN_ORDER dvd addr" and "addr + rest < usize_lim"
  shows "\<exists>s' F'. init_loop addr rest s = Done s' \<and> repr s' F' \<and> same_heap s s' \<and>
     owned {st..<addr + rest - rest mod 64} (max_order s) M F' {}"
  using assms
proof (induction addr rest s arbitrary: F rule: init_loop.induct)
  case (1 addr rest s)
  note r = "1.prems"(1) and o = "1.prems"(2)
  show ?case
  proof (cases "block_size MIN_ORDER \<le> rest")
    case False
    then show ?thesis
      using r o by (intro exI [of _ s] exI [of _ F]) (simp add: init_loop.simps [of addr] block_size_def)
  next
    case True
    define k where "k = fit_order addr rest (max_order s)"
    have k: "MIN_ORDER \<le> k" "k \<le> max_order s" and fits: "2 ^ k \<le> rest" "2 ^ k dvd addr"
      using fit_order_spec [OF reprD(2) [OF r], of addr rest] True "1.prems"(5)
      by (auto simp: k_def block_size_def)
    note ext = owned_extend [OF o "1.prems"(4) k fits(2)]
    obtain s1 where s1: "push_free_block addr k s = Done s1" "repr s1 (F(k := addr # F k))"
        "same_heap s s1"
      by (rule push_repr [OF r k, of addr]) (use ext(2) "1.prems"(3,4) in auto)
    have go: "\<not> (rest < block_size k \<or> addr mod block_size k \<noteq> 0)"
      using fits by (simp add: block_size_def dvd_eq_mod_eq_0 not_less)
    have add: "uadd addr (block_size k) = Done (addr + 2 ^ k)"
      using "1.prems"(6) fits(1) by (simp add: block_size_def)
    have "2 ^ MIN_ORDER dvd (2::nat) ^ k" using k(1) by (rule le_imp_power_dvd)
    then have al: "2 ^ MIN_ORDER dvd addr + 2 ^ k" using "1.prems"(5) by (rule dvd_add [rotated])
    have "\<exists>s' F'. init_loop (addr + 2 ^ k) (rest - block_size k) s1 = Done s' \<and> repr s' F' \<and>
        same_heap s1 s' \<and>
        owned {st..<addr + 2 ^ k + (rest - block_size k) - (rest - block_size k) mod 64}
          (max_order s1) M F' {}"
      by (rule "1.IH" [OF True k_def refl go s1(1) add s1(2)])
        (use ext(1) s1(3) "1.prems" fits al in \<open>auto simp: same_heap_def block_size_def fun_upd_def\<close>)
    moreover have "(rest - 2 ^ k) mod 64 = rest mod 64"
    proof -
      obtain q where "(2::nat) ^ k = 64 * q"
        using \<open>2 ^ MIN_ORDER dvd (2::nat) ^ k\<close> by (auto simp: dvd_def)
      with fits(1) show ?thesis by (metis mod_mult_self2 le_add_diff_inverse2)
    qed
    ultimately obtain s' F' where fin: "init_loop (addr + 2 ^ k) (rest - block_size k) s1 = Done s'"
        "repr s' F'" "same_heap s1 s'" "owned {st..<addr + rest - rest mod 64} (max_order s1) M F' {}"
      using fits(1) by (auto simp: block_size_def)
    have "init_loop addr rest s = init_loop (addr + 2 ^ k) (rest - block_size k) s1"
      using True go s1(1) add by (simp add: init_loop.simps [of addr rest s] Let_def flip: k_def)
    then show ?thesis
      using fin same_heap_trans [OF s1(3) fin(3)] s1(3)
      by (intro exI [of _ s'] exI [of _ F']) (simp add: same_heap_def)
  qed
qed

lemma buddy_init_inv:
  assumes "2 ^ MIN_ORDER dvd start" and "2 ^ MIN_ORDER \<le> sz" and "0 < start"
    and "start + sz < usize_lim" and "2 ^ M dvd start"
  shows "\<exists>s'. buddy_init start sz s = Done s' \<and> heap_start s' = start \<and> heap_size s' = sz \<and>
    buddy_inv {start..<start + sz - sz mod 64} M s' {}"
proof -
  let ?m = "min (largest_order_for sz) MAX_ORDER"
  let ?s = "s\<lparr>heap_start := start, heap_size := sz, max_order := ?m,
      free_lists := replicate ORDER_COUNT 0\<rparr>"
  have m: "MIN_ORDER \<le> ?m" "?m \<le> MAX_ORDER"
    using largest_order_loop_spec [of MIN_ORDER sz] by (simp_all add: largest_order_for_def)
  have "repr ?s (\<lambda>_. [])"
    using m by (auto simp: repr_def)
  moreover have "owned {start..<start} (max_order ?s) M (\<lambda>_. []) {}"
    by (simp add: owned_def)
  ultimately obtain s' F' where s': "init_loop start sz ?s = Done s'" "repr s' F'" "same_heap ?s s'"
      "owned {start..<start + sz - sz mod 64} ?m M F' {}"
    using init_loop_spec [of ?s "\<lambda>_. []" start start M sz] assms by auto
  let ?s' = "s'\<lparr>initialized := True\<rparr>"
  have "repr ?s' F'" using s'(2) by (simp add: repr_def)
  moreover have "heap_range {start..<start + sz - sz mod 64}"
    using assms(3,4) by (auto simp: heap_range_def)
  ultimately have "buddy_inv {start..<start + sz - sz mod 64} M ?s' {}"
    using s'(3,4) assms(5) by (auto simp: buddy_inv_def heap_state_def same_heap_def)
  moreover have "buddy_init start sz s = Done ?s'"
    using s'(1) assms(1,2) by (simp add: buddy_init_def block_size_def dvd_eq_mod_eq_0)
  ultimately show ?thesis using s'(3) by (auto simp: same_heap_def)
qed

section \<open>Allocation and deallocation keep the heap invariant\<close>

definition buddy_order :: "layout \<Rightarrow> nat option" where
  "buddy_order l = order_for_size (max (lsize l) (lalign l))"

lemma buddy_orderD:
  assumes "buddy_order l = Some k"
  shows "MIN_ORDER \<le> k" and "k \<le> MAX_ORDER" and "lsize l \<le> 2 ^ k" and "lalign l \<le> 2 ^ k"
  using assms order_for_size_spec [of "max (lsize l) (lalign l)"] by (auto simp: buddy_order_def)

lemma buddy_invE:
  assumes "buddy_inv H M s L"
  obtains F where "initialized s" and "heap_range H" and "2 ^ M dvd heap_start s"
    and "H \<subseteq> {heap_start s..}" and "repr s F" and "owned H (max_order s) M F L"
  using assms by (auto simp: buddy_inv_def heap_state_def)

lemma heap_stateI:
  "initialized s \<Longrightarrow> same_heap s s' \<Longrightarrow> heap_range H \<Longrightarrow> 2 ^ M dvd heap_start s \<Longrightarrow>
   H \<subseteq> {heap_start s..} \<Longrightarrow> repr s' F \<Longrightarrow> owned H (max_order s) M F L \<Longrightarrow> heap_state H M s' F L"
  by (auto simp: heap_state_def same_heap_def)

lemma heap_stateD:
  assumes "heap_state H M s F L"
  shows "initialized s" and "heap_range H" and "2 ^ M dvd heap_start s" and "H \<subseteq> {heap_start s..}"
    and "repr s F" and "owned H (max_order s) M F L"
  using assms by (simp_all add: heap_state_def)

lemma spec_allocate_None_iff:
  "fst (spec_allocate m k F) = None \<longleftrightarrow> (\<forall>j. k \<le> j \<and> j \<le> m \<longrightarrow> F j = [])"
proof (induction m k F rule: spec_allocate.induct)
  case (1 m k F)
  consider "m < k" | (pop) a as where "k \<le> m" "F k = a # as" | (split) "k \<le> m" "F k = []"
    by (metis list.exhaust linorder_not_less)
  then show ?case
  proof cases
    case split
    then have "fst (spec_allocate m k F) = None \<longleftrightarrow> fst (spec_allocate m (k + 1) F) = None"
      by (simp add: spec_allocate_branches split: prod.splits option.splits)
    also have "\<dots> \<longleftrightarrow> (\<forall>j. k + 1 \<le> j \<and> j \<le> m \<longrightarrow> F j = [])"
      using "1.IH" split by simp
    also have "\<dots> \<longleftrightarrow> (\<forall>j. k \<le> j \<and> j \<le> m \<longrightarrow> F j = [])"
      using split(2) by (metis Suc_eq_plus1 Suc_leI le_eq_less_or_eq Suc_leD)
    finally show ?thesis .
  qed (auto simp: spec_allocate_branches)
qed

lemma repr_head_null:
  "repr s F \<Longrightarrow> MIN_ORDER \<le> k \<Longrightarrow> k \<le> max_order s \<Longrightarrow>
     free_lists s ! (k - MIN_ORDER) = 0 \<longleftrightarrow> F k = []"
  using reprD(4) [of s F k] by (cases "F k") auto

text \<open>\<open>alloc\<close> and \<open>dealloc\<close> do on the free lists what the abstract operations do.\<close>

lemma heap_alloc:
  assumes "heap_state H M s F L" and "buddy_order l = Some k"
    and "spec_allocate (max_order s) k F = (got, F')"
  obtains s' where "buddy_alloc l s = Done (case got of None \<Rightarrow> 0 | Some p \<Rightarrow> p, s')" and "same_heap s s'"
    and "case got of None \<Rightarrow> F' = F \<and> heap_state H M s' F L
      | Some p \<Rightarrow> p \<noteq> 0 \<and> (k, p) \<notin> L \<and> heap_state H M s' F' (insert (k, p) L)"
proof -
  note h = heap_stateD [OF assms(1)] and k = buddy_orderD(1) [OF assms(2)]
  obtain s' where s': "allocate_order k s = Done (got, s')" "repr s' F'" "same_heap s s'"
    using allocate_refines [OF h(5,6,2) k refl] assms(3) by auto
  note own = spec_allocate_owned [OF h(6) k assms(3)]
  have "buddy_alloc l s = Done (case got of None \<Rightarrow> 0 | Some p \<Rightarrow> p, s')"
    using h(1) s'(1) assms(2) by (simp add: buddy_alloc_def buddy_order_def split: option.splits)
  then show thesis
  proof (rule that [OF _ s'(3)])
    show "case got of None \<Rightarrow> F' = F \<and> heap_state H M s' F L
      | Some p \<Rightarrow> p \<noteq> 0 \<and> (k, p) \<notin> L \<and> heap_state H M s' F' (insert (k, p) L)"
    proof (cases got)
      case None
      then show ?thesis using own heap_stateI [OF h(1) s'(3) h(2,3,4) s'(2)] h(6) by simp
    next
      case (Some p)
      then have ow: "owned H (max_order s) M F' (insert (k, p) L)" "(k, p) \<notin> L" using own by simp_all
      have "p \<noteq> 0" using owned_range(1) [OF ow(1) h(2), of k p] by simp
      then show ?thesis using Some ow heap_stateI [OF h(1) s'(3) h(2,3,4) s'(2)] by simp
    qed
  qed
qed

lemma heap_dealloc:
  assumes "heap_state H M s F (insert (k, p) L)" and new: "(k, p) \<notin> L" and k: "buddy_order l = Some k"
  obtains s' where "buddy_dealloc p l s = Done s'" and "same_heap s s'"
    and "heap_state H M s' (spec_release (heap_start s) (max_order s) p k F) L"
proof -
  note h = heap_stateD [OF assms(1)]
  have p: "p \<noteq> 0" using owned_range(1) [OF h(6,2), of k p] by simp
  obtain a' k' F' where spec: "spec_merge (heap_start s) (max_order s) p k F = (a', k', F')"
    by (metis prod_cases3)
  obtain s1 where s1: "merge_loop p k s = Done (a', k', s1)" "repr s1 F'" "same_heap s s1"
    using merge_refines [OF h(5,6) new h(2,3,4) refl refl spec] by blast
  have o1: "owned H (max_order s) M F' (insert (k', a') L)" "(k', a') \<notin> L"
    using spec_merge_owned [OF h(6) new h(3,4) spec] by simp_all
  have k': "MIN_ORDER \<le> k'" "k' \<le> max_order s1"
    using ownedD(4,5) [OF o1(1), of "(k', a')"] s1(3) by (simp_all add: same_heap_def)
  obtain s2 where s2: "push_free_block a' k' s1 = Done s2" "repr s2 (F'(k' := a' # F' k'))"
      "same_heap s1 s2"
    by (rule push_repr [OF s1(2) k', of a'])
      (use owned_range(1) [OF o1(1) h(2), of k' a'] owned_inside [OF o1(1), of k' a' a'] in auto)
  have "buddy_dealloc p l s = Done s2"
    using p h(1) k s1(1) s2(1) by (simp add: buddy_dealloc_def buddy_order_def)
  moreover have "heap_state H M s2 (F'(k' := a' # F' k')) L"
    by (rule heap_stateI [OF h(1) same_heap_trans [OF s1(3) s2(3)] h(2,3,4) s2(2) owned_push [OF o1]])
  ultimately show thesis
    using that [OF _ same_heap_trans [OF s1(3) s2(3)]] spec by (simp add: spec_release_def)
qed

lemma buddy_alloc_spec:
  assumes "buddy_inv H M s L" and "buddy_order l = Some k"
  obtains p s' where "buddy_alloc l s = Done (p, s')"
    and "p = 0 \<Longrightarrow> buddy_inv H M s' L"
    and "p \<noteq> 0 \<Longrightarrow> (k, p) \<notin> L \<and> buddy_inv H M s' (insert (k, p) L)"
    and "p = 0 \<longleftrightarrow> (\<forall>j. k \<le> j \<and> j \<le> max_order s \<longrightarrow> free_lists s ! (j - MIN_ORDER) = 0)"
proof -
  obtain F where F: "heap_state H M s F L" using assms(1) by (auto simp: buddy_inv_def)
  obtain got F' where spec: "spec_allocate (max_order s) k F = (got, F')" by fastforce
  obtain s' where s': "buddy_alloc l s = Done (case got of None \<Rightarrow> 0 | Some p \<Rightarrow> p, s')" "same_heap s s'"
    "case got of None \<Rightarrow> F' = F \<and> heap_state H M s' F L
      | Some p \<Rightarrow> p \<noteq> 0 \<and> (k, p) \<notin> L \<and> heap_state H M s' F' (insert (k, p) L)"
    by (rule heap_alloc [OF F assms(2) spec])
  have null: "got = None \<longleftrightarrow> (\<forall>j. k \<le> j \<and> j \<le> max_order s \<longrightarrow> free_lists s ! (j - MIN_ORDER) = 0)"
    using spec_allocate_None_iff [of "max_order s" k F] spec repr_head_null [OF heap_stateD(5) [OF F]]
      buddy_orderD(1) [OF assms(2)] by auto
  show thesis
    by (rule that [OF s'(1)]) (use s'(3) null in \<open>auto simp: buddy_inv_def split: option.splits\<close>)
qed

lemma buddy_dealloc_spec:
  assumes "buddy_inv H M s (insert (k, p) L)" and "(k, p) \<notin> L" and "buddy_order l = Some k"
  obtains s' where "buddy_dealloc p l s = Done s'" and "buddy_inv H M s' L"
proof -
  obtain F where F: "heap_state H M s F (insert (k, p) L)" using assms(1) by (auto simp: buddy_inv_def)
  show thesis by (rule heap_dealloc [OF F assms(2,3)]) (use that in \<open>auto simp: buddy_inv_def\<close>)
qed

section \<open>The buddy allocator is a memory allocator\<close>

text \<open>
  \<open>buddy_live H M s L\<close>: the heap invariant, with the live blocks given by the pointers and
  layouts the clients hold. \<open>buddy_write\<close> is a client's store of a word.
\<close>

definition live_blocks :: "live_map \<Rightarrow> block set" where
  "live_blocks L = {b. \<exists>l. L (snd b) = Some l \<and> buddy_order l = Some (fst b)}"

definition buddy_live :: "nat set \<Rightarrow> nat \<Rightarrow> buddy \<Rightarrow> live_map \<Rightarrow> bool" where
  "buddy_live H M s L \<longleftrightarrow> buddy_inv H M s (live_blocks L) \<and>
     (\<forall>p l. L p = Some l \<longrightarrow> buddy_order l \<noteq> None)"

definition buddy_write :: "nat \<Rightarrow> nat \<Rightarrow> buddy \<Rightarrow> buddy" where
  "buddy_write a v s = s\<lparr>node_next := (node_next s)(a := v)\<rparr>"

lemma mem_live_blocks [simp]:
  "(k, p) \<in> live_blocks L \<longleftrightarrow> (\<exists>l. L p = Some l \<and> buddy_order l = Some k)"
  by (simp add: live_blocks_def)

lemma live_blocks_insert:
  "buddy_order l = Some k \<Longrightarrow> L p = None \<Longrightarrow> live_blocks (L(p \<mapsto> l)) = insert (k, p) (live_blocks L)"
  by (auto simp: live_blocks_def)

lemma live_blocks_remove:
  assumes "buddy_order l = Some k" and "L p = Some l"
  shows "live_blocks L = insert (k, p) (live_blocks (L(p := None)))"
  using assms by (auto simp: live_blocks_def)

lemma buddy_inv_block:
  assumes "buddy_inv H M s L" and "(k, p) \<in> L"
  shows "bytes_of (k, p) \<subseteq> H" and "0 < p" and "2 ^ min k M dvd p" and "k \<le> max_order s"
proof -
  obtain F where rng: "heap_range H" and o: "owned H (max_order s) M F L"
    using assms(1) by (rule buddy_invE)
  show "bytes_of (k, p) \<subseteq> H"
    using tilingD_subset [OF ownedD(2) [OF o], of "(k, p)"] assms(2) by simp
  show "0 < p" using owned_range(1) [OF o rng, of k p] assms(2) by simp
  show "2 ^ min k M dvd p" and "k \<le> max_order s"
    using ownedD(5,6) [OF o, of "(k, p)"] assms(2) by simp_all
qed

lemma buddy_inv_disjoint:
  assumes "buddy_inv H M s L" and "(k, p) \<in> L" and "(j, q) \<in> L" and "(k, p) \<noteq> (j, q)"
  shows "bytes_of (k, p) \<inter> bytes_of (j, q) = {}"
proof -
  obtain F where "owned H (max_order s) M F L" using assms(1) by (rule buddy_invE)
  then have "tiling H (free_blocks F \<union> L)" by (rule ownedD(2))
  with assms(2-4) show ?thesis unfolding tiling_def by (meson UnI2)
qed

lemma footprint_bytes: "buddy_order l = Some k \<Longrightarrow> footprint p l \<subseteq> bytes_of (k, p)"
  using buddy_orderD(3) [of l k] by (auto simp: footprint_def)

lemma heap_write:
  assumes "heap_state H M s F L" and "(k, p) \<in> L" and "a \<in> bytes_of (k, p)"
  shows "heap_state H M (buddy_write a v s) F L"
proof -
  note h = heap_stateD [OF assms(1)]
  have "repr (buddy_write a v s) F"
    using h(5) owned_inside [OF h(6) assms(2,3)] by (simp add: repr_def buddy_write_def)
  then show ?thesis
    by (intro heap_stateI [OF h(1) _ h(2,3,4) _ h(6)]) (simp_all add: buddy_write_def same_heap_def)
qed

lemma buddy_write_inv:
  "buddy_inv H M s L \<Longrightarrow> (k, p) \<in> L \<Longrightarrow> a \<in> bytes_of (k, p) \<Longrightarrow> buddy_inv H M (buddy_write a v s) L"
  unfolding buddy_inv_def by (blast intro: heap_write)

lemma buddy_live_alloc:
  assumes "buddy_live H M s L"
  shows "\<exists>p s'. buddy_alloc l s = Done (p, s') \<and>
    (if p = 0 then buddy_live H M s' L else L p = None \<and> buddy_live H M s' (L(p \<mapsto> l)))"
proof (cases "buddy_order l")
  case None
  then show ?thesis
    using assms by (simp add: buddy_alloc_def buddy_order_def)
next
  case (Some k)
  have inv: "buddy_inv H M s (live_blocks L)" using assms by (simp add: buddy_live_def)
  obtain p s' where p: "buddy_alloc l s = Done (p, s')"
    "p = 0 \<Longrightarrow> buddy_inv H M s' (live_blocks L)"
    "p \<noteq> 0 \<Longrightarrow> (k, p) \<notin> live_blocks L \<and> buddy_inv H M s' (insert (k, p) (live_blocks L))"
    using buddy_alloc_spec [OF inv Some] by blast
  have "L p = None" if "p \<noteq> 0"
  proof (rule ccontr)
    assume "L p \<noteq> None"
    then obtain l' j where j: "L p = Some l'" "buddy_order l' = Some j"
      using assms by (fastforce simp: buddy_live_def)
    then have "(j, p) \<in> live_blocks L" by simp
    moreover have "(k, p) \<notin> live_blocks L" using p(3) that by simp
    ultimately have "bytes_of (k, p) \<inter> bytes_of (j, p) = {}"
      using buddy_inv_disjoint [of H M s' "insert (k, p) (live_blocks L)" k p j p] p(3) that by auto
    then show False using start_in_bytes [of p k] start_in_bytes [of p j] by blast
  qed
  then show ?thesis
    using p assms Some live_blocks_insert [of l k L p]
    by (auto simp: buddy_live_def)
qed

lemma buddy_live_dealloc:
  assumes "buddy_live H M s L" and p: "L p = Some l"
  shows "\<exists>s'. buddy_dealloc p l s = Done s' \<and> buddy_live H M s' (L(p := None))"
proof -
  obtain k where k: "buddy_order l = Some k"
    using assms by (fastforce simp: buddy_live_def)
  have "buddy_inv H M s (insert (k, p) (live_blocks (L(p := None))))"
    using assms(1) live_blocks_remove [of l k L p, OF k p] by (simp add: buddy_live_def)
  then obtain s' where "buddy_dealloc p l s = Done s'" "buddy_inv H M s' (live_blocks (L(p := None)))"
    by (rule buddy_dealloc_spec [OF _ _ k]) auto
  then show ?thesis using assms(1) by (auto simp: buddy_live_def)
qed

lemma buddy_live_write:
  assumes "buddy_live H M s L" and p: "L p = Some l" and a: "a \<in> footprint p l"
  shows "buddy_live H M (buddy_write a v s) L"
proof -
  obtain k where k: "buddy_order l = Some k"
    using assms by (fastforce simp: buddy_live_def)
  then have kp: "(k, p) \<in> live_blocks L" using p by simp
  have "a \<in> bytes_of (k, p)" using footprint_bytes [OF k, of p] a by blast
  then have "buddy_inv H M (buddy_write a v s) (live_blocks L)"
    using assms(1) buddy_write_inv [OF _ kp] by (simp add: buddy_live_def)
  then show ?thesis using assms(1) by (simp add: buddy_live_def)
qed

lemma buddy_live_disjoint:
  assumes "buddy_live H M s L" and "L p = Some l" and "L q = Some l'" and "p \<noteq> q"
  shows "footprint p l \<inter> footprint q l' = {}"
proof -
  obtain k j where k: "buddy_order l = Some k" "buddy_order l' = Some j"
    using assms by (fastforce simp: buddy_live_def)
  then have "bytes_of (k, p) \<inter> bytes_of (j, q) = {}"
    using assms buddy_inv_disjoint [of H M s "live_blocks L" k p j q] by (simp add: buddy_live_def)
  then show ?thesis using footprint_bytes [OF k(1), of p] footprint_bytes [OF k(2), of q] by blast
qed

lemma buddy_live_inside:
  assumes "buddy_live H M s L" and "L p = Some l"
  shows "footprint p l \<subseteq> H"
proof -
  obtain k where k: "buddy_order l = Some k"
    using assms by (fastforce simp: buddy_live_def)
  then show ?thesis
    using assms footprint_bytes [OF k, of p] buddy_inv_block(1) [of H M s "live_blocks L" k p]
    by (auto simp: buddy_live_def)
qed

lemma buddy_live_aligned:
  assumes "buddy_live H M s L" and "L p = Some l" and "power_of_two (lalign l)" and "lalign l \<le> 2 ^ M"
  shows "p mod lalign l = 0"
proof -
  obtain k where k: "buddy_order l = Some k"
    using assms by (fastforce simp: buddy_live_def)
  obtain j where j: "lalign l = 2 ^ j" using assms(3) by (auto simp: power_of_two_iff)
  have "j \<le> k" using buddy_orderD(4) [OF k] j by simp
  moreover have "j \<le> M" using assms(4) j by simp
  ultimately have "(2::nat) ^ j dvd 2 ^ min k M" by (simp add: le_imp_power_dvd)
  also have "2 ^ min k M dvd p"
    using assms(1,2) k buddy_inv_block(3) [of H M s "live_blocks L" k p] by (auto simp: buddy_live_def)
  finally show ?thesis using j by (simp add: dvd_eq_mod_eq_0)
qed

lemma buddy_live_null:
  assumes "buddy_live H M s L"
  shows "L 0 = None"
proof (rule ccontr)
  assume "L 0 \<noteq> None"
  then obtain l k where "L 0 = Some l" "buddy_order l = Some k"
    using assms by (fastforce simp: buddy_live_def)
  then have "(k, 0) \<in> live_blocks L" by simp
  then show False
    using assms buddy_inv_block(2) [of H M s "live_blocks L" k 0] by (simp add: buddy_live_def)
qed

interpretation buddy_heap: memory_allocator buddy_alloc buddy_dealloc buddy_write "\<lambda>_. True"
  "buddy_live H M" for H M
proof (unfold_locales, goal_cases)
  case (1 s L l)
  then show ?case using buddy_live_alloc by blast
next
  case (2 s L l s')
  then show ?case using buddy_live_alloc [of H M s L l] by auto
next
  case (3 s L l p s')
  then show ?case using buddy_live_alloc [of H M s L l] by auto
next
  case (4 s L p l)
  then show ?case by (rule buddy_live_dealloc)
next
  case (5 s L p l a v)
  then show ?case by (rule buddy_live_write)
next
  case (6 s L p l q l')
  then show ?case by (rule buddy_live_disjoint)
next
  case (7 s L)
  then show ?case by (rule buddy_live_null)
qed

end
