(* ===== verification/Kernel_Heap.thy ===== *)
theory Kernel_Heap
  imports Buddy_Correct
begin

text \<open>
  The kernel heap of \<open>src/kmem/heap.rs\<close>: its address range, \<open>init_heap\<close> and the global
  allocator. The page-table mapper and the page arithmetic of the \<open>x86_64\<close> crate and the frame
  allocator passed to \<open>init_heap\<close> are parameters: \<open>page_at a\<close> is
  \<open>Page::containing_address(VirtAddr::new(a))\<close>, \<open>page_range\<close> is \<open>Page::range_inclusive\<close>,
  \<open>map_to\<close> is \<open>Mapper::map_to\<close> (it may itself take frames from the allocator) and
  \<open>next_frame\<close> is \<open>FrameAllocator::allocate_frame\<close>.
\<close>

abbreviation HEAP_START :: nat where
  "HEAP_START \<equiv> 0x444444440000"

abbreviation HEAP_SIZE :: nat where
  "HEAP_SIZE \<equiv> 104857600"

definition kernel_heap :: "nat set" where
  "kernel_heap = {HEAP_START ..< HEAP_START + HEAP_SIZE}"

datatype page_flag = PRESENT | WRITABLE

datatype 'e map_error = FrameAllocationFailed | MapFailed 'e

fun map_heap_pages ::
    "('fa \<Rightarrow> ('frame option \<times> 'fa) outcome) \<Rightarrow>
     ('page \<Rightarrow> 'frame \<Rightarrow> page_flag set \<Rightarrow> 'fa \<Rightarrow> 'mp \<Rightarrow> (('e + unit) \<times> 'fa \<times> 'mp) outcome) \<Rightarrow>
     'page list \<Rightarrow> 'fa \<Rightarrow> 'mp \<Rightarrow> (('e map_error + unit) \<times> 'fa \<times> 'mp) outcome" where
  "map_heap_pages next_frame map_to [] fa mp = Done (Inr (), fa, mp)"
| "map_heap_pages next_frame map_to (page # pages) fa mp =
     andthen (next_frame fa) (\<lambda>(frame, fa1).
       case frame of
         None \<Rightarrow> Done (Inl FrameAllocationFailed, fa1, mp)
       | Some f \<Rightarrow>
           andthen (map_to page f {PRESENT, WRITABLE} fa1 mp) (\<lambda>(r, fa2, mp2).
             case r of
               Inl e \<Rightarrow> Done (Inl (MapFailed e), fa2, mp2)
             | Inr _ \<Rightarrow> map_heap_pages next_frame map_to pages fa2 mp2))"

definition init_heap ::
    "(nat \<Rightarrow> 'page outcome) \<Rightarrow> ('page \<Rightarrow> 'page \<Rightarrow> 'page list) \<Rightarrow>
     ('fa \<Rightarrow> ('frame option \<times> 'fa) outcome) \<Rightarrow>
     ('page \<Rightarrow> 'frame \<Rightarrow> page_flag set \<Rightarrow> 'fa \<Rightarrow> 'mp \<Rightarrow> (('e + unit) \<times> 'fa \<times> 'mp) outcome) \<Rightarrow>
     'fa \<Rightarrow> 'mp \<Rightarrow> buddy \<Rightarrow> (('e map_error + unit) \<times> 'fa \<times> 'mp \<times> buddy) outcome" where
  "init_heap page_at page_range next_frame map_to fa mp heap =
     andthen (page_at HEAP_START) (\<lambda>first.
     andthen (page_at (HEAP_START + HEAP_SIZE - 1)) (\<lambda>last.
     andthen (map_heap_pages next_frame map_to (page_range first last) fa mp) (\<lambda>(r, fa', mp').
       case r of
         Inl e \<Rightarrow> Done (Inl e, fa', mp', heap)
       | Inr _ \<Rightarrow>
           andthen (buddy_init HEAP_START HEAP_SIZE heap) (\<lambda>heap'.
             Done (Inr (), fa', mp', heap')))))"

section \<open>The initialised heap\<close>

lemma kernel_heap_init:
  "\<exists>s'. buddy_init HEAP_START HEAP_SIZE s = Done s' \<and> heap_start s' = HEAP_START \<and>
     buddy_live kernel_heap 18 s' Map.empty"
proof -
  have "\<exists>s'. buddy_init HEAP_START HEAP_SIZE s = Done s' \<and> heap_start s' = HEAP_START \<and>
      heap_size s' = HEAP_SIZE \<and>
      buddy_inv {HEAP_START..<HEAP_START + HEAP_SIZE - HEAP_SIZE mod 64} 18 s' {}"
    by (rule buddy_init_inv) simp_all
  then show ?thesis by (auto simp: buddy_live_def kernel_heap_def live_blocks_def)
qed

text \<open>The heap as it is after boot, for evaluation: started over zeroed memory.\<close>

definition boot_heap :: "buddy outcome" where
  "boot_heap = buddy_init HEAP_START HEAP_SIZE (buddy_new (\<lambda>_. 0))"

lemmas heap_eval = boot_heap_def buddy_eval

abbreviation heap_run :: "buddy \<times> live_map \<Rightarrow> buddy \<times> live_map \<Rightarrow> bool" where
  "heap_run \<equiv> client_run buddy_alloc buddy_dealloc buddy_write (\<lambda>_. True)"

lemma heap_run_live:
  assumes "buddy_init HEAP_START HEAP_SIZE s0 = Done s" and "heap_run (s, Map.empty) (s', L)"
  shows "buddy_live kernel_heap 18 s' L"
  using kernel_heap_init [of s0] assms buddy_heap.run_invar [OF assms(2), of kernel_heap 18] by auto

lemma heap_run_once:
  assumes "buddy_alloc l s = Done (p, s')" and "p \<noteq> 0"
  shows "heap_run (s, L) (s', L(p \<mapsto> l))"
  by (rule client_run.step, rule client_run.stop, rule client_step.allocated) (use assms in auto)

text \<open>A first allocation of 100 bytes splits the 256 KiB block at the end of the heap.\<close>

abbreviation first_block :: nat where
  "first_block \<equiv> 75060098367488"

lemma boot_heap_alloc:
  obtains s s' where "buddy_init HEAP_START HEAP_SIZE (buddy_new (\<lambda>_. 0)) = Done s"
    and "buddy_alloc \<lparr>lsize = 100, lalign = 64\<rparr> s = Done (first_block, s')"
proof -
  have "andthen boot_heap (\<lambda>s. andthen (buddy_alloc \<lparr>lsize = 100, lalign = 64\<rparr> s) (\<lambda>(p, s').
      Done p)) = Done first_block"
    by (simp add: heap_eval cong: andthen_weak_cong)
  then show thesis using that by (auto simp: boot_heap_def andthen_Done_iff)
qed

section \<open>Properties of the kernel heap\<close>

text \<open>
  C1. Every client of the kernel heap that frees only blocks it got, with their layouts, and writes
  only inside its live blocks, runs safely for ever: in every state it reaches, \<open>alloc\<close> and
  \<open>dealloc\<close> of a live block return (no panic, no endless scan of a free list), live blocks lie
  inside the 100 MiB heap, and no two of them overlap.
\<close>

theorem kernel_heap_clients_safe:
  assumes "buddy_init HEAP_START HEAP_SIZE s0 = Done s"
    and "heap_run (s, Map.empty) (s', L)"
  shows "(\<forall>l. \<exists>p s2. buddy_alloc l s' = Done (p, s2)) \<and>
    (\<forall>p l. L p = Some l \<longrightarrow> (\<exists>s2. buddy_dealloc p l s' = Done s2) \<and> footprint p l \<subseteq> kernel_heap) \<and>
    (\<forall>p q l l'. L p = Some l \<and> L q = Some l' \<and> p \<noteq> q \<longrightarrow> footprint p l \<inter> footprint q l' = {})"
proof (intro conjI allI impI)
  note live = heap_run_live [OF assms]
  show "\<exists>p s2. buddy_alloc l s' = Done (p, s2)" for l
    by (rule buddy_heap.alloc_returns [OF live TrueI])
  show "\<exists>s2. buddy_dealloc p l s' = Done s2" if "L p = Some l" for p l
    using buddy_heap.dealloc_block [OF live that] by auto
  show "footprint p l \<subseteq> kernel_heap" if p: "L p = Some l" for p l
    using p by (rule buddy_live_inside [OF live])
  show "footprint p l \<inter> footprint q l' = {}" if "L p = Some l \<and> L q = Some l' \<and> p \<noteq> q" for p q l l'
    using buddy_live_disjoint [OF live, of p l q l'] that by (simp only: simp_thms)
qed

theorem kernel_heap_clients_safe_witness:
  "\<exists>s s' L. buddy_init HEAP_START HEAP_SIZE (buddy_new (\<lambda>_. 0)) = Done s \<and>
     heap_run (s, Map.empty) (s', L) \<and> L first_block = Some \<lparr>lsize = 100, lalign = 64\<rparr> \<and>
     (\<exists>s2. buddy_dealloc first_block \<lparr>lsize = 100, lalign = 64\<rparr> s' = Done s2)"
proof -
  obtain s s' where s: "buddy_init HEAP_START HEAP_SIZE (buddy_new (\<lambda>_. 0)) = Done s"
    and a: "buddy_alloc \<lparr>lsize = 100, lalign = 64\<rparr> s = Done (first_block, s')"
    by (rule boot_heap_alloc)
  from a have run: "heap_run (s, Map.empty) (s', [first_block \<mapsto> \<lparr>lsize = 100, lalign = 64\<rparr>])"
    by (rule heap_run_once) simp
  note safe = kernel_heap_clients_safe [OF s run, THEN conjunct2, THEN conjunct1]
  have freed: "\<exists>s2. buddy_dealloc first_block \<lparr>lsize = 100, lalign = 64\<rparr> s' = Done s2"
    using safe [THEN spec, THEN spec, of first_block "\<lparr>lsize = 100, lalign = 64\<rparr>"] by simp
  show ?thesis
    by (rule exI [of _ s], rule exI [of _ s'], rule exI, rule conjI [OF s conjI [OF run conjI]])
      (use freed in simp_all)
qed

text \<open>
  C16. Alignment of the kernel heap: for every layout whose alignment is a power of two up to 256 KiB
  (the alignment of \<open>HEAP_START\<close>), whatever the clients did before, the pointer \<open>alloc\<close> returns is
  a multiple of the alignment asked for.
\<close>

theorem kernel_heap_aligned:
  assumes "buddy_init HEAP_START HEAP_SIZE s0 = Done s"
    and "heap_run (s, Map.empty) (s', L)"
    and "power_of_two (lalign l)" and "lalign l \<le> 2 ^ 18"
    and "buddy_alloc l s' = Done (p, s2)"
  shows "p mod lalign l = 0"
proof (cases "p = 0")
  case False
  then have "heap_run (s, Map.empty) (s2, L(p \<mapsto> l))"
    using assms(2,5) by (auto intro: client_run.step client_step.allocated)
  then show ?thesis
    using buddy_live_aligned [OF heap_run_live [OF assms(1)] _ assms(3,4)] by simp
qed simp

theorem kernel_heap_aligned_witness:
  "\<exists>s s'. buddy_init HEAP_START HEAP_SIZE (buddy_new (\<lambda>_. 0)) = Done s \<and>
     power_of_two 64 \<and> buddy_alloc \<lparr>lsize = 100, lalign = 64\<rparr> s = Done (first_block, s') \<and>
     first_block mod 64 = 0"
proof -
  obtain s s' where s: "buddy_init HEAP_START HEAP_SIZE (buddy_new (\<lambda>_. 0)) = Done s"
    and a: "buddy_alloc \<lparr>lsize = 100, lalign = 64\<rparr> s = Done (first_block, s')"
    by (rule boot_heap_alloc)
  have "power_of_two 64" by (auto simp: power_of_two_iff intro: exI [of _ 6])
  with s a kernel_heap_aligned [OF s client_run.stop _ _ a] show ?thesis by simp
qed


section \<open>No byte is lost\<close>

lemma tiling_card:
  assumes "tiling H B" and "finite H"
  shows "finite B" and "(\<Sum>b\<in>B. 2 ^ fst b) = card H"
proof -
  have inj: "inj_on snd B"
  proof (rule inj_onI)
    fix b c assume "b \<in> B" "c \<in> B" "snd b = snd c"
    then show "b = c"
      using tilingD_disjoint [OF assms(1), of b c "snd b"] by (cases b, cases c) simp
  qed
  have "snd ` B \<subseteq> H"
  proof
    fix x assume "x \<in> snd ` B"
    then obtain k where "(k, x) \<in> B" by auto
    then show "x \<in> H" using tilingD_subset [OF assms(1)] start_in_bytes [of x k] by blast
  qed
  then show "finite B" using assms(2) inj by (meson finite_imageD finite_subset)
  have "card H = card (\<Union>b\<in>B. bytes_of b)" using assms(1) by (simp add: tiling_def)
  also have "\<dots> = (\<Sum>b\<in>B. card (bytes_of b))"
    by (rule card_UN_disjoint [OF \<open>finite B\<close>]) (use assms(1) in \<open>auto simp: bytes_of_def tiling_def\<close>)
  also have "\<dots> = (\<Sum>b\<in>B. 2 ^ fst b)" by (simp add: bytes_of_def)
  finally show "(\<Sum>b\<in>B. 2 ^ fst b) = card H" by simp
qed

lemma sum_free_blocks:
  assumes "\<And>k. distinct (F k)" and "\<And>k a. a \<in> set (F k) \<Longrightarrow> MIN_ORDER \<le> k \<and> k \<le> m"
  shows "(\<Sum>b\<in>free_blocks F. 2 ^ fst b) = (\<Sum>k = MIN_ORDER..m. 2 ^ k * length (F k))"
proof -
  have "free_blocks F = Sigma {MIN_ORDER..m} (\<lambda>k. set (F k))"
    using assms(2) by auto
  then have "(\<Sum>b\<in>free_blocks F. 2 ^ fst b) =
      (\<Sum>b\<in>Sigma {MIN_ORDER..m} (\<lambda>k. set (F k)). (case b of (k, a) \<Rightarrow> 2 ^ k))"
    by (intro sum.cong) auto
  also have "\<dots> = (\<Sum>k = MIN_ORDER..m. \<Sum>a \<in> set (F k). 2 ^ k)"
    by (subst sum.Sigma [symmetric]) simp_all
  also have "\<dots> = (\<Sum>k = MIN_ORDER..m. 2 ^ k * length (F k))"
    by (intro sum.cong) (simp_all add: distinct_card [OF assms(1)])
  finally show ?thesis .
qed

text \<open>What a live block takes from the heap: the block of its order.\<close>

definition taken :: "layout \<Rightarrow> nat" where
  "taken l = (case order_for_size (max (lsize l) (lalign l)) of None \<Rightarrow> 0 | Some k \<Rightarrow> 2 ^ k)"

lemma sum_live_blocks:
  assumes "\<And>p l. L p = Some l \<Longrightarrow> buddy_order l \<noteq> None"
  shows "(\<Sum>b\<in>live_blocks L. 2 ^ fst b) = (\<Sum>p\<in>dom L. taken (the (L p)))"
proof (rule sum.reindex_bij_witness [of _ "\<lambda>p. (the (buddy_order (the (L p))), p)" snd])
  fix p assume "p \<in> dom L"
  then show "(the (buddy_order (the (L p))), p) \<in> live_blocks L" using assms by force
qed (auto simp: live_blocks_def taken_def buddy_order_def [symmetric])

lemma kernel_heap_range: "finite kernel_heap" "card kernel_heap = HEAP_SIZE"
  by (simp_all add: kernel_heap_def)

text \<open>
  C8. The kernel heap never loses a byte: after any client history, the blocks on the free lists
  (read from memory, each list ending at the null pointer) and the blocks of the live allocations
  add up to the 100 MiB of the heap.
\<close>

theorem kernel_heap_accounting:
  assumes "buddy_init HEAP_START HEAP_SIZE s0 = Done s"
    and "heap_run (s, Map.empty) (s', L)"
  shows "\<exists>F. (\<forall>k \<in> {MIN_ORDER..max_order s'}.
        chain (node_next s') (free_lists s' ! (k - MIN_ORDER)) (F k)) \<and>
    (\<Sum>k = MIN_ORDER..max_order s'. 2 ^ k * length (F k)) + (\<Sum>p\<in>dom L. taken (the (L p)))
      = HEAP_SIZE"
proof -
  note live = heap_run_live [OF assms]
  then obtain F where r: "repr s' F" and o: "owned kernel_heap (max_order s') 18 F (live_blocks L)"
    by (auto simp: buddy_live_def buddy_inv_def heap_state_def)
  note card = tiling_card [OF ownedD(2) [OF o] kernel_heap_range(1)]
  have "HEAP_SIZE = (\<Sum>b\<in>free_blocks F. 2 ^ fst b) + (\<Sum>b\<in>live_blocks L. 2 ^ fst b)"
    using card sum.union_disjoint [OF _ _ ownedD(3) [OF o], of "\<lambda>b. 2 ^ fst b :: nat"]
    by (simp add: kernel_heap_range)
  also have "(\<Sum>b\<in>free_blocks F. 2 ^ fst b) =
      (\<Sum>k = MIN_ORDER..max_order s'. 2 ^ k * length (F k))"
    by (rule sum_free_blocks) (use o ownedD(1) owned_heap_order in blast)+
  also have "(\<Sum>b\<in>live_blocks L. 2 ^ fst b) = (\<Sum>p\<in>dom L. taken (the (L p)))"
    by (rule sum_live_blocks) (use live in \<open>auto simp: buddy_live_def\<close>)
  finally show ?thesis using reprD(4) [OF r] by fastforce
qed

theorem kernel_heap_accounting_witness:
  "\<exists>s F. buddy_init HEAP_START HEAP_SIZE (buddy_new (\<lambda>_. 0)) = Done s \<and>
     (\<Sum>k = MIN_ORDER..max_order s. 2 ^ k * length ((F :: flists) k)) = HEAP_SIZE"
proof -
  obtain s s' where s: "buddy_init HEAP_START HEAP_SIZE (buddy_new (\<lambda>_. 0)) = Done s"
    by (rule boot_heap_alloc)
  show ?thesis using kernel_heap_accounting [OF s client_run.stop] s by auto
qed

text \<open>
  The kernel heap refuses a request exactly when no block can serve it: \<open>alloc\<close> returns the
  null pointer if and only if the request is larger than the largest order, or every free list from
  the order of the request upwards is empty.
\<close>

theorem kernel_heap_null_iff:
  assumes "buddy_init HEAP_START HEAP_SIZE s0 = Done s"
    and "heap_run (s, Map.empty) (s', L)"
    and "buddy_alloc l s' = Done (p, s2)"
  shows "p = 0 \<longleftrightarrow> (case order_for_size (max (lsize l) (lalign l)) of
      None \<Rightarrow> True
    | Some k \<Rightarrow> \<forall>j. k \<le> j \<and> j \<le> max_order s' \<longrightarrow> free_lists s' ! (j - MIN_ORDER) = 0)"
proof (cases "buddy_order l")
  case None
  then show ?thesis using assms(3) by (simp add: buddy_alloc_def buddy_order_def split: if_splits)
next
  case (Some k)
  have "buddy_inv kernel_heap 18 s' (live_blocks L)"
    using heap_run_live [OF assms(1,2)] by (simp add: buddy_live_def)
  then show ?thesis
    by (rule buddy_alloc_spec [OF _ Some]) (use Some assms(3) in \<open>auto simp: buddy_order_def\<close>)
qed

theorem kernel_heap_null_iff_witness:
  "\<exists>s s'. buddy_init HEAP_START HEAP_SIZE (buddy_new (\<lambda>_. 0)) = Done s \<and>
     buddy_alloc \<lparr>lsize = 100, lalign = 64\<rparr> s = Done (first_block, s') \<and>
     \<not> (\<forall>j. 7 \<le> j \<and> j \<le> max_order s \<longrightarrow> free_lists s ! (j - MIN_ORDER) = 0)"
proof -
  obtain s s' where s: "buddy_init HEAP_START HEAP_SIZE (buddy_new (\<lambda>_. 0)) = Done s"
    and a: "buddy_alloc \<lparr>lsize = 100, lalign = 64\<rparr> s = Done (first_block, s')"
    by (rule boot_heap_alloc)
  have "order_for_size 100 = Some 7"
    by (simp add: order_for_size_def order_for_size_loop.simps block_size_def)
  then show ?thesis using s a kernel_heap_null_iff [OF s client_run.stop a] by simp
qed

text \<open>
  Order selection: \<open>order_for_size\<close> picks the smallest order between \<open>MIN_ORDER\<close> and
  \<open>MAX_ORDER\<close> whose block holds the request, and fails only above 1 GiB.
\<close>

theorem order_for_size_least:
  "order_for_size sz =
     (if sz \<le> 2 ^ MAX_ORDER then Some (LEAST k. MIN_ORDER \<le> k \<and> sz \<le> 2 ^ k) else None)"
proof (cases "order_for_size sz")
  case None
  then show ?thesis using order_for_size_spec [of sz] by simp
next
  case (Some k)
  then have k: "MIN_ORDER \<le> k" "k \<le> MAX_ORDER" "sz \<le> 2 ^ k" "k = MIN_ORDER \<or> 2 ^ (k - 1) < sz"
    using order_for_size_spec [of sz] by auto
  have "(2::nat) ^ k \<le> 2 ^ MAX_ORDER" using k(2) by (rule power_increasing) simp
  then have "sz \<le> 2 ^ MAX_ORDER" using k(3) by linarith
  moreover have "(LEAST k. MIN_ORDER \<le> k \<and> sz \<le> 2 ^ k) = k"
  proof (rule Least_equality)
    fix j assume j: "MIN_ORDER \<le> j \<and> sz \<le> 2 ^ j"
    show "k \<le> j"
    proof (rule ccontr)
      assume "\<not> k \<le> j"
      then have "j \<le> k - 1" and "k \<noteq> MIN_ORDER" using j by auto
      moreover have "(2::nat) ^ j \<le> 2 ^ (k - 1)" using \<open>j \<le> k - 1\<close> by (rule power_increasing) simp
      ultimately show False using k(4) j by linarith
    qed
  qed (use k in simp)
  ultimately show ?thesis using Some by simp
qed

end
