(* ===== verification/Frame_Alloc.thy ===== *)
theory Frame_Alloc
  imports Sill_Prelude
begin

text \<open>
  The physical frame allocator \<open>BootInfoFrameAllocator\<close> of \<open>src/kmem/frame.rs\<close>.

  The memory map is the list of the entries that Limine hands over; the tag that marks an entry
  as usable (\<open>MEMMAP_USABLE\<close>) belongs to the \<open>limine\<close> crate and is the argument \<open>usable\<close>.
  \<open>PhysFrame::containing_address (PhysAddr::new a)\<close> belongs to the \<open>x86_64\<close> crate and is the
  argument \<open>frame_at\<close>: it may panic. The specification of the allocator is a plain list, \<open>remaining\<close>:
  the frames that were not handed out yet, in the order of the memory map.
\<close>

record memmap_entry =
  entry_base :: nat
  entry_length :: nat
  entry_type :: nat

record frame_allocator =
  memory_map :: "memmap_entry list"
  current_region :: nat
  next_frame :: nat

definition FRAME_SIZE :: nat where
  "FRAME_SIZE = 4096"

definition frame_new :: "memmap_entry list \<Rightarrow> frame_allocator" where
  "frame_new m = \<lparr>memory_map = m, current_region = 0, next_frame = 0\<rparr>"

definition align_up :: "nat \<Rightarrow> nat \<Rightarrow> nat outcome" where
  "align_up v a = andthen (uadd v a) (\<lambda>x. andthen (usub x 1) (\<lambda>y. Done (align_mask y a)))"

definition align_down :: "nat \<Rightarrow> nat \<Rightarrow> nat" where
  "align_down v a = align_mask v a"

primrec sum_lengths :: "nat \<Rightarrow> memmap_entry list \<Rightarrow> nat outcome" where
  "sum_lengths acc [] = Done acc"
| "sum_lengths acc (r # rs) = andthen (uadd acc (entry_length r)) (\<lambda>acc'. sum_lengths acc' rs)"

definition usable_memory :: "nat \<Rightarrow> frame_allocator \<Rightarrow> nat outcome" where
  "usable_memory usable s = sum_lengths 0 (filter (\<lambda>r. entry_type r = usable) (memory_map s))"

function next_usable_region :: "nat \<Rightarrow> frame_allocator \<Rightarrow> memmap_entry option \<times> frame_allocator" where
  "next_usable_region usable s =
     (if current_region s < length (memory_map s)
      then let region = memory_map s ! current_region s
           in if entry_type region = usable then (Some region, s)
              else next_usable_region usable
                     (s\<lparr>current_region := current_region s + 1, next_frame := 0\<rparr>)
      else (None, s))"
  by pat_completeness auto
termination
  by (relation "measure (\<lambda>(u, s). length (memory_map s) - current_region s)") auto

declare next_usable_region.simps [simp del]

lemma next_usable_region_props:
  "next_usable_region usable s = (r, s') \<Longrightarrow>
     memory_map s' = memory_map s \<and> current_region s \<le> current_region s' \<and>
     (r \<noteq> None \<longrightarrow> current_region s' < length (memory_map s'))"
proof (induction usable s arbitrary: r s' rule: next_usable_region.induct)
  case (1 usable s)
  from "1.prems" show ?case
    by (subst (asm) next_usable_region.simps)
      (auto simp: Let_def split: if_splits dest!: "1.IH")
qed

function allocate_frame ::
    "nat \<Rightarrow> (nat \<Rightarrow> nat outcome) \<Rightarrow> frame_allocator \<Rightarrow> (nat option \<times> frame_allocator) outcome" where
  "allocate_frame usable frame_at s =
     (case next_usable_region usable s of
        (None, s1) \<Rightarrow> Done (None, s1)
      | (Some region, s1) \<Rightarrow>
          andthen (align_up (entry_base region) FRAME_SIZE) (\<lambda>region_start.
          (case checked_add (entry_base region) (entry_length region) of
             None \<Rightarrow> Done (None, s1)
           | Some region_limit \<Rightarrow>
               (let region_end = align_down region_limit FRAME_SIZE;
                    nf = (if next_frame s1 = 0 then region_start else next_frame s1);
                    s2 = s1\<lparr>next_frame := nf\<rparr>
                in if nf < region_end
                   then andthen (frame_at nf) (\<lambda>frame.
                        andthen (uadd nf FRAME_SIZE) (\<lambda>nf'.
                        Done (Some frame, s2\<lparr>next_frame := nf'\<rparr>)))
                   else allocate_frame usable frame_at
                          (s1\<lparr>current_region := current_region s1 + 1, next_frame := 0\<rparr>)))))"
  by pat_completeness auto
termination
  by (relation "measure (\<lambda>(u, f, s). length (memory_map s) - current_region s)")
    (auto dest!: next_usable_region_props [OF sym])

declare allocate_frame.simps [simp del]

text \<open>\<open>n\<close> calls in a row, with everything they returned.\<close>

primrec allocate_frames ::
    "nat \<Rightarrow> (nat \<Rightarrow> nat outcome) \<Rightarrow> nat \<Rightarrow> frame_allocator \<Rightarrow>
     (nat option list \<times> frame_allocator) outcome" where
  "allocate_frames usable frame_at 0 s = Done ([], s)"
| "allocate_frames usable frame_at (Suc n) s =
     andthen (allocate_frame usable frame_at s) (\<lambda>(f, s1).
     andthen (allocate_frames usable frame_at n s1) (\<lambda>(fs, s2). Done (f # fs, s2)))"

section \<open>The frames of a memory map\<close>

definition first_frame :: "memmap_entry \<Rightarrow> nat" where
  "first_frame r = (entry_base r + 4095) div 4096 * 4096"

definition end_frame :: "memmap_entry \<Rightarrow> nat" where
  "end_frame r = (entry_base r + entry_length r) div 4096 * 4096"

definition frames_between :: "nat \<Rightarrow> nat \<Rightarrow> nat list" where
  "frames_between a b = map (\<lambda>i. 4096 * i) [a div 4096 ..< b div 4096]"

definition region_frames :: "memmap_entry \<Rightarrow> nat list" where
  "region_frames r = frames_between (first_frame r) (end_frame r)"

definition map_frames :: "nat \<Rightarrow> memmap_entry list \<Rightarrow> nat list" where
  "map_frames usable m = concat (map region_frames (filter (\<lambda>r. entry_type r = usable) m))"

definition remaining :: "nat \<Rightarrow> frame_allocator \<Rightarrow> nat list" where
  "remaining usable s =
     (if current_region s < length (memory_map s)
      then (let r = memory_map s ! current_region s
            in (if entry_type r = usable
                then frames_between
                       (if next_frame s = 0 then first_frame r else next_frame s) (end_frame r)
                else [])) @
           map_frames usable (drop (current_region s + 1) (memory_map s))
      else [])"

text \<open>Entries whose address range fits the 64-bit address space.\<close>

definition entry_fits :: "memmap_entry \<Rightarrow> bool" where
  "entry_fits r \<longleftrightarrow> entry_base r + entry_length r < usize_lim \<and> entry_base r + 4096 < usize_lim"

definition map_fits :: "nat \<Rightarrow> memmap_entry list \<Rightarrow> bool" where
  "map_fits usable m \<longleftrightarrow> (\<forall>r \<in> set m. entry_type r = usable \<longrightarrow> entry_fits r)"

text \<open>The frame constructor of the \<open>x86_64\<close> crate accepts every frame of the map.\<close>

definition frames_valid :: "(nat \<Rightarrow> nat outcome) \<Rightarrow> nat \<Rightarrow> memmap_entry list \<Rightarrow> bool" where
  "frames_valid frame_at usable m \<longleftrightarrow> (\<forall>a \<in> set (map_frames usable m). frame_at a = Done a)"

section \<open>Alignment\<close>

lemma align_up_frame: "v + 4096 < usize_lim \<Longrightarrow> align_up v FRAME_SIZE = Done ((v + 4095) div 4096 * 4096)"
  using align_mask_eq [of "v + 4095" 12] by (simp add: align_up_def FRAME_SIZE_def add.commute)

lemma align_down_frame: "v < usize_lim \<Longrightarrow> align_down v FRAME_SIZE = v div 4096 * 4096"
  using align_mask_eq [of v 12] by (simp add: align_down_def FRAME_SIZE_def)

lemma end_frame_lim: "entry_fits r \<Longrightarrow> end_frame r < usize_lim"
  by (simp add: entry_fits_def end_frame_def le_less_trans [OF div_times_less_eq_dividend])

lemma end_frame_le: "end_frame r \<le> entry_base r + entry_length r"
  by (simp add: end_frame_def)

lemma first_frame_ge: "entry_base r \<le> first_frame r"
proof -
  have "(entry_base r + 4095) mod 4096 < 4096" by simp
  moreover have "(entry_base r + 4095) div 4096 * 4096 + (entry_base r + 4095) mod 4096 = entry_base r + 4095"
    by (rule div_mult_mod_eq)
  ultimately show ?thesis unfolding first_frame_def by linarith
qed

lemma frames_between_Cons:
  assumes "4096 dvd a" and "4096 dvd b" and "a < b"
  shows "frames_between a b = a # frames_between (a + 4096) b"
proof -
  obtain i j where "a = 4096 * i" and "b = 4096 * j" using assms(1,2) by (auto simp: dvd_def)
  moreover have "(4096 + 4096 * i) div 4096 = Suc i" by simp
  ultimately show ?thesis
    using assms(3) by (simp add: frames_between_def upt_conv_Cons)
qed

lemma frames_between_Nil: "b \<le> a \<Longrightarrow> frames_between a b = []"
  by (simp add: frames_between_def div_le_mono)

lemma set_frames_between:
  assumes "4096 dvd a" and "4096 dvd b"
  shows "set (frames_between a b) = {f. 4096 dvd f \<and> a \<le> f \<and> f < b}"
proof -
  obtain i j where "a = 4096 * i" and "b = 4096 * j" using assms by (auto simp: dvd_def)
  then show ?thesis by (auto simp: frames_between_def dvd_def image_def Bex_def)
qed

lemma set_region_frames:
  "set (region_frames r) = {f. 4096 dvd f \<and> first_frame r \<le> f \<and> f < end_frame r}"
  by (simp add: region_frames_def set_frames_between first_frame_def end_frame_def)

lemma region_frames_inside:
  assumes "f \<in> set (region_frames r)"
  shows "4096 dvd f" and "entry_base r \<le> f" and "f + 4096 \<le> entry_base r + entry_length r"
proof -
  from assms have f: "4096 dvd f" "first_frame r \<le> f" "f < end_frame r"
    by (auto simp: set_region_frames)
  then show "4096 dvd f" and "entry_base r \<le> f"
    using first_frame_ge [of r] by auto
  obtain i where i: "f = 4096 * i" using f(1) by (auto simp: dvd_def)
  with f(3) have "i < (entry_base r + entry_length r) div 4096" by (simp add: end_frame_def)
  then have "4096 * (i + 1) \<le> 4096 * ((entry_base r + entry_length r) div 4096)" by (intro mult_le_mono2) simp
  also have "\<dots> \<le> entry_base r + entry_length r" by simp
  finally show "f + 4096 \<le> entry_base r + entry_length r" using i by simp
qed

section \<open>Refinement of the specification\<close>

lemma remaining_new: "remaining usable (frame_new m) = map_frames usable m"
  by (cases m) (simp_all add: remaining_def frame_new_def map_frames_def region_frames_def)

definition frame_inv :: "nat \<Rightarrow> frame_allocator \<Rightarrow> bool" where
  "frame_inv usable s \<longleftrightarrow> map_fits usable (memory_map s) \<and> 4096 dvd next_frame s"

lemma remaining_skip:
  assumes "current_region s < length (memory_map s)"
  shows "remaining usable (s\<lparr>current_region := current_region s + 1, next_frame := 0\<rparr>) =
    map_frames usable (drop (current_region s + 1) (memory_map s))"
proof (cases "current_region s + 1 < length (memory_map s)")
  case True
  then show ?thesis
    by (simp add: remaining_def map_frames_def region_frames_def Let_def
        Cons_nth_drop_Suc [OF True [simplified], symmetric])
next
  case False
  then show ?thesis by (simp add: remaining_def map_frames_def)
qed

lemma next_usable_region_spec:
  assumes "next_usable_region usable s = (r, s')" and "frame_inv usable s"
  shows "remaining usable s' = remaining usable s \<and> frame_inv usable s' \<and>
    (case r of None \<Rightarrow> remaining usable s = [] \<and> length (memory_map s) \<le> current_region s'
     | Some e \<Rightarrow> current_region s' < length (memory_map s') \<and> e = memory_map s' ! current_region s' \<and>
         entry_type e = usable)"
  using assms
proof (induction usable s arbitrary: r s' rule: next_usable_region.induct)
  case (1 usable s)
  show ?case
  proof (cases "current_region s < length (memory_map s) \<and>
      entry_type (memory_map s ! current_region s) \<noteq> usable")
    case True
    let ?s = "s\<lparr>current_region := current_region s + 1, next_frame := 0\<rparr>"
    have "next_usable_region usable ?s = (r, s')"
      using "1.prems"(1) True by (subst (asm) next_usable_region.simps) (simp add: Let_def)
    moreover have "frame_inv usable ?s" using "1.prems"(2) by (simp add: frame_inv_def)
    moreover have "remaining usable s = remaining usable ?s"
      using True remaining_skip [of s usable] by (simp add: remaining_def [of usable s] Let_def)
    ultimately show ?thesis
      using "1.IH" [OF _ refl, of r s'] True by (auto split: option.splits)
  next
    case False
    then show ?thesis using "1.prems"
      by (subst (asm) next_usable_region.simps)
        (auto simp: Let_def remaining_def split: if_splits)
  qed
qed

lemma allocate_frame_refines:
  assumes "frame_inv usable s" and "frames_valid frame_at usable (memory_map s)"
    and "set (remaining usable s) \<subseteq> set (map_frames usable (memory_map s))"
  shows "\<exists>s'. memory_map s' = memory_map s \<and> frame_inv usable s' \<and>
    (case remaining usable s of
       [] \<Rightarrow> allocate_frame usable frame_at s = Done (None, s') \<and> remaining usable s' = []
     | f # fs \<Rightarrow> allocate_frame usable frame_at s = Done (Some f, s') \<and> remaining usable s' = fs)"
  using assms
proof (induction usable frame_at s rule: allocate_frame.induct)
  case (1 usable frame_at s)
  obtain r s1 where n: "next_usable_region usable s = (r, s1)" by fastforce
  note spec = next_usable_region_spec [OF n "1.prems"(1)]
  have mm: "memory_map s1 = memory_map s" using next_usable_region_props [OF n] by simp
  show ?case
  proof (cases r)
    case None
    then show ?thesis using n spec mm
      by (subst allocate_frame.simps) auto
  next
    case (Some e)
    define nf where "nf = (if next_frame s1 = 0 then first_frame e else next_frame s1)"
    have e: "current_region s1 < length (memory_map s1)" "e = memory_map s1 ! current_region s1"
      "entry_type e = usable" and inv1: "frame_inv usable s1" using spec Some by auto
    then have fits: "entry_fits e" using nth_mem by (auto simp: frame_inv_def map_fits_def)
    have dvd: "4096 dvd nf" using inv1 by (simp add: nf_def frame_inv_def first_frame_def)
    have "remaining usable s1 = frames_between nf (end_frame e) @
        map_frames usable (drop (current_region s1 + 1) (memory_map s1))"
      using e by (simp add: remaining_def nf_def Let_def)
    then have rem: "remaining usable s = frames_between nf (end_frame e) @
        map_frames usable (drop (current_region s1 + 1) (memory_map s1))"
      using spec by simp
    have au: "align_up (entry_base e) FRAME_SIZE = Done (first_frame e)"
      using fits by (simp add: align_up_frame entry_fits_def first_frame_def)
    have ca: "checked_add (entry_base e) (entry_length e) = Some (entry_base e + entry_length e)"
      using fits by (simp add: entry_fits_def)
    have ad: "align_down (entry_base e + entry_length e) FRAME_SIZE = end_frame e"
      using fits by (simp add: align_down_frame entry_fits_def end_frame_def)
    show ?thesis
    proof (cases "nf < end_frame e")
      case True
      have fb: "frames_between nf (end_frame e) = nf # frames_between (nf + 4096) (end_frame e)"
        by (rule frames_between_Cons [OF dvd _ True]) (simp add: end_frame_def)
      have "nf + 4096 \<le> end_frame e"
        using True dvd by (auto simp: end_frame_def dvd_def)
      then have lim: "nf + 4096 < usize_lim" using end_frame_lim [OF fits] by linarith
      have "nf \<in> set (map_frames usable (memory_map s))" using "1.prems"(3) rem fb by auto
      then have "frame_at nf = Done nf" using "1.prems"(2) by (simp add: frames_valid_def)
      then have "allocate_frame usable frame_at s = Done (Some nf, s1\<lparr>next_frame := nf + 4096\<rparr>)"
        using n Some au ca ad True lim
        by (subst allocate_frame.simps) (simp add: nf_def FRAME_SIZE_def Let_def)
      moreover have "remaining usable (s1\<lparr>next_frame := nf + 4096\<rparr>) =
          frames_between (nf + 4096) (end_frame e) @
          map_frames usable (drop (current_region s1 + 1) (memory_map s1))"
        using e by (simp add: remaining_def Let_def)
      moreover have "frame_inv usable (s1\<lparr>next_frame := nf + 4096\<rparr>)"
        using inv1 dvd by (simp add: frame_inv_def)
      ultimately show ?thesis using rem fb mm by auto
    next
      case False
      let ?s = "s1\<lparr>current_region := current_region s1 + 1, next_frame := 0\<rparr>"
      have step: "allocate_frame usable frame_at s = allocate_frame usable frame_at ?s"
        using n Some au ca ad False
        by (subst allocate_frame.simps) (simp add: nf_def)
      have rem': "remaining usable ?s = remaining usable s"
        using rem False remaining_skip [OF e(1)] by (simp add: frames_between_Nil)
      have inv': "frame_inv usable ?s" using inv1 by (simp add: frame_inv_def)
      have mm': "memory_map ?s = memory_map s" using mm by simp
      have not: "\<not> (if next_frame s1 = 0 then first_frame e else next_frame s1) < end_frame e"
        using False by (simp add: nf_def)
      have "\<exists>s'. memory_map s' = memory_map ?s \<and> frame_inv usable s' \<and>
         (case remaining usable ?s of
            [] \<Rightarrow> allocate_frame usable frame_at ?s = Done (None, s') \<and> remaining usable s' = []
          | f # fs \<Rightarrow> allocate_frame usable frame_at ?s = Done (Some f, s') \<and> remaining usable s' = fs)"
        by (rule "1.IH" [OF n [symmetric] Some au ca ad [symmetric] refl refl not inv'])
          (use "1.prems"(2,3) rem' mm in simp_all)
      then show ?thesis by (simp only: step rem' mm')
    qed
  qed
qed

lemma allocate_frames_refines:
  assumes "frame_inv usable s" and "frames_valid frame_at usable (memory_map s)"
    and "set (remaining usable s) \<subseteq> set (map_frames usable (memory_map s))"
  shows "\<exists>s'. allocate_frames usable frame_at n s =
      Done (map Some (take n (remaining usable s)) @
            replicate (n - length (remaining usable s)) None, s') \<and>
    frame_inv usable s' \<and> memory_map s' = memory_map s \<and>
    remaining usable s' = drop n (remaining usable s)"
  using assms
proof (induction n arbitrary: s)
  case (Suc n)
  obtain s1 where s1: "memory_map s1 = memory_map s" "frame_inv usable s1"
    and step: "case remaining usable s of
       [] \<Rightarrow> allocate_frame usable frame_at s = Done (None, s1) \<and> remaining usable s1 = []
     | f # fs \<Rightarrow> allocate_frame usable frame_at s = Done (Some f, s1) \<and> remaining usable s1 = fs"
    using allocate_frame_refines [OF Suc.prems] by blast
  have sub: "set (remaining usable s1) \<subseteq> set (map_frames usable (memory_map s1))"
    using step Suc.prems(3) s1(1) by (cases "remaining usable s") auto
  obtain s2 where "allocate_frames usable frame_at n s1 =
      Done (map Some (take n (remaining usable s1)) @
            replicate (n - length (remaining usable s1)) None, s2)"
    "frame_inv usable s2" "memory_map s2 = memory_map s1"
    "remaining usable s2 = drop n (remaining usable s1)"
    using Suc.IH [OF s1(2) _ sub] Suc.prems(2) s1(1) by auto
  then show ?case using step s1 by (cases "remaining usable s") auto
qed simp

lemma frames_from_new:
  assumes "map_fits usable m" and "frames_valid frame_at usable m"
  shows "\<exists>s. allocate_frames usable frame_at n (frame_new m) =
    Done (map Some (take n (map_frames usable m)) @
          replicate (n - length (map_frames usable m)) None, s)"
proof -
  have "frame_inv usable (frame_new m)" using assms(1) by (simp add: frame_inv_def frame_new_def)
  moreover have "memory_map (frame_new m) = m" by (simp add: frame_new_def)
  ultimately show ?thesis
    using allocate_frames_refines [of usable "frame_new m" frame_at n] assms(2)
    by (auto simp: remaining_new)
qed

section \<open>Properties\<close>

text \<open>
  C9. The frame allocator hands out exactly the whole frames of the usable regions, in map order,
  each once, and then reports exhaustion for ever.
\<close>

theorem frames_in_order:
  assumes "map_fits usable m" and "frames_valid frame_at usable m"
  shows "\<exists>s. allocate_frames usable frame_at n (frame_new m) =
    Done (map Some (take n (map_frames usable m)) @
          replicate (n - length (map_frames usable m)) None, s)"
  by (rule frames_from_new [OF assms])

definition sample_map :: "memmap_entry list" where
  "sample_map = [\<lparr>entry_base = 100, entry_length = 9000, entry_type = 0\<rparr>, \<lparr>entry_base = 12288, entry_length = 4096, entry_type = 1\<rparr>,
     \<lparr>entry_base = 16384, entry_length = 8192, entry_type = 0\<rparr>]"

lemma sample_frames: "map_frames 0 sample_map = [4096, 16384, 20480]"
  by (simp add: map_frames_def sample_map_def region_frames_def frames_between_def
      first_frame_def end_frame_def upt_rec)

lemma sample_fits: "map_fits 0 sample_map"
  by (simp add: map_fits_def sample_map_def entry_fits_def)

lemma replicate_numeral_2: "replicate 2 x = [x, x]"
  by (simp add: numeral_2_eq_2)

theorem frames_in_order_witness:
  "\<exists>s. allocate_frames 0 (\<lambda>a. if a < 2 ^ 52 then Done a else Panic (Explicit ''PhysAddr''))
     5 (frame_new sample_map) = Done ([Some 4096, Some 16384, Some 20480, None, None], s)"
  using frames_in_order [OF sample_fits,
      of "\<lambda>a. if a < 2 ^ 52 then Done a else Panic (Explicit ''PhysAddr'')" 5]
  by (simp add: frames_valid_def sample_frames replicate_numeral_2)

definition regions_disjoint :: "nat \<Rightarrow> memmap_entry list \<Rightarrow> bool" where
  "regions_disjoint usable m \<longleftrightarrow>
     (\<forall>i < length m. \<forall>j < i. entry_type (m ! i) = usable \<longrightarrow> entry_type (m ! j) = usable \<longrightarrow>
        entry_base (m ! i) + entry_length (m ! i) \<le> entry_base (m ! j) \<or>
        entry_base (m ! j) + entry_length (m ! j) \<le> entry_base (m ! i))"

lemma distinct_region_frames: "distinct (region_frames r)"
  by (simp add: region_frames_def frames_between_def distinct_map inj_on_def)

lemma map_frames_Cons:
  "map_frames usable (r # m) =
     (if entry_type r = usable then region_frames r else []) @ map_frames usable m"
  by (simp add: map_frames_def)

lemma map_frames_region:
  "f \<in> set (map_frames usable m) \<Longrightarrow>
     \<exists>r \<in> set m. entry_type r = usable \<and> f \<in> set (region_frames r)"
  by (auto simp: map_frames_def)

lemma distinct_map_frames: "regions_disjoint usable m \<Longrightarrow> distinct (map_frames usable m)"
proof (induction m)
  case Nil
  then show ?case by (simp add: map_frames_def)
next
  case (Cons r m)
  have "regions_disjoint usable m"
    unfolding regions_disjoint_def
  proof (intro allI impI)
    fix i j
    assume "i < length m" "j < i" "entry_type (m ! i) = usable" "entry_type (m ! j) = usable"
    then show "entry_base (m ! i) + entry_length (m ! i) \<le> entry_base (m ! j) \<or>
        entry_base (m ! j) + entry_length (m ! j) \<le> entry_base (m ! i)"
      using Cons.prems [unfolded regions_disjoint_def, rule_format, of "Suc i" "Suc j"] by simp
  qed
  then have "distinct (map_frames usable m)" by (rule Cons.IH)
  moreover have "set (region_frames r) \<inter> set (map_frames usable m) = {}"
    if r: "entry_type r = usable"
  proof (rule ccontr)
    assume "set (region_frames r) \<inter> set (map_frames usable m) \<noteq> {}"
    then obtain f q where f: "f \<in> set (region_frames r)" "f \<in> set (region_frames q)"
      and q: "q \<in> set m" "entry_type q = usable" using map_frames_region by blast
    from q(1) obtain i where i: "i < length m" "q = m ! i" by (auto simp: in_set_conv_nth)
    have "entry_base q + entry_length q \<le> entry_base r \<or>
        entry_base r + entry_length r \<le> entry_base q"
      using Cons.prems [unfolded regions_disjoint_def, rule_format, of "Suc i" 0] i q r by simp
    then show False using region_frames_inside [OF f(1)] region_frames_inside [OF f(2)] by auto
  qed
  ultimately show ?case by (simp add: map_frames_Cons distinct_region_frames)
qed

text \<open>
  C18. Every frame handed out is 4 KiB aligned and lies wholly inside one usable region, and when
  the usable regions do not overlap no frame is handed out twice.
\<close>

theorem frames_usable:
  assumes "map_fits usable m" and "frames_valid frame_at usable m" and "regions_disjoint usable m"
    and "allocate_frames usable frame_at n (frame_new m) = Done (fs, s)"
  shows "(\<forall>f. Some f \<in> set fs \<longrightarrow> (\<exists>r \<in> set m. entry_type r = usable \<and> 4096 dvd f \<and>
            entry_base r \<le> f \<and> f + 4096 \<le> entry_base r + entry_length r))
    \<and> (\<forall>i j. i < j \<and> j < length fs \<and> fs ! j \<noteq> None \<longrightarrow> fs ! i \<noteq> fs ! j)"
proof -
  let ?k = "length (map_frames usable m)"
  have fs: "fs = map Some (take n (map_frames usable m)) @ replicate (n - ?k) None"
    using frames_from_new [OF assms(1,2), of n] assms(4) by auto
  have "\<exists>r \<in> set m. entry_type r = usable \<and> 4096 dvd f \<and>
      entry_base r \<le> f \<and> f + 4096 \<le> entry_base r + entry_length r" if "Some f \<in> set fs" for f
  proof -
    have "f \<in> set (map_frames usable m)" using that in_set_takeD by (force simp: fs)
    then show ?thesis using map_frames_region region_frames_inside by metis
  qed
  moreover have "fs ! i \<noteq> fs ! j" if ij: "i < j" "j < length fs" "fs ! j \<noteq> None" for i j
  proof -
    have "j < min ?k n" using ij by (auto simp: fs nth_append split: if_splits)
    then show ?thesis
      using ij distinct_map_frames [OF assms(3)] by (simp add: fs nth_append nth_eq_iff_index_eq)
  qed
  ultimately show ?thesis by blast
qed

theorem frames_usable_witness:
  "\<exists>fs s. allocate_frames 0 Done 5 (frame_new sample_map) = Done (fs, s) \<and>
     (\<forall>i j. i < j \<and> j < length fs \<and> fs ! j \<noteq> None \<longrightarrow> fs ! i \<noteq> fs ! j)"
proof -
  have v: "frames_valid Done 0 sample_map" by (simp add: frames_valid_def)
  have d: "regions_disjoint 0 sample_map"
    by (simp add: regions_disjoint_def sample_map_def less_Suc_eq all_conj_distrib)
  obtain fs s where r: "allocate_frames 0 Done 5 (frame_new sample_map) = Done (fs, s)"
    using frames_from_new [OF sample_fits v, of 5] by blast
  show ?thesis using frames_usable [OF sample_fits v d r] r by blast
qed

lemma sum_lengths_Done:
  "acc + sum_list (map entry_length rs) < usize_lim \<Longrightarrow>
     sum_lengths acc rs = Done (acc + sum_list (map entry_length rs))"
  by (induction rs arbitrary: acc) (simp_all add: add.assoc)

lemma sum_lengths_Panic:
  "acc < usize_lim \<Longrightarrow> usize_lim \<le> acc + sum_list (map entry_length rs) \<Longrightarrow>
     sum_lengths acc rs = Panic AddOverflow"
proof (induction rs arbitrary: acc)
  case (Cons r rs)
  then show ?case
    by (cases "acc + entry_length r < usize_lim") (simp_all add: uadd_def add.assoc)
qed simp

lemma length_region_frames: "4096 * length (region_frames r) \<le> entry_length r"
proof -
  let ?f = "first_frame r div 4096" and ?e = "(entry_base r + entry_length r) div 4096"
  have "4096 * length (region_frames r) = 4096 * ?e - 4096 * ?f"
    by (simp add: region_frames_def frames_between_def end_frame_def diff_mult_distrib2)
  also have "4096 * ?e \<le> entry_base r + entry_length r" by simp
  also have "4096 * ?f = first_frame r" by (simp add: first_frame_def)
  finally show ?thesis using first_frame_ge [of r] by linarith
qed

lemma length_map_frames:
  "4096 * length (map_frames usable m) \<le>
     sum_list (map entry_length (filter (\<lambda>r. entry_type r = usable) m))"
proof (induction m)
  case (Cons r m)
  then show ?case using length_region_frames [of r] by (auto simp: map_frames_Cons)
qed (simp add: map_frames_def)

text \<open>
  \<open>usable_memory\<close> is the total length of the usable entries, or an overflow panic when that
  total does not fit 64 bits; the frames the allocator can hand out never exceed it.
\<close>

theorem usable_memory_total:
  "usable_memory usable (frame_new m) =
     (let total = sum_list (map entry_length (filter (\<lambda>r. entry_type r = usable) m))
      in if total < usize_lim then Done total else Panic AddOverflow)
   \<and> 4096 * length (map_frames usable m) \<le>
       sum_list (map entry_length (filter (\<lambda>r. entry_type r = usable) m))"
  using sum_lengths_Done [of 0] sum_lengths_Panic [of 0] length_map_frames [of usable m]
  by (simp add: usable_memory_def frame_new_def Let_def)

lemma next_usable_region_here:
  "current_region s < length (memory_map s) \<Longrightarrow>
     entry_type (memory_map s ! current_region s) = usable \<Longrightarrow>
     next_usable_region usable s = (Some (memory_map s ! current_region s), s)"
  by (subst next_usable_region.simps) simp

text \<open>
  C36. A usable entry whose range leaves the 64-bit address space blocks the allocator: with a
  base in the last page every request panics, otherwise every request reports exhaustion and the
  allocator never moves on to the regions behind that entry.
\<close>

theorem overflowing_region_blocks:
  assumes "current_region s < length (memory_map s)"
    and "r = memory_map s ! current_region s" and "entry_type r = usable"
    and "usize_lim \<le> entry_base r + entry_length r"
  shows "allocate_frame usable frame_at s =
    (if usize_lim \<le> entry_base r + 4096 then Panic AddOverflow else Done (None, s))"
  using assms next_usable_region_here [OF assms(1), of usable] align_up_frame [of "entry_base r"]
  by (subst allocate_frame.simps) (simp add: align_up_def FRAME_SIZE_def uadd_def)

theorem overflowing_region_blocks_witness:
  "allocate_frame 0 Done (frame_new
      [\<lparr>entry_base = usize_lim - 8192, entry_length = 8192, entry_type = 0\<rparr>,
       \<lparr>entry_base = 0, entry_length = 8192, entry_type = 0\<rparr>]) =
   Done (None, frame_new
      [\<lparr>entry_base = usize_lim - 8192, entry_length = 8192, entry_type = 0\<rparr>,
       \<lparr>entry_base = 0, entry_length = 8192, entry_type = 0\<rparr>])"
  by (subst overflowing_region_blocks [OF _ refl]) (simp_all add: frame_new_def)

end
