(* ===== verification/Boot.thy ===== *)
theory Boot
  imports Kernel_Heap Frame_Alloc
begin

text \<open>
  \<open>init_heap\<close> of \<open>src/kmem/heap.rs\<close> run over the frame allocator of \<open>src/kmem/frame.rs\<close>, as
  \<open>kinit\<close> composes them. The page-table mapper stays a parameter; what is assumed of it is
  the documented behaviour of \<open>Mapper::map_to\<close> for 4 KiB pages: it takes at most three frames
  (the missing levels of the page table) from the allocator it is given, and it maps a page that
  is not mapped yet as long as those frames are there.
\<close>

abbreviation boot_init_heap where
  "boot_init_heap page_at page_range usable frame_at map_to \<equiv>
     init_heap page_at page_range (allocate_frame usable frame_at) map_to"

text \<open>A state of the frame allocator reachable from a fresh one over the map \<open>m\<close>.\<close>

definition frames_ok :: "nat \<Rightarrow> (nat \<Rightarrow> nat outcome) \<Rightarrow> frame_allocator \<Rightarrow> bool" where
  "frames_ok usable frame_at fa \<longleftrightarrow> frame_inv usable fa \<and>
     frames_valid frame_at usable (memory_map fa) \<and>
     set (remaining usable fa) \<subseteq> set (map_frames usable (memory_map fa))"

definition frames_left :: "nat \<Rightarrow> frame_allocator \<Rightarrow> nat" where
  "frames_left usable fa = length (remaining usable fa)"

lemma allocate_frame_left:
  assumes "frames_ok usable frame_at fa"
  obtains r fa' where "allocate_frame usable frame_at fa = Done (r, fa')"
    and "frames_ok usable frame_at fa'"
    and "r = None \<longleftrightarrow> frames_left usable fa = 0"
    and "frames_left usable fa' = frames_left usable fa - 1"
proof -
  obtain fa' where fa': "memory_map fa' = memory_map fa" "frame_inv usable fa'"
    and step: "case remaining usable fa of
       [] \<Rightarrow> allocate_frame usable frame_at fa = Done (None, fa') \<and> remaining usable fa' = []
     | f # fs \<Rightarrow> allocate_frame usable frame_at fa = Done (Some f, fa') \<and> remaining usable fa' = fs"
    using allocate_frame_refines [of usable fa frame_at] assms by (auto simp: frames_ok_def)
  show thesis
    using that assms fa' step
    by (cases "remaining usable fa") (auto simp: frames_ok_def frames_left_def)
qed

text \<open>The mapper: total, and it takes at most three frames, which it needs to succeed.\<close>

definition mapper_ok where
  "mapper_ok usable frame_at map_to \<longleftrightarrow>
     (\<forall>page f fs fa mp. frames_ok usable frame_at fa \<longrightarrow>
        (\<exists>r fa' mp'. map_to page f fs fa mp = Done (r, fa', mp') \<and> frames_ok usable frame_at fa' \<and>
           frames_left usable fa' \<le> frames_left usable fa \<and>
           frames_left usable fa \<le> frames_left usable fa' + 3 \<and>
           (3 \<le> frames_left usable fa \<longrightarrow> r = Inr ())))"

lemma map_heap_pages_enough:
  assumes "mapper_ok usable frame_at map_to" and "frames_ok usable frame_at fa"
    and "4 * length pages \<le> frames_left usable fa"
  shows "\<exists>fa' mp'. map_heap_pages (allocate_frame usable frame_at) map_to pages fa mp =
    Done (Inr (), fa', mp')"
  using assms(2,3)
proof (induction pages arbitrary: fa mp)
  case (Cons page pages)
  obtain r fa1 where fa1: "allocate_frame usable frame_at fa = Done (r, fa1)"
    "frames_ok usable frame_at fa1" "r = None \<longleftrightarrow> frames_left usable fa = 0"
    "frames_left usable fa1 = frames_left usable fa - 1"
    using allocate_frame_left [OF Cons.prems(1)] by metis
  then obtain f where f: "r = Some f" using Cons.prems(2) by auto
  obtain fa2 mp2 where fa2: "map_to page f {PRESENT, WRITABLE} fa1 mp = Done (Inr (), fa2, mp2)"
    "frames_ok usable frame_at fa2" "frames_left usable fa1 \<le> frames_left usable fa2 + 3"
    using assms(1) fa1(2,4) Cons.prems(2) unfolding mapper_ok_def by fastforce
  have "4 * length pages \<le> frames_left usable fa2"
    using fa2(3) fa1(4) Cons.prems(2) by simp
  then obtain fa' mp' where "map_heap_pages (allocate_frame usable frame_at) map_to pages fa2 mp2 =
      Done (Inr (), fa', mp')"
    using Cons.IH [OF fa2(2)] by blast
  then show ?case using fa1(1) f fa2(1) by simp
qed simp

lemma map_heap_pages_short:
  assumes "mapper_ok usable frame_at map_to" and "frames_ok usable frame_at fa"
    and "frames_left usable fa < length pages"
  shows "\<exists>e fa' mp'. map_heap_pages (allocate_frame usable frame_at) map_to pages fa mp =
    Done (Inl e, fa', mp')"
  using assms(2,3)
proof (induction pages arbitrary: fa mp)
  case (Cons page pages)
  obtain r fa1 where fa1: "allocate_frame usable frame_at fa = Done (r, fa1)"
    "frames_ok usable frame_at fa1" "r = None \<longleftrightarrow> frames_left usable fa = 0"
    "frames_left usable fa1 = frames_left usable fa - 1"
    using allocate_frame_left [OF Cons.prems(1)] by metis
  show ?case
  proof (cases r)
    case None
    then show ?thesis using fa1(1) by simp
  next
    case (Some f)
    obtain q fa2 mp2 where fa2: "map_to page f {PRESENT, WRITABLE} fa1 mp = Done (q, fa2, mp2)"
      "frames_ok usable frame_at fa2" "frames_left usable fa2 \<le> frames_left usable fa1"
      using assms(1) fa1(2) unfolding mapper_ok_def by fastforce
    show ?thesis
    proof (cases q)
      case (Inl e)
      then show ?thesis using fa1(1) Some fa2(1) by simp
    next
      case (Inr u)
      have "frames_left usable fa2 < length pages"
        using fa2(3) fa1(3,4) Some Cons.prems(2) by simp
      then obtain e fa' mp' where "map_heap_pages (allocate_frame usable frame_at) map_to pages fa2 mp2 =
          Done (Inl e, fa', mp')"
        using Cons.IH [OF fa2(2)] by blast
      then show ?thesis using fa1(1) Some fa2(1) Inr by simp
    qed
  qed
qed simp

lemma frames_ok_new:
  "map_fits usable m \<Longrightarrow> frames_valid frame_at usable m \<Longrightarrow> frames_ok usable frame_at (frame_new m)"
  by (simp add: frames_ok_def frame_inv_def remaining_new) (simp add: frame_new_def)

abbreviation HEAP_PAGES :: nat where
  "HEAP_PAGES \<equiv> 25600"

text \<open>The page arithmetic of the \<open>x86_64\<close> crate on the heap's range: 25600 pages of 4 KiB.\<close>

definition pages_ok where
  "pages_ok page_at page_range \<longleftrightarrow>
     (\<exists>p q. page_at HEAP_START = Done p \<and> page_at (HEAP_START + HEAP_SIZE - 1) = Done q \<and>
        length (page_range p q) = HEAP_PAGES)"


text \<open>A mapper whose page tables are already there: it takes no frame.\<close>

definition sample_map_to ::
    "nat \<Rightarrow> nat \<Rightarrow> page_flag set \<Rightarrow> frame_allocator \<Rightarrow> (nat \<times> nat) list \<Rightarrow>
     ((unit + unit) \<times> frame_allocator \<times> (nat \<times> nat) list) outcome" where
  "sample_map_to page f fs fa mp = Done (Inr (), fa, (page, f) # mp)"

lemma sample_mapper_ok: "mapper_ok usable frame_at sample_map_to"
  by (auto simp: mapper_ok_def sample_map_to_def)


end
