(* ===== verification/Ordered_Map.thy ===== *)
theory Ordered_Map
  imports Main "HOL-Library.Char_ord" "HOL-Library.List_Lexorder"
begin

text \<open>
  The standard library's \<open>BTreeMap\<close> and \<open>BTreeSet\<close>, as far as the kernel uses them: lookup,
  insertion, removal, and iteration in the order of the keys. The locale \<open>ordered_map\<close> states what
  the file system relies on; it is interpreted on sorted association lists. \<open>String\<close> keys are
  ordered by their bytes, which is the lexicographic order of the library on \<open>string\<close>.
\<close>

locale ordered_map =
  fixes mempty :: "'m"
    and mget :: "'k::linorder \<Rightarrow> 'm \<Rightarrow> 'v option"
    and minsert :: "'k \<Rightarrow> 'v \<Rightarrow> 'm \<Rightarrow> 'm"
    and mremove :: "'k \<Rightarrow> 'm \<Rightarrow> 'm"
    and mkeys :: "'m \<Rightarrow> 'k list"
    and mok :: "'m \<Rightarrow> bool"
  assumes get_empty: "mget k mempty = None"
    and get_insert: "mok m \<Longrightarrow> mget k' (minsert k v m) = (if k' = k then Some v else mget k' m)"
    and get_remove: "mok m \<Longrightarrow> mget k' (mremove k m) = (if k' = k then None else mget k' m)"
    and keys_get: "mok m \<Longrightarrow> set (mkeys m) = {k. mget k m \<noteq> None}"
    and keys_sorted: "mok m \<Longrightarrow> sorted (mkeys m) \<and> distinct (mkeys m)"
    and ok_empty: "mok mempty"
    and ok_insert: "mok m \<Longrightarrow> mok (minsert k v m)"
    and ok_remove: "mok m \<Longrightarrow> mok (mremove k m)"
begin

lemma keys_insert: "mok m \<Longrightarrow> set (mkeys (minsert k v m)) = insert k (set (mkeys m))"
  by (auto simp: keys_get get_insert ok_insert)

lemma keys_remove: "mok m \<Longrightarrow> set (mkeys (mremove k m)) = set (mkeys m) - {k}"
  by (auto simp: keys_get get_remove ok_remove)

lemma keys_empty: "mkeys mempty = []"
proof -
  have "set (mkeys mempty) = {}" by (simp add: keys_get get_empty ok_empty)
  then show ?thesis by simp
qed

lemma get_iff_key: "mok m \<Longrightarrow> mget k m = None \<longleftrightarrow> k \<notin> set (mkeys m)"
  by (simp add: keys_get)

lemma keys_determined: "mok m \<Longrightarrow> mkeys m = sorted_list_of_set {k. mget k m \<noteq> None}"
  using keys_sorted [of m] sorted_list_of_set.idem_if_sorted_distinct [of "mkeys m"]
  by (simp only: keys_get)

end

section \<open>Sorted association lists\<close>

type_synonym ('k, 'v) btree = "('k \<times> 'v) list"

primrec btree_get :: "'k::linorder \<Rightarrow> ('k, 'v) btree \<Rightarrow> 'v option" where
  "btree_get k [] = None"
| "btree_get k (e # m) = (if k < fst e then None else if k = fst e then Some (snd e) else btree_get k m)"

primrec btree_insert :: "'k::linorder \<Rightarrow> 'v \<Rightarrow> ('k, 'v) btree \<Rightarrow> ('k, 'v) btree" where
  "btree_insert k v [] = [(k, v)]"
| "btree_insert k v (e # m) =
     (if k < fst e then (k, v) # e # m
      else if k = fst e then (k, v) # m
      else e # btree_insert k v m)"

primrec btree_remove :: "'k::linorder \<Rightarrow> ('k, 'v) btree \<Rightarrow> ('k, 'v) btree" where
  "btree_remove k [] = []"
| "btree_remove k (e # m) =
     (if k < fst e then e # m else if k = fst e then m else e # btree_remove k m)"

definition btree_keys :: "('k, 'v) btree \<Rightarrow> 'k list" where
  "btree_keys m = map fst m"

definition btree_ok :: "('k::linorder, 'v) btree \<Rightarrow> bool" where
  "btree_ok m \<longleftrightarrow> sorted_wrt (<) (map fst m)"

lemma btree_ok_simps [simp]:
  "btree_ok []"
  "btree_ok (e # m) \<longleftrightarrow> (\<forall>k \<in> fst ` set m. fst e < k) \<and> btree_ok m"
  by (auto simp: btree_ok_def)

lemma set_btree_insert: "fst ` set (btree_insert k v m) = insert k (fst ` set m)"
  by (induction m) auto

lemma set_btree_remove: "fst ` set (btree_remove k m) \<subseteq> fst ` set m"
  by (induction m) auto

lemma btree_get_notin: "btree_ok m \<Longrightarrow> k \<notin> fst ` set m \<Longrightarrow> btree_get k m = None"
  by (induction m) auto

lemma btree_get_in: "btree_ok m \<Longrightarrow> k \<in> fst ` set m \<Longrightarrow> btree_get k m \<noteq> None"
  by (induction m) auto

lemma btree_get_insert:
  "btree_ok m \<Longrightarrow> btree_get k' (btree_insert k v m) = (if k' = k then Some v else btree_get k' m)"
  by (induction m) auto

lemma btree_get_remove:
  "btree_ok m \<Longrightarrow> btree_get k' (btree_remove k m) = (if k' = k then None else btree_get k' m)"
proof (induction m)
  case (Cons e m)
  then have "btree_get j m = None" if "j \<le> fst e" for j
    using that by (intro btree_get_notin) auto
  with Cons show ?case by auto
qed simp

lemma btree_ok_insert: "btree_ok m \<Longrightarrow> btree_ok (btree_insert k v m)"
proof (induction m)
  case (Cons e m)
  then show ?case using set_btree_insert [of k v m] by (auto simp: set_btree_insert)
qed simp

lemma btree_ok_remove: "btree_ok m \<Longrightarrow> btree_ok (btree_remove k m)"
proof (induction m)
  case (Cons e m)
  have "\<forall>j \<in> fst ` set m. fst e < j" using Cons.prems by simp
  then have "\<forall>j \<in> fst ` set (btree_remove k m). fst e < j"
    using set_btree_remove [of k m] by (meson subsetD)
  with Cons show ?case by simp
qed simp

lemma btree_keys_get: "btree_ok m \<Longrightarrow> set (btree_keys m) = {k. btree_get k m \<noteq> None}"
proof -
  assume ok: "btree_ok m"
  have "k \<in> fst ` set m \<longleftrightarrow> btree_get k m \<noteq> None" for k
    using btree_get_in [OF ok, of k] btree_get_notin [OF ok, of k] by metis
  then show ?thesis by (auto simp: btree_keys_def)
qed

lemma btree_keys_sorted: "btree_ok m \<Longrightarrow> sorted (btree_keys m) \<and> distinct (btree_keys m)"
  by (simp add: btree_ok_def btree_keys_def strict_sorted_iff)

interpretation btree_map: ordered_map "[]" btree_get btree_insert btree_remove btree_keys btree_ok
proof (unfold_locales, goal_cases)
  case (2 m k' k v)
  then show ?case by (rule btree_get_insert)
next
  case (3 m k' k)
  then show ?case by (rule btree_get_remove)
next
  case (4 m)
  then show ?case by (rule btree_keys_get)
next
  case (5 m)
  then show ?case by (rule btree_keys_sorted)
next
  case (7 m k v)
  then show ?case by (rule btree_ok_insert)
next
  case (8 m k)
  then show ?case by (rule btree_ok_remove)
qed simp_all

end
