(* ===== verification/Tmpfs.thy ===== *)
theory Tmpfs
  imports Ordered_Map "HOL-Library.Word"
begin

text \<open>
  The in-memory file system: the interface of \<open>src/fs.rs\<close> and \<open>TmpFs\<close> of
  \<open>src/fs/tempfs.rs\<close>. A file system is an ordered map from whole paths to contents and an
  ordered set of directory paths; there is no tree of nodes, the parent of a path is computed from
  its text. Operations return the code's \<open>Result\<close> as a sum; the \<open>Mutex\<close> around the global
  instance is not modelled (each operation runs under the lock).
\<close>

type_synonym byte = "8 word"

datatype entry = File string | Dir string

datatype fs_error = NotFound | AlreadyExists | NotADirectory | IsADirectory

record tmpfs =
  files :: "(string, byte list) btree"
  dirs :: "(string, unit) btree"

definition tmpfs_new :: tmpfs where
  "tmpfs_new = \<lparr>files = [], dirs = []\<rparr>"

section \<open>Paths\<close>

abbreviation slash :: char where
  "slash \<equiv> CHR ''/''"

abbreviation root :: string where
  "root \<equiv> ''/''"

definition trim_end_matches :: "char \<Rightarrow> string \<Rightarrow> string" where
  "trim_end_matches c s = rev (dropWhile (\<lambda>x. x = c) (rev s))"

primrec rfind :: "char \<Rightarrow> string \<Rightarrow> nat option" where
  "rfind c [] = None"
| "rfind c (x # xs) =
     (case rfind c xs of Some i \<Rightarrow> Some (Suc i) | None \<Rightarrow> if x = c then Some 0 else None)"

definition parent_of :: "string \<Rightarrow> string" where
  "parent_of path =
     (case rfind slash (trim_end_matches slash path) of
        Some idx \<Rightarrow> if idx = 0 then root else take idx path
      | None \<Rightarrow> root)"

text \<open>\<open>rsplit('/').next()\<close>: what follows the last slash, all of the string if there is none.\<close>

definition last_segment :: "string \<Rightarrow> string" where
  "last_segment path = rev (takeWhile (\<lambda>x. x \<noteq> slash) (rev (trim_end_matches slash path)))"

section \<open>Operations\<close>

definition is_dir :: "tmpfs \<Rightarrow> string \<Rightarrow> bool" where
  "is_dir fs path \<longleftrightarrow> path = root \<or> btree_get path (dirs fs) \<noteq> None"

definition mkdir :: "string \<Rightarrow> tmpfs \<Rightarrow> (fs_error + unit) \<times> tmpfs" where
  "mkdir path fs =
     (if path = root \<or> is_dir fs path \<or> btree_get path (files fs) \<noteq> None then (Inl AlreadyExists, fs)
      else if \<not> is_dir fs (parent_of path) then (Inl NotFound, fs)
      else (Inr (), fs\<lparr>dirs := btree_insert path () (dirs fs)\<rparr>))"

definition touch :: "string \<Rightarrow> tmpfs \<Rightarrow> (fs_error + unit) \<times> tmpfs" where
  "touch path fs =
     (if is_dir fs path then (Inl IsADirectory, fs)
      else if \<not> is_dir fs (parent_of path) then (Inl NotFound, fs)
      else (Inr (), case btree_get path (files fs) of
          Some _ \<Rightarrow> fs
        | None \<Rightarrow> fs\<lparr>files := btree_insert path [] (files fs)\<rparr>))"

definition list_entries :: "tmpfs \<Rightarrow> string \<Rightarrow> fs_error + entry list" where
  "list_entries fs path =
     (if \<not> is_dir fs path then Inl NotFound
      else Inr (map (\<lambda>d. Dir (last_segment d)) (filter (\<lambda>d. parent_of d = path) (btree_keys (dirs fs))) @
                map (\<lambda>f. File (last_segment f)) (filter (\<lambda>f. parent_of f = path) (btree_keys (files fs)))))"

definition read_file :: "tmpfs \<Rightarrow> string \<Rightarrow> fs_error + byte list" where
  "read_file fs path = (case btree_get path (files fs) of Some data \<Rightarrow> Inr data | None \<Rightarrow> Inl NotFound)"

definition write_file :: "string \<Rightarrow> byte list \<Rightarrow> tmpfs \<Rightarrow> (fs_error + unit) \<times> tmpfs" where
  "write_file path data fs =
     (if is_dir fs path then (Inl IsADirectory, fs)
      else (Inr (), fs\<lparr>files := btree_insert path data (files fs)\<rparr>))"

primrec entry_name :: "entry \<Rightarrow> string" where
  "entry_name (File name) = name"
| "entry_name (Dir name) = name @ ''/''"

definition list_names :: "tmpfs \<Rightarrow> string \<Rightarrow> fs_error + string list" where
  "list_names fs path =
     (case list_entries fs path of Inl e \<Rightarrow> Inl e | Inr es \<Rightarrow> Inr (map entry_name es))"

definition remove_file :: "string \<Rightarrow> tmpfs \<Rightarrow> (fs_error + unit) \<times> tmpfs" where
  "remove_file path fs =
     (case btree_get path (files fs) of
        Some _ \<Rightarrow> (Inr (), fs\<lparr>files := btree_remove path (files fs)\<rparr>)
      | None \<Rightarrow> (Inl NotFound, fs))"

section \<open>Well-formed file systems\<close>

definition tmpfs_ok :: "tmpfs \<Rightarrow> bool" where
  "tmpfs_ok fs \<longleftrightarrow> btree_ok (files fs) \<and> btree_ok (dirs fs) \<and>
     (\<forall>p. btree_get p (files fs) \<noteq> None \<longrightarrow> \<not> is_dir fs p) \<and> btree_get root (dirs fs) = None"

definition exists_path :: "tmpfs \<Rightarrow> string \<Rightarrow> bool" where
  "exists_path fs p \<longleftrightarrow> is_dir fs p \<or> btree_get p (files fs) \<noteq> None"

text \<open>Every entry hangs below an existing directory.\<close>

definition rooted :: "tmpfs \<Rightarrow> bool" where
  "rooted fs \<longleftrightarrow> (\<forall>p. exists_path fs p \<longrightarrow> is_dir fs (parent_of p))"

lemma tmpfs_okD:
  assumes "tmpfs_ok fs"
  shows "btree_ok (files fs)" and "btree_ok (dirs fs)"
    and "btree_get p (files fs) = Some d \<Longrightarrow> \<not> is_dir fs p" and "btree_get root (dirs fs) = None"
  using assms by (auto simp: tmpfs_ok_def)

lemma tmpfs_ok_new: "tmpfs_ok tmpfs_new" and rooted_new: "rooted tmpfs_new"
  by (auto simp: tmpfs_ok_def tmpfs_new_def is_dir_def rooted_def exists_path_def parent_of_def
      trim_end_matches_def)

lemmas btree_laws = btree_map.get_insert btree_map.get_remove btree_map.ok_insert btree_map.ok_remove

lemma is_dir_mkdir:
  "tmpfs_ok fs \<Longrightarrow> is_dir (fs\<lparr>dirs := btree_insert path () (dirs fs)\<rparr>) q \<longleftrightarrow> q = path \<or> is_dir fs q"
  by (auto simp: is_dir_def tmpfs_ok_def btree_laws)

lemma is_dir_files [simp]: "is_dir (fs\<lparr>files := m\<rparr>) q = is_dir fs q"
  by (simp add: is_dir_def)

lemma mkdir_ok: "tmpfs_ok fs \<Longrightarrow> mkdir path fs = (r, fs') \<Longrightarrow> tmpfs_ok fs'"
  by (auto simp: mkdir_def tmpfs_ok_def is_dir_def btree_laws split: if_splits) metis+

lemma touch_ok: "tmpfs_ok fs \<Longrightarrow> touch path fs = (r, fs') \<Longrightarrow> tmpfs_ok fs'"
  by (auto simp: touch_def tmpfs_ok_def btree_laws split: if_splits option.splits)

lemma write_file_ok: "tmpfs_ok fs \<Longrightarrow> write_file path data fs = (r, fs') \<Longrightarrow> tmpfs_ok fs'"
  by (auto simp: write_file_def tmpfs_ok_def btree_laws split: if_splits)

lemma remove_file_ok: "tmpfs_ok fs \<Longrightarrow> remove_file path fs = (r, fs') \<Longrightarrow> tmpfs_ok fs'"
  by (auto simp: remove_file_def tmpfs_ok_def btree_laws split: if_splits option.splits)

lemmas ops_ok = mkdir_ok touch_ok write_file_ok remove_file_ok

lemma mkdir_rooted:
  assumes "tmpfs_ok fs" and "rooted fs" and "mkdir path fs = (r, fs')"
  shows "rooted fs'"
  using assms is_dir_mkdir [OF assms(1), of path]
  by (auto simp: mkdir_def rooted_def exists_path_def split: if_splits)

lemma touch_rooted:
  assumes "tmpfs_ok fs" and "rooted fs" and "touch path fs = (r, fs')"
  shows "rooted fs'"
  using assms
  by (auto simp: touch_def rooted_def exists_path_def tmpfs_ok_def btree_laws
      split: if_splits option.splits)

lemma remove_rooted:
  assumes "tmpfs_ok fs" and "rooted fs" and "remove_file path fs = (r, fs')"
  shows "rooted fs'"
  using assms
  by (auto simp: remove_file_def rooted_def exists_path_def tmpfs_ok_def btree_laws
      split: if_splits option.splits)

text \<open>Histories: the mutating operations in any order, with whatever they return.\<close>

datatype fs_op = Mkdir string | Touch string | Write string "byte list" | Remove string

primrec fs_apply :: "fs_op \<Rightarrow> tmpfs \<Rightarrow> (fs_error + unit) \<times> tmpfs" where
  "fs_apply (Mkdir p) fs = mkdir p fs"
| "fs_apply (Touch p) fs = touch p fs"
| "fs_apply (Write p d) fs = write_file p d fs"
| "fs_apply (Remove p) fs = remove_file p fs"

inductive fs_reachable :: "(fs_op \<Rightarrow> bool) \<Rightarrow> tmpfs \<Rightarrow> bool" for allowed where
  fs_start: "fs_reachable allowed tmpfs_new"
| fs_next: "fs_reachable allowed fs \<Longrightarrow> allowed op \<Longrightarrow> fs_apply op fs = (r, fs') \<Longrightarrow>
     fs_reachable allowed fs'"

lemma fs_reachable_ok: "fs_reachable allowed fs \<Longrightarrow> tmpfs_ok fs"
proof (induction rule: fs_reachable.induct)
  case (fs_next fs op r fs')
  then show ?case by (cases op) (auto dest: ops_ok)
qed (rule tmpfs_ok_new)

abbreviation no_write :: "fs_op \<Rightarrow> bool" where
  "no_write op \<equiv> (\<forall>p d. op \<noteq> Write p d)"

lemma fs_reachable_rooted: "fs_reachable no_write fs \<Longrightarrow> rooted fs"
proof (induction rule: fs_reachable.induct)
  case (fs_next fs op r fs')
  have "tmpfs_ok fs" using fs_next.hyps(1) by (rule fs_reachable_ok)
  then show ?case
    using fs_next by (cases op) (auto dest: mkdir_rooted touch_rooted remove_rooted)
qed (rule rooted_new)

section \<open>Path text\<close>

lemma rfind_None: "rfind c s = None \<longleftrightarrow> c \<notin> set s"
  by (induction s) (auto split: option.splits)

lemma rfind_append: "c \<notin> set ys \<Longrightarrow> rfind c (xs @ c # ys) = Some (length xs)"
  by (induction xs) (auto simp: rfind_None [symmetric] split: option.splits)

lemma trim_canonical: "s = [] \<or> last s \<noteq> c \<Longrightarrow> trim_end_matches c s = s"
  by (cases s rule: rev_cases) (auto simp: trim_end_matches_def)

lemma split_last_slash:
  assumes "slash \<in> set s"
  obtains xs ys where "s = xs @ slash # ys" and "slash \<notin> set ys"
proof -
  have "slash \<in> set (rev s)" using assms by simp
  then obtain as bs where "rev s = as @ slash # bs" and n: "slash \<notin> set as"
    by (meson split_list_first)
  then have "s = rev bs @ slash # rev as" by (metis append.assoc append_Cons append_Nil rev_append rev_rev_ident rev.simps(2))
  then show thesis using that [of "rev bs" "rev as"] n by simp
qed

lemma parent_append:
  assumes "slash \<notin> set ys" and "ys \<noteq> []"
  shows "parent_of (xs @ slash # ys) = (if xs = [] then root else xs)"
    and "last_segment (xs @ slash # ys) = ys"
proof -
  have "last ys \<noteq> slash" using assms last_in_set by metis
  then have t: "trim_end_matches slash (xs @ slash # ys) = xs @ slash # ys"
    by (intro trim_canonical) (simp add: assms(2))
  show "parent_of (xs @ slash # ys) = (if xs = [] then root else xs)"
    using rfind_append [OF assms(1), of xs] by (simp add: parent_of_def t)
  have "takeWhile (\<lambda>x. x \<noteq> slash) (rev ys @ slash # rev xs) = rev ys"
    using assms(1) by (subst takeWhile_append2) auto
  then show "last_segment (xs @ slash # ys) = ys"
    by (simp add: last_segment_def t)
qed

text \<open>\<open>/seg/.../seg\<close>: absolute, no empty segment, no trailing slash.\<close>

definition path_text :: "string list \<Rightarrow> string" where
  "path_text segs = concat (map (\<lambda>seg. slash # seg) segs)"

definition segment :: "string \<Rightarrow> bool" where
  "segment s \<longleftrightarrow> s \<noteq> [] \<and> slash \<notin> set s"

definition canonical :: "string \<Rightarrow> bool" where
  "canonical p \<longleftrightarrow> (\<exists>segs. segs \<noteq> [] \<and> (\<forall>s \<in> set segs. segment s) \<and> p = path_text segs)"

definition join :: "string \<Rightarrow> string \<Rightarrow> string" where
  "join d s = (if d = root then slash # s else d @ slash # s)"

lemma path_text_snoc: "path_text (segs @ [s]) = path_text segs @ slash # s"
  by (simp add: path_text_def)

lemma path_text_Nil_iff: "path_text segs = [] \<longleftrightarrow> segs = []"
  by (cases segs) (simp_all add: path_text_def)

lemma path_text_not_root: "\<forall>s \<in> set segs. segment s \<Longrightarrow> path_text segs \<noteq> root"
  by (cases segs) (auto simp: path_text_def segment_def)

lemma canonical_snoc:
  assumes "canonical p"
  obtains segs s where "\<forall>t \<in> set segs. segment t" and "segment s" and "p = path_text segs @ slash # s"
proof -
  obtain segs where segs: "segs \<noteq> []" "\<forall>s \<in> set segs. segment s" "p = path_text segs"
    using assms by (auto simp: canonical_def)
  then obtain ss s where "segs = ss @ [s]" by (cases segs rule: rev_cases) auto
  then show thesis using that [of ss s] segs by (simp add: path_text_snoc)
qed

lemma canonical_parent:
  assumes "canonical p"
  shows "p = join (parent_of p) (last_segment p)" and "segment (last_segment p)"
    and "parent_of p = root \<or> canonical (parent_of p)" and "length (parent_of p) < length p"
proof -
  obtain segs s where s: "\<forall>t \<in> set segs. segment t" "segment s" "p = path_text segs @ slash # s"
    using assms by (rule canonical_snoc)
  have p: "parent_of p = (if path_text segs = [] then root else path_text segs)"
    "last_segment p = s"
    using parent_append [of s "path_text segs"] s by (simp_all add: segment_def)
  have "segs = [] \<or> canonical (path_text segs)"
    using s(1) by (auto simp: canonical_def)
  then show "parent_of p = root \<or> canonical (parent_of p)"
    using p by (auto simp: path_text_Nil_iff path_text_def)
  show "p = join (parent_of p) (last_segment p)"
    using p s path_text_not_root [OF s(1)] by (auto simp: join_def)
  show "segment (last_segment p)" using p s by simp
  show "length (parent_of p) < length p" using p s by (cases s) (auto simp: segment_def)
qed

text \<open>What the parent of any stored path can be: the code's paths are not normalised.\<close>

lemma parent_shorter: "length (parent_of p) < length p \<or> parent_of p = root"
proof (cases "rfind slash (trim_end_matches slash p)")
  case (Some i)
  let ?t = "trim_end_matches slash p"
  have len: "length ?t \<le> length p"
    by (simp add: trim_end_matches_def length_dropWhile_le [of _ "rev p", simplified])
  have "slash \<in> set ?t" using Some rfind_None [of slash ?t] by auto
  then obtain xs ys where "?t = xs @ slash # ys" "slash \<notin> set ys" by (rule split_last_slash)
  then have "i < length ?t" using Some rfind_append [of slash ys xs] by simp
  then show ?thesis using Some len by (simp add: parent_of_def min_def)
qed (simp add: parent_of_def)

section \<open>Properties\<close>

text \<open>
  C12. In every file system that any sequence of operations can produce, no path is both a file and
  a directory, the root is never stored, and as long as only \<open>mkdir\<close>, \<open>touch\<close> and \<open>remove\<close>
  were used, the parent of every entry is an existing directory.
\<close>

theorem tmpfs_invariant:
  assumes "fs_reachable allowed fs"
  shows "(btree_get p (files fs) \<noteq> None \<longrightarrow> \<not> is_dir fs p) \<and> btree_get root (dirs fs) = None \<and>
    (allowed = no_write \<longrightarrow> exists_path fs p \<longrightarrow> is_dir fs (parent_of p))"
  using fs_reachable_ok [OF assms] fs_reachable_rooted assms
  by (auto simp: tmpfs_ok_def rooted_def)

definition sample_fs :: tmpfs where
  "sample_fs = \<lparr>files = [(''/d/a.txt'', [])], dirs = [(''/d'', ())]\<rparr>"

lemma sample_fs_steps:
  "snd (fs_apply (Touch ''/d/a.txt'') (snd (fs_apply (Mkdir ''/d'') tmpfs_new))) = sample_fs"
  by (simp add: sample_fs_def tmpfs_new_def mkdir_def touch_def is_dir_def parent_of_def
      trim_end_matches_def)

lemma sample_fs_reachable: "fs_reachable no_write sample_fs"
proof -
  let ?a = "fs_apply (Mkdir ''/d'') tmpfs_new"
  let ?b = "fs_apply (Touch ''/d/a.txt'') (snd ?a)"
  have "fs_reachable no_write (snd ?a)"
    by (rule fs_next [OF fs_start, where op = "Mkdir ''/d''" and r = "fst ?a"]) simp_all
  then have "fs_reachable no_write (snd ?b)"
    by (rule fs_next [where op = "Touch ''/d/a.txt''" and r = "fst ?b"]) simp_all
  then show ?thesis by (simp only: sample_fs_steps)
qed

theorem tmpfs_invariant_witness:
  "fs_reachable no_write sample_fs \<and> is_dir sample_fs (parent_of ''/d/a.txt'')"
  using tmpfs_invariant [OF sample_fs_reachable, of "''/d/a.txt''"] sample_fs_reachable
  by (simp add: exists_path_def sample_fs_def)

text \<open>
  From every entry of a file system built without \<open>write\<close>, the chain of parents climbs
  through existing directories up to the root.
\<close>

theorem tmpfs_climb:
  assumes "fs_reachable no_write fs" and "exists_path fs p"
  shows "\<exists>n. (parent_of ^^ n) p = root \<and> (\<forall>i. 0 < i \<and> i \<le> n \<longrightarrow> is_dir fs ((parent_of ^^ i) p))"
  using assms(2)
proof (induction p rule: length_induct)
  case (1 p)
  have dir: "is_dir fs (parent_of p)"
    using fs_reachable_rooted [OF assms(1)] "1.prems" by (simp add: rooted_def)
  show ?case
  proof (cases "parent_of p = root")
    case True
    then show ?thesis using dir by (intro exI [of _ 1]) (auto simp: le_Suc_eq)
  next
    case False
    have "\<exists>n. (parent_of ^^ n) (parent_of p) = root \<and>
        (\<forall>i. 0 < i \<and> i \<le> n \<longrightarrow> is_dir fs ((parent_of ^^ i) (parent_of p)))"
      using "1.IH" parent_shorter [of p] False dir by (simp add: exists_path_def)
    then obtain n where n: "(parent_of ^^ n) (parent_of p) = root"
      "\<And>i. 0 < i \<Longrightarrow> i \<le> n \<Longrightarrow> is_dir fs ((parent_of ^^ i) (parent_of p))" by blast
    have "is_dir fs ((parent_of ^^ i) p)" if i: "0 < i" "i \<le> Suc n" for i
    proof (cases i)
      case (Suc j)
      then show ?thesis using n(2) [of j] i dir by (cases j) (simp_all add: funpow_swap1)
    qed (use i in simp)
    then show ?thesis using n(1) by (intro exI [of _ "Suc n"]) (simp add: funpow_swap1)
  qed
qed

theorem tmpfs_climb_witness:
  "exists_path sample_fs ''/d/a.txt'' \<and> (\<exists>n. (parent_of ^^ n) ''/d/a.txt'' = root)"
  using tmpfs_climb [OF sample_fs_reachable, of "''/d/a.txt''"]
  by (auto simp: exists_path_def sample_fs_def)

text \<open>
  C30. \<open>write\<close> fails exactly on directories and then changes nothing; otherwise \<open>read\<close> gives the
  written bytes back, every other file keeps its contents and the directories stay as they are.
\<close>

theorem write_then_read:
  assumes "fs_reachable allowed fs" and "write_file path data fs = (r, fs')"
  shows "(r = Inl IsADirectory \<and> is_dir fs path \<and> fs' = fs) \<or>
    (r = Inr () \<and> \<not> is_dir fs path \<and> read_file fs' path = Inr data \<and>
     (\<forall>q. q \<noteq> path \<longrightarrow> read_file fs' q = read_file fs q) \<and> (\<forall>q. is_dir fs' q = is_dir fs q))"
  using assms(2) tmpfs_okD(1) [OF fs_reachable_ok [OF assms(1)]]
  by (auto simp: write_file_def read_file_def btree_laws split: if_splits)

theorem write_then_read_witness:
  "read_file (snd (write_file ''/d/a.txt'' [1, 2] sample_fs)) ''/d/a.txt'' = Inr [1, 2]"
  using write_then_read [OF sample_fs_reachable, of "''/d/a.txt''" "[1, 2]"
      "fst (write_file ''/d/a.txt'' [1, 2] sample_fs)" "snd (write_file ''/d/a.txt'' [1, 2] sample_fs)"]
  by (simp add: write_file_def is_dir_def sample_fs_def)

text \<open>
  \<open>touch\<close>: its errors, in the order the code checks them, change nothing; on success the file
  exists, empty if it is new and with its old contents if it was there, and nothing else changes.
\<close>

theorem touch_spec:
  assumes "fs_reachable allowed fs" and "touch path fs = (r, fs')"
  shows "r = (if is_dir fs path then Inl IsADirectory
        else if \<not> is_dir fs (parent_of path) then Inl NotFound else Inr ())
    \<and> (r \<noteq> Inr () \<longrightarrow> fs' = fs)
    \<and> (r = Inr () \<longrightarrow> dirs fs' = dirs fs \<and> (\<forall>q. read_file fs' q =
        (if q = path then Inr (case read_file fs path of Inl _ \<Rightarrow> [] | Inr d \<Rightarrow> d)
         else read_file fs q)))"
  using assms(2) tmpfs_okD(1) [OF fs_reachable_ok [OF assms(1)]]
  by (auto simp: touch_def read_file_def btree_laws split: if_splits option.splits)

theorem touch_spec_witness:
  "fst (touch ''/d/b'' sample_fs) = Inr () \<and> fst (touch ''/x/b'' sample_fs) = Inl NotFound"
proof -
  have "is_dir sample_fs ''/d''" "\<not> is_dir sample_fs ''/x''" "\<not> is_dir sample_fs ''/d/b''"
    "\<not> is_dir sample_fs ''/x/b''" "parent_of ''/d/b'' = ''/d''" "parent_of ''/x/b'' = ''/x''"
    by (simp_all add: is_dir_def sample_fs_def parent_of_def trim_end_matches_def)
  then show ?thesis
    using touch_spec [OF sample_fs_reachable, of "''/d/b''", OF surjective_pairing]
      touch_spec [OF sample_fs_reachable, of "''/x/b''", OF surjective_pairing] by simp
qed

text \<open>
  \<open>mkdir\<close> refuses paths that exist, as a directory or as a file, and paths whose parent is not
  a directory; otherwise exactly the new directory is added and no file changes.
\<close>

theorem mkdir_spec:
  assumes "fs_reachable allowed fs" and "mkdir path fs = (r, fs')"
  shows "r = (if exists_path fs path then Inl AlreadyExists
        else if \<not> is_dir fs (parent_of path) then Inl NotFound else Inr ())
    \<and> (r \<noteq> Inr () \<longrightarrow> fs' = fs)
    \<and> (r = Inr () \<longrightarrow> files fs' = files fs \<and> (\<forall>q. is_dir fs' q \<longleftrightarrow> q = path \<or> is_dir fs q))"
proof -
  note ok = fs_reachable_ok [OF assms(1)]
  have "path = root \<or> is_dir fs path \<longleftrightarrow> is_dir fs path" by (auto simp: is_dir_def)
  then show ?thesis
    using assms(2) is_dir_mkdir [OF ok, of path]
    by (auto simp: mkdir_def exists_path_def split: if_splits)
qed

theorem mkdir_spec_witness:
  "fst (mkdir ''/d/e'' sample_fs) = Inr () \<and> fst (mkdir ''/d/a.txt'' sample_fs) = Inl AlreadyExists"
proof -
  have "exists_path sample_fs ''/d/a.txt''" "\<not> exists_path sample_fs ''/d/e''"
    "is_dir sample_fs ''/d''" "parent_of ''/d/e'' = ''/d''"
    by (simp_all add: is_dir_def exists_path_def sample_fs_def parent_of_def trim_end_matches_def)
  then show ?thesis
    using mkdir_spec [OF sample_fs_reachable, of "''/d/e''", OF surjective_pairing]
      mkdir_spec [OF sample_fs_reachable, of "''/d/a.txt''", OF surjective_pairing] by simp
qed

text \<open>
  \<open>remove\<close> deletes exactly one file: it succeeds on files only, afterwards the path reads as not
  found, every other file and every directory stays; directories cannot be removed.
\<close>

theorem remove_spec:
  assumes "fs_reachable allowed fs" and "remove_file path fs = (r, fs')"
  shows "(r = Inr () \<longleftrightarrow> (\<exists>d. read_file fs path = Inr d))
    \<and> (r = Inr () \<or> r = Inl NotFound \<and> fs' = fs)
    \<and> read_file fs' path = Inl NotFound \<and> dirs fs' = dirs fs
    \<and> (\<forall>q. q \<noteq> path \<longrightarrow> read_file fs' q = read_file fs q)
    \<and> (is_dir fs path \<longrightarrow> r = Inl NotFound)"
  using assms(2) fs_reachable_ok [OF assms(1)]
  by (auto simp: remove_file_def read_file_def btree_laws tmpfs_ok_def split: option.splits if_splits)

theorem remove_spec_witness:
  "read_file (snd (remove_file ''/d/a.txt'' sample_fs)) ''/d/a.txt'' = Inl NotFound"
  using remove_spec [OF sample_fs_reachable, of "''/d/a.txt''", OF surjective_pairing] by simp

section \<open>Listing\<close>

text \<open>Histories in which every path is canonical.\<close>

primrec op_path :: "fs_op \<Rightarrow> string" where
  "op_path (Mkdir p) = p"
| "op_path (Touch p) = p"
| "op_path (Write p d) = p"
| "op_path (Remove p) = p"

definition canonical_fs :: "tmpfs \<Rightarrow> bool" where
  "canonical_fs fs \<longleftrightarrow>
     (\<forall>p. btree_get p (dirs fs) \<noteq> None \<or> btree_get p (files fs) \<noteq> None \<longrightarrow> canonical p)"

lemma canonical_reachable: "fs_reachable (\<lambda>op. canonical (op_path op)) fs \<Longrightarrow> canonical_fs fs"
proof (induction rule: fs_reachable.induct)
  case (fs_next fs op r fs')
  have "tmpfs_ok fs" using fs_next.hyps(1) by (rule fs_reachable_ok)
  then show ?case
    using fs_next
    by (cases op) (auto simp: canonical_fs_def mkdir_def touch_def write_file_def remove_file_def
        tmpfs_ok_def btree_laws split: if_splits option.splits)
qed (simp add: canonical_fs_def tmpfs_new_def)

lemma join_parts:
  assumes "d = root \<or> canonical d" and "segment s"
  shows "parent_of (join d s) = d" and "last_segment (join d s) = s"
proof -
  have "d \<noteq> []" using assms(1) canonical_parent(4) [of d] by auto
  then show "parent_of (join d s) = d" "last_segment (join d s) = s"
    using parent_append [of s "[]"] parent_append [of s d] assms(2)
    by (simp_all add: join_def segment_def)
qed

lemma children:
  assumes "\<And>x. x \<in> set xs \<Longrightarrow> canonical x" and "distinct xs" and "d = root \<or> canonical d"
  shows "distinct (map last_segment (filter (\<lambda>x. parent_of x = d) xs))"
    and "s \<in> set (map last_segment (filter (\<lambda>x. parent_of x = d) xs)) \<longleftrightarrow>
      segment s \<and> join d s \<in> set xs"
proof -
  have j: "x = join d (last_segment x) \<and> segment (last_segment x)" if "x \<in> set xs" "parent_of x = d" for x
    using canonical_parent(1,2) [OF assms(1) [OF that(1)]] that(2) by simp
  have "inj_on last_segment {x \<in> set xs. parent_of x = d}"
  proof (rule inj_onI)
    fix x y assume "x \<in> {x \<in> set xs. parent_of x = d}" "y \<in> {x \<in> set xs. parent_of x = d}"
      and eq: "last_segment x = last_segment y"
    then have "x = join d (last_segment x)" "y = join d (last_segment y)"
      using j [of x] j [of y] by blast+
    then show "x = y" using eq by metis
  qed
  then show "distinct (map last_segment (filter (\<lambda>x. parent_of x = d) xs))"
    using assms(2) by (simp add: distinct_map)
  show "s \<in> set (map last_segment (filter (\<lambda>x. parent_of x = d) xs)) \<longleftrightarrow>
      segment s \<and> join d s \<in> set xs"
    using j join_parts [OF assms(3), of s] by (auto simp: image_iff)
qed

text \<open>
  C11. Listing a directory of a file system whose paths are all canonical is exact: it fails only on
  paths that are no directories, it names every child once, and a name is listed as a directory
  (or as a file) exactly when the joined path is one.
\<close>

theorem list_entries_exact:
  assumes "fs_reachable (\<lambda>op. canonical (op_path op)) fs"
  shows "case list_entries fs d of
      Inl e \<Rightarrow> e = NotFound \<and> \<not> is_dir fs d
    | Inr es \<Rightarrow> is_dir fs d \<and> distinct es \<and>
        (\<forall>s. Dir s \<in> set es \<longleftrightarrow> segment s \<and> is_dir fs (join d s)) \<and>
        (\<forall>s. File s \<in> set es \<longleftrightarrow> segment s \<and> (\<exists>c. read_file fs (join d s) = Inr c))"
proof (cases "is_dir fs d")
  case True
  note ok = fs_reachable_ok [OF assms] and can = canonical_reachable [OF assms]
  let ?D = "btree_keys (dirs fs)" and ?F = "btree_keys (files fs)"
  have D: "\<And>x. x \<in> set ?D \<Longrightarrow> canonical x" and F: "\<And>x. x \<in> set ?F \<Longrightarrow> canonical x"
    and dD: "distinct ?D" and dF: "distinct ?F"
    using can btree_map.keys_get [OF tmpfs_okD(2) [OF ok]] btree_map.keys_get [OF tmpfs_okD(1) [OF ok]]
      btree_map.keys_sorted [OF tmpfs_okD(2) [OF ok]] btree_map.keys_sorted [OF tmpfs_okD(1) [OF ok]]
    by (auto simp: canonical_fs_def)
  have d: "d = root \<or> canonical d" using True can by (auto simp: is_dir_def canonical_fs_def)
  have isd: "is_dir fs (join d s) \<longleftrightarrow> join d s \<in> set ?D" if "segment s" for s
    using that tmpfs_okD(2) [OF ok] 
    by (auto simp: is_dir_def join_def btree_map.keys_get segment_def append_eq_Cons_conv)
  have isf: "(\<exists>c. read_file fs (join d s) = Inr c) \<longleftrightarrow> join d s \<in> set ?F" for s
    using tmpfs_okD(1) [OF ok] by (auto simp: read_file_def btree_map.keys_get split: option.splits)
  have inj: "inj_on Dir A" "inj_on File A" for A by (simp_all add: inj_on_def)
  have es: "list_entries fs d =
      Inr (map Dir (map last_segment (filter (\<lambda>x. parent_of x = d) ?D)) @
           map File (map last_segment (filter (\<lambda>x. parent_of x = d) ?F)))"
    using True by (simp add: list_entries_def comp_def)
  note cD = children [OF D dD d] and cF = children [OF F dF d]
  have "distinct (map Dir (map last_segment (filter (\<lambda>x. parent_of x = d) ?D)) @
           map File (map last_segment (filter (\<lambda>x. parent_of x = d) ?F)))"
    using cD(1) cF(1) inj by (auto simp: distinct_map comp_inj_on)
  moreover have "Dir s \<in> set (map Dir (map last_segment (filter (\<lambda>x. parent_of x = d) ?D)) @
           map File (map last_segment (filter (\<lambda>x. parent_of x = d) ?F))) \<longleftrightarrow>
      segment s \<and> is_dir fs (join d s)" for s
    using cD(2) [of s] isd [of s] by auto
  moreover have "File s \<in> set (map Dir (map last_segment (filter (\<lambda>x. parent_of x = d) ?D)) @
           map File (map last_segment (filter (\<lambda>x. parent_of x = d) ?F))) \<longleftrightarrow>
      segment s \<and> (\<exists>c. read_file fs (join d s) = Inr c)" for s
    using cF(2) [of s] isf [of s] by auto
  ultimately show ?thesis using es True by (simp only: sum.case simp_thms)
qed (simp add: list_entries_def)

lemma canonical_samples: "canonical ''/d''" "canonical ''/d/a.txt''"
  unfolding canonical_def
  by (rule exI [of _ "[''d'']"], simp add: path_text_def segment_def,
      rule exI [of _ "[''d'', ''a.txt'']"], simp add: path_text_def segment_def)

lemma sample_fs_canonical: "fs_reachable (\<lambda>op. canonical (op_path op)) sample_fs"
proof -
  let ?ok = "\<lambda>op. canonical (op_path op)"
  let ?a = "fs_apply (Mkdir ''/d'') tmpfs_new"
  let ?b = "fs_apply (Touch ''/d/a.txt'') (snd ?a)"
  have "fs_reachable ?ok (snd ?a)"
    by (rule fs_next [OF fs_start, where op = "Mkdir ''/d''" and r = "fst ?a"])
      (simp_all add: canonical_samples)
  then have "fs_reachable ?ok (snd ?b)"
    by (rule fs_next [where op = "Touch ''/d/a.txt''" and r = "fst ?b"])
      (simp_all add: canonical_samples)
  then show ?thesis by (simp only: sample_fs_steps)
qed

theorem list_entries_exact_witness:
  "\<exists>es. list_entries sample_fs ''/d'' = Inr es \<and> File ''a.txt'' \<in> set es"
proof -
  have "list_entries sample_fs ''/d'' = Inr [File ''a.txt'']"
    by (simp add: list_entries_def is_dir_def sample_fs_def btree_keys_def parent_of_def
        last_segment_def trim_end_matches_def)
  then show ?thesis using list_entries_exact [OF sample_fs_canonical, of "''/d''"] by auto
qed



end
