(* ===== verification/Framebuffer.thy ===== *)
theory Framebuffer
  imports Sill_Prelude
begin

text \<open>
  The framebuffer of \<open>src/fb.rs\<close>. The statics of the module are one record: \<open>INFO\<close>, the
  backbuffer (32-bit pixels, row after row, \<open>scr_width\<close> pixels to the row), the bytes of the
  hardware framebuffer behind \<open>INFO.front\<close>, indexed by their offset, and the dirty rectangle. The
  code writes through raw pointers, so an access out of range would not panic: the buffers are
  functions here, and that no operation touches a pixel outside the screen is proved.
\<close>

abbreviation MAX_WIDTH :: nat where "MAX_WIDTH \<equiv> 1920"
abbreviation MAX_HEIGHT :: nat where "MAX_HEIGHT \<equiv> 1080"
abbreviation BYTES_PER_PIXEL :: nat where "BYTES_PER_PIXEL \<equiv> 4"

record color =
  red :: "8 word"
  green :: "8 word"
  blue :: "8 word"

definition BLACK :: color where "BLACK = \<lparr>red = 0, green = 0, blue = 0\<rparr>"
definition WHITE :: color where "WHITE = \<lparr>red = 255, green = 255, blue = 255\<rparr>"
definition RED :: color where "RED = \<lparr>red = 255, green = 0, blue = 0\<rparr>"
definition GREEN :: color where "GREEN = \<lparr>red = 0, green = 255, blue = 0\<rparr>"
definition BLUE :: color where "BLUE = \<lparr>red = 0, green = 0, blue = 255\<rparr>"

definition color_from_name :: "string \<Rightarrow> color option" where
  "color_from_name name =
     (if name = ''black'' then Some BLACK
      else if name = ''red'' then Some RED
      else if name = ''green'' then Some GREEN
      else if name = ''white'' then Some WHITE
      else if name = ''blue'' then Some BLUE
      else None)"

record info =
  scr_width :: nat
  scr_height :: nat
  scr_pitch :: nat
  red_shift :: nat
  green_shift :: nat
  blue_shift :: nat

record framebuffer =
  fb_info :: "info option"
  backbuffer :: "nat \<Rightarrow> 32 word"
  front :: "nat \<Rightarrow> 8 word"
  dirty :: bool
  dirty_min_x :: nat
  dirty_min_y :: nat
  dirty_max_x :: nat
  dirty_max_y :: nat

text \<open>The statics before \<open>init\<close>; what the hardware framebuffer holds then is unknown.\<close>

definition fb_static :: "(nat \<Rightarrow> 8 word) \<Rightarrow> framebuffer" where
  "fb_static mem = \<lparr>fb_info = None, backbuffer = (\<lambda>_. 0), front = mem, dirty = False,
     dirty_min_x = 0, dirty_min_y = 0, dirty_max_x = 0, dirty_max_y = 0\<rparr>"

definition get_info :: "framebuffer \<Rightarrow> info outcome" where
  "get_info s = (case fb_info s of
     Some i \<Rightarrow> Done i | None \<Rightarrow> Panic (Expect ''Framebuffer not initialized''))"

section \<open>Drawing\<close>

definition mark_dirty :: "nat \<Rightarrow> nat \<Rightarrow> nat \<Rightarrow> nat \<Rightarrow> framebuffer \<Rightarrow> framebuffer outcome" where
  "mark_dirty x y w h s =
     andthen (get_info s) (\<lambda>i.
       if w = 0 \<or> h = 0 then Done s
       else if scr_width i \<le> x \<or> scr_height i \<le> y then Done s
       else
         let max_x = min (sat_add x w) (scr_width i);
             max_y = min (sat_add y h) (scr_height i)
         in if max_x \<le> x \<or> max_y \<le> y then Done s
            else if \<not> dirty s then
              Done (s\<lparr>dirty := True, dirty_min_x := x, dirty_min_y := y,
                      dirty_max_x := max_x, dirty_max_y := max_y\<rparr>)
            else
              Done (s\<lparr>dirty_min_x := min (dirty_min_x s) x, dirty_min_y := min (dirty_min_y s) y,
                      dirty_max_x := max (dirty_max_x s) max_x,
                      dirty_max_y := max (dirty_max_y s) max_y\<rparr>))"

definition shl32 :: "32 word \<Rightarrow> nat \<Rightarrow> 32 word outcome" where
  "shl32 v k = (if k < 32 then Done (push_bit k v) else Panic ShlOverflow)"

definition color_to_u32 :: "color \<Rightarrow> framebuffer \<Rightarrow> 32 word outcome" where
  "color_to_u32 c s =
     andthen (get_info s) (\<lambda>i.
     andthen (shl32 (ucast (red c)) (red_shift i)) (\<lambda>cr.
     andthen (shl32 (ucast (green c)) (green_shift i)) (\<lambda>cg.
     andthen (shl32 (ucast (blue c)) (blue_shift i)) (\<lambda>cb.
       Done (cr OR cg OR cb)))))"

text \<open>\<open>back.add(y * info.width + x)\<close>\<close>

definition pixel_index :: "info \<Rightarrow> nat \<Rightarrow> nat \<Rightarrow> nat outcome" where
  "pixel_index i x y = andthen (umul y (scr_width i)) (\<lambda>row. uadd row x)"

definition put_pixel :: "nat \<Rightarrow> nat \<Rightarrow> color \<Rightarrow> framebuffer \<Rightarrow> framebuffer outcome" where
  "put_pixel x y c s =
     andthen (get_info s) (\<lambda>i.
       if scr_width i \<le> x \<or> scr_height i \<le> y then Done s
       else andthen (color_to_u32 c s) (\<lambda>pixel.
            andthen (pixel_index i x y) (\<lambda>k.
              mark_dirty x y 1 1 (s\<lparr>backbuffer := (backbuffer s)(k := pixel)\<rparr>))))"

text \<open>\<open>slice::fill\<close> on the \<open>n\<close> elements from \<open>start\<close>, and \<open>ptr::copy\<close> of \<open>n\<close> elements (as
  \<open>memmove\<close>: all is read before anything is written).\<close>

definition fill_slice :: "nat \<Rightarrow> nat \<Rightarrow> 'a \<Rightarrow> (nat \<Rightarrow> 'a) \<Rightarrow> nat \<Rightarrow> 'a" where
  "fill_slice start n v b = (\<lambda>k. if start \<le> k \<and> k < start + n then v else b k)"

definition copy_within :: "nat \<Rightarrow> nat \<Rightarrow> nat \<Rightarrow> (nat \<Rightarrow> 'a) \<Rightarrow> nat \<Rightarrow> 'a" where
  "copy_within src dst n b = (\<lambda>k. if dst \<le> k \<and> k < dst + n then b (src + (k - dst)) else b k)"

definition clear :: "color \<Rightarrow> framebuffer \<Rightarrow> framebuffer outcome" where
  "clear c s =
     andthen (get_info s) (\<lambda>i.
     andthen (color_to_u32 c s) (\<lambda>pixel.
     andthen (umul (scr_width i) (scr_height i)) (\<lambda>n.
       mark_dirty 0 0 (scr_width i) (scr_height i) (s\<lparr>backbuffer := fill_slice 0 n pixel (backbuffer s)\<rparr>))))"

definition draw_rect :: "nat \<Rightarrow> nat \<Rightarrow> nat \<Rightarrow> nat \<Rightarrow> color \<Rightarrow> framebuffer \<Rightarrow> framebuffer outcome" where
  "draw_rect x y w h c s =
     andthen (get_info s) (\<lambda>i.
       if w = 0 \<or> h = 0 then Done s
       else if scr_width i \<le> x \<or> scr_height i \<le> y then Done s
       else
         let end_x = min (sat_add x w) (scr_width i);
             end_y = min (sat_add y h) (scr_height i)
         in if end_x \<le> x \<or> end_y \<le> y then Done s
            else
              andthen (color_to_u32 c s) (\<lambda>pixel.
              andthen (for_each [y ..< end_y]
                (\<lambda>py b. andthen (pixel_index i x py) (\<lambda>k. Done (fill_slice k (end_x - x) pixel b)))
                (backbuffer s)) (\<lambda>b.
                mark_dirty x y (end_x - x) (end_y - y) (s\<lparr>backbuffer := b\<rparr>))))"

definition copy_rect ::
    "nat \<Rightarrow> nat \<Rightarrow> nat \<Rightarrow> nat \<Rightarrow> nat \<Rightarrow> nat \<Rightarrow> framebuffer \<Rightarrow> framebuffer outcome" where
  "copy_rect src_x src_y dst_x dst_y w0 h0 s =
     andthen (get_info s) (\<lambda>i.
       if w0 = 0 \<or> h0 = 0 then Done s
       else if scr_width i \<le> src_x \<or> scr_height i \<le> src_y \<or>
               scr_width i \<le> dst_x \<or> scr_height i \<le> dst_y then Done s
       else
         let w = min (min w0 (scr_width i - src_x)) (scr_width i - dst_x);
             h = min (min h0 (scr_height i - src_y)) (scr_height i - dst_y)
         in if w = 0 \<or> h = 0 then Done s
            else
              andthen (for_each [0 ..< h]
                (\<lambda>row b.
                   andthen (andthen (uadd src_y row) (\<lambda>sy. pixel_index i src_x sy)) (\<lambda>src.
                   andthen (andthen (uadd dst_y row) (\<lambda>dy. pixel_index i dst_x dy)) (\<lambda>dst.
                     Done (copy_within src dst w b))))
                (backbuffer s)) (\<lambda>b.
                mark_dirty dst_x dst_y w h (s\<lparr>backbuffer := b\<rparr>)))"

definition scroll_up :: "nat \<Rightarrow> color \<Rightarrow> framebuffer \<Rightarrow> framebuffer outcome" where
  "scroll_up pixels c s =
     andthen (get_info s) (\<lambda>i.
       if pixels = 0 then Done s
       else if scr_height i \<le> pixels then clear c s
       else
         andthen (copy_rect 0 pixels 0 0 (scr_width i) (scr_height i - pixels) s) (\<lambda>s1.
           draw_rect 0 (scr_height i - pixels) (scr_width i) pixels c s1))"

section \<open>Presenting\<close>

text \<open>The backbuffer read as bytes (little endian).\<close>

definition back_byte :: "(nat \<Rightarrow> 32 word) \<Rightarrow> nat \<Rightarrow> 8 word" where
  "back_byte b k = ucast (drop_bit (8 * (k mod 4)) (b (k div 4)))"

definition present :: "framebuffer \<Rightarrow> framebuffer outcome" where
  "present s =
     andthen (get_info s) (\<lambda>i.
       if \<not> dirty s then Done s
       else
         let min_x = dirty_min_x s; min_y = dirty_min_y s;
             max_x = dirty_max_x s; max_y = dirty_max_y s;
             s1 = s\<lparr>dirty := False\<rparr>
         in if max_x \<le> min_x \<or> max_y \<le> min_y then Done s1
            else
              andthen (umul (max_x - min_x) BYTES_PER_PIXEL) (\<lambda>row_size.
              andthen (for_each [min_y ..< max_y]
                (\<lambda>y f.
                   andthen (umul y (scr_width i)) (\<lambda>r.
                   andthen (umul r BYTES_PER_PIXEL) (\<lambda>r4.
                   andthen (umul min_x BYTES_PER_PIXEL) (\<lambda>x4.
                   andthen (uadd r4 x4) (\<lambda>src.
                   andthen (umul y (scr_pitch i)) (\<lambda>p.
                   andthen (uadd p x4) (\<lambda>dst.
                     Done (\<lambda>k. if dst \<le> k \<and> k < dst + row_size
                                then back_byte (backbuffer s) (src + (k - dst)) else f k))))))))
                (front s1)) (\<lambda>f.
                Done (s1\<lparr>front := f\<rparr>))))"

definition present_full :: "framebuffer \<Rightarrow> framebuffer outcome" where
  "present_full s =
     andthen (get_info s) (\<lambda>i.
     andthen (mark_dirty 0 0 (scr_width i) (scr_height i) s) (\<lambda>s1. present s1))"

definition fb_width :: "framebuffer \<Rightarrow> nat outcome" where
  "fb_width s = andthen (get_info s) (\<lambda>i. Done (scr_width i))"

definition fb_height :: "framebuffer \<Rightarrow> nat outcome" where
  "fb_height s = andthen (get_info s) (\<lambda>i. Done (scr_height i))"

definition fb_pitch :: "framebuffer \<Rightarrow> nat outcome" where
  "fb_pitch s = andthen (get_info s) (\<lambda>i. Done (scr_pitch i))"

section \<open>Initialisation\<close>

text \<open>What Limine answers: a framebuffer's geometry (all of it 64-bit or smaller numbers).\<close>

record limine_framebuffer =
  lf_width :: nat
  lf_height :: nat
  lf_pitch :: nat
  lf_bpp :: nat
  lf_red_shift :: nat
  lf_green_shift :: nat
  lf_blue_shift :: nat

definition fb_init :: "limine_framebuffer list option \<Rightarrow> framebuffer \<Rightarrow> framebuffer outcome" where
  "fb_init response s =
     (case response of
        None \<Rightarrow> Panic (Expect ''No framebuffer response'')
      | Some [] \<Rightarrow> Panic (Expect ''No framebuffer'')
      | Some (lf # _) \<Rightarrow>
          if lf_bpp lf \<noteq> 32 then Panic (Explicit ''Framebuffer must be 32bpp'')
          else if lf_width lf = 0 \<or> lf_height lf = 0 then
            Panic (Explicit ''Framebuffer has invalid dimensions'')
          else if MAX_WIDTH < lf_width lf then Panic (Explicit ''Framebuffer width too large'')
          else if MAX_HEIGHT < lf_height lf then Panic (Explicit ''Framebuffer height too large'')
          else
            let i = \<lparr>scr_width = lf_width lf, scr_height = lf_height lf, scr_pitch = lf_pitch lf,
                     red_shift = lf_red_shift lf, green_shift = lf_green_shift lf,
                     blue_shift = lf_blue_shift lf\<rparr>;
                s1 = s\<lparr>fb_info := Some i, dirty := False, dirty_min_x := 0, dirty_min_y := 0,
                       dirty_max_x := 0, dirty_max_y := 0\<rparr>
            in andthen (clear BLACK s1) (\<lambda>s2. present s2))"

section \<open>The screen as a picture\<close>

definition info_ok :: "info \<Rightarrow> bool" where
  "info_ok i \<longleftrightarrow> 0 < scr_width i \<and> scr_width i \<le> MAX_WIDTH \<and>
     0 < scr_height i \<and> scr_height i \<le> MAX_HEIGHT \<and>
     red_shift i < 32 \<and> green_shift i < 32 \<and> blue_shift i < 32 \<and>
     4 * scr_width i \<le> scr_pitch i \<and> scr_height i * scr_pitch i < usize_lim"

definition on_screen :: "info \<Rightarrow> nat \<Rightarrow> nat \<Rightarrow> bool" where
  "on_screen i x y \<longleftrightarrow> x < scr_width i \<and> y < scr_height i"

definition pixel_at :: "info \<Rightarrow> framebuffer \<Rightarrow> nat \<Rightarrow> nat \<Rightarrow> 32 word" where
  "pixel_at i s x y = backbuffer s (y * scr_width i + x)"

definition pixel_of :: "info \<Rightarrow> color \<Rightarrow> 32 word" where
  "pixel_of i c = push_bit (red_shift i) (ucast (red c)) OR
     push_bit (green_shift i) (ucast (green c)) OR push_bit (blue_shift i) (ucast (blue c))"

text \<open>The four bytes of a pixel in the hardware framebuffer are those of the backbuffer.\<close>

definition shown :: "info \<Rightarrow> framebuffer \<Rightarrow> nat \<Rightarrow> nat \<Rightarrow> bool" where
  "shown i s x y \<longleftrightarrow> (\<forall>c < 4. front s (y * scr_pitch i + 4 * x + c) =
     back_byte (backbuffer s) (4 * (y * scr_width i + x) + c))"

definition in_dirty :: "framebuffer \<Rightarrow> nat \<Rightarrow> nat \<Rightarrow> bool" where
  "in_dirty s x y \<longleftrightarrow> dirty s \<and> dirty_min_x s \<le> x \<and> x < dirty_max_x s \<and>
     dirty_min_y s \<le> y \<and> y < dirty_max_y s"

definition fb_inv :: "info \<Rightarrow> framebuffer \<Rightarrow> bool" where
  "fb_inv i s \<longleftrightarrow> fb_info s = Some i \<and> info_ok i \<and>
     (dirty s \<longrightarrow> dirty_min_x s < dirty_max_x s \<and> dirty_max_x s \<le> scr_width i \<and>
        dirty_min_y s < dirty_max_y s \<and> dirty_max_y s \<le> scr_height i)"

text \<open>Whatever is not on the screen yet lies in the dirty rectangle.\<close>

definition dirty_sound :: "info \<Rightarrow> framebuffer \<Rightarrow> bool" where
  "dirty_sound i s \<longleftrightarrow> (\<forall>x y. on_screen i x y \<longrightarrow> \<not> in_dirty s x y \<longrightarrow> shown i s x y)"

text \<open>
  The effect of a drawing operation: the pixels of the region \<open>A\<close> take the values \<open>f\<close>, all others
  stay, nothing beyond the last pixel is written, the hardware framebuffer is not touched, and
  the dirty rectangle grows by the region.
\<close>

definition drawn ::
    "info \<Rightarrow> (nat \<Rightarrow> nat \<Rightarrow> bool) \<Rightarrow> (nat \<Rightarrow> nat \<Rightarrow> 32 word) \<Rightarrow> framebuffer \<Rightarrow> framebuffer \<Rightarrow> bool" where
  "drawn i A f s s' \<longleftrightarrow> fb_inv i s' \<and> front s' = front s \<and>
     (\<forall>k. scr_width i * scr_height i \<le> k \<longrightarrow> backbuffer s' k = backbuffer s k) \<and>
     (\<forall>x y. on_screen i x y \<longrightarrow>
        pixel_at i s' x y = (if A x y then f x y else pixel_at i s x y)) \<and>
     (\<forall>x y. on_screen i x y \<longrightarrow> A x y \<or> in_dirty s x y \<longrightarrow> in_dirty s' x y)"

definition rect :: "nat \<Rightarrow> nat \<Rightarrow> nat \<Rightarrow> nat \<Rightarrow> nat \<Rightarrow> nat \<Rightarrow> bool" where
  "rect x y w h px py \<longleftrightarrow> x \<le> px \<and> px < x + w \<and> y \<le> py \<and> py < y + h"

section \<open>Indices\<close>

lemma get_info_inv: "fb_inv i s \<Longrightarrow> get_info s = Done i"
  by (simp add: fb_inv_def get_info_def)

lemma info_okD:
  assumes "info_ok i"
  shows "0 < scr_width i" "scr_width i \<le> 1920" "0 < scr_height i" "scr_height i \<le> 1080"
    "4 * scr_width i \<le> scr_pitch i" "scr_height i * scr_pitch i < usize_lim"
  using assms by (simp_all add: info_ok_def)

lemma fb_inv_ok: "fb_inv i s \<Longrightarrow> info_ok i"
  by (simp add: fb_inv_def)

lemma row_bound:
  assumes "(x :: nat) < w" and "y < h"
  shows "y * w + x < w * h"
proof -
  have "(y + 1) * w \<le> h * w" using assms(2) by (intro mult_le_mono1) simp
  then show ?thesis using assms(1) by (simp add: algebra_simps)
qed

lemma screen_size: "info_ok i \<Longrightarrow> scr_width i * scr_height i \<le> 2073600"
  using mult_le_mono [of "scr_width i" 1920 "scr_height i" 1080] by (simp add: info_ok_def)

lemma pixel_index_Done:
  assumes "info_ok i" and "x < scr_width i" and "y < scr_height i"
  shows "pixel_index i x y = Done (y * scr_width i + x)"
  using row_bound [OF assms(2,3)] screen_size [OF assms(1)]
  by (simp add: pixel_index_def)

lemma row_col:
  assumes "(x :: nat) < w" and "a + n \<le> w"
  shows "(py * w + a \<le> y * w + x \<and> y * w + x < py * w + a + n) \<longleftrightarrow> (y = py \<and> a \<le> x \<and> x < a + n)"
proof -
  consider "y < py" | "y = py" | "py < y" by linarith
  then show ?thesis
  proof cases
    case 1
    then have "(y + 1) * w \<le> py * w" by (intro mult_le_mono1) simp
    then show ?thesis using assms 1 by (simp add: algebra_simps)
  next
    case 3
    then have "(py + 1) * w \<le> y * w" by (intro mult_le_mono1) simp
    then show ?thesis using assms 3 by (simp add: algebra_simps)
  qed auto
qed

lemma color_to_u32_Done: "fb_inv i s \<Longrightarrow> color_to_u32 c s = Done (pixel_of i c)"
  by (simp add: color_to_u32_def get_info_inv pixel_of_def shl32_def fb_inv_def info_ok_def
      get_info_def)

section \<open>Each operation draws what it should\<close>

lemma mark_dirty_drawn:
  assumes inv: "fb_inv i s" and x: "x < scr_width i" "0 < w" "x + w \<le> scr_width i"
    and y: "y < scr_height i" "0 < h" "y + h \<le> scr_height i"
    and out: "\<And>k. scr_width i * scr_height i \<le> k \<Longrightarrow> b k = backbuffer s k"
    and pix: "\<And>px py. on_screen i px py \<Longrightarrow> b (py * scr_width i + px) =
      (if rect x y w h px py then f px py else pixel_at i s px py)"
  shows "\<exists>s'. mark_dirty x y w h (s\<lparr>backbuffer := b\<rparr>) = Done s' \<and> drawn i (rect x y w h) f s s'"
proof -
  have lim: "x + w < usize_lim" "y + h < usize_lim" using x y info_okD [OF fb_inv_ok [OF inv]] by auto
  have gi: "get_info (s\<lparr>backbuffer := b\<rparr>) = Done i" using inv by (simp add: fb_inv_def get_info_def)
  show ?thesis
    using gi x y lim inv out pix
    by (auto simp: mark_dirty_def sat_add_def Let_def drawn_def fb_inv_def pixel_at_def in_dirty_def
        rect_def on_screen_def)
qed

lemma fill_rows:
  assumes "info_ok i" and "x < scr_width i" and "y \<le> e" and "e \<le> scr_height i"
  shows "for_each [y ..< e]
      (\<lambda>py b. andthen (pixel_index i x py) (\<lambda>k. Done (fill_slice k n v b))) b =
    Done (\<lambda>k. if \<exists>py. y \<le> py \<and> py < e \<and> py * scr_width i + x \<le> k \<and> k < py * scr_width i + x + n
              then v else b k)"
  using assms(3,4)
proof (induction e rule: nat_induct_at_least)
  case (Suc e)
  have "pixel_index i x e = Done (e * scr_width i + x)"
    using assms(1,2) Suc.prems by (simp add: pixel_index_Done)
  moreover have "(\<exists>py. y \<le> py \<and> py < Suc e \<and> P py) \<longleftrightarrow> (\<exists>py. y \<le> py \<and> py < e \<and> P py) \<or> P e"
    for P using Suc.hyps by (auto simp: less_Suc_eq)
  ultimately show ?case
    using Suc.IH Suc.prems Suc.hyps by (simp add: for_each_append fill_slice_def fun_eq_iff) blast
qed (auto simp: fun_eq_iff)

lemma drawn_nothing:
  assumes "fb_inv i s" and "\<And>x y. on_screen i x y \<Longrightarrow> \<not> A x y"
  shows "drawn i A f s s"
  using assms by (simp add: drawn_def)

lemma drawn_cong:
  assumes "drawn i A f s s'" and "\<And>x y. on_screen i x y \<Longrightarrow> A' x y = A x y"
    and "\<And>x y. on_screen i x y \<Longrightarrow> A x y \<Longrightarrow> f' x y = f x y"
  shows "drawn i A' f' s s'"
  using assms by (simp add: drawn_def)

lemma draw_rect_drawn:
  assumes inv: "fb_inv i s"
  shows "\<exists>s'. draw_rect x y w h c s = Done s' \<and> drawn i (rect x y w h) (\<lambda>_ _. pixel_of i c) s s'"
proof (cases "w = 0 \<or> h = 0 \<or> scr_width i \<le> x \<or> scr_height i \<le> y")
  case True
  then have "\<not> rect x y w h px py" if "on_screen i px py" for px py
    using that by (auto simp: rect_def on_screen_def)
  then have "drawn i (rect x y w h) (\<lambda>_ _. pixel_of i c) s s" by (rule drawn_nothing [OF inv])
  then show ?thesis using True get_info_inv [OF inv] by (auto simp: draw_rect_def)
next
  case False
  note ok = fb_inv_ok [OF inv]
  let ?ex = "min (x + w) (scr_width i)" and ?ey = "min (y + h) (scr_height i)"
  have ends: "min (sat_add x w) (scr_width i) = ?ex" "min (sat_add y h) (scr_height i) = ?ey"
    "\<not> (?ex \<le> x \<or> ?ey \<le> y)"
    using info_okD [OF ok] False by (auto simp: sat_add_def)
  let ?b = "\<lambda>k. if \<exists>py. y \<le> py \<and> py < ?ey \<and> py * scr_width i + x \<le> k \<and>
      k < py * scr_width i + x + (?ex - x) then pixel_of i c else backbuffer s k"
  have rows: "for_each [y ..< ?ey]
      (\<lambda>py b. andthen (pixel_index i x py) (\<lambda>k. Done (fill_slice k (?ex - x) (pixel_of i c) b)))
      (backbuffer s) = Done ?b"
    using False by (intro fill_rows [OF ok]) auto
  have out: "?b k = backbuffer s k" if k: "scr_width i * scr_height i \<le> k" for k
  proof -
    have "py * scr_width i + x + (?ex - x) \<le> k" if py: "py < ?ey" for py
    proof -
      have "(py + 1) * scr_width i \<le> scr_height i * scr_width i"
        using py by (intro mult_le_mono1) simp
      moreover have "x + (?ex - x) \<le> scr_width i" using False by simp
      ultimately show ?thesis using k by (simp add: algebra_simps)
    qed
    then have "\<not> (\<exists>py. y \<le> py \<and> py < ?ey \<and> py * scr_width i + x \<le> k \<and>
        k < py * scr_width i + x + (?ex - x))" by (meson linorder_not_less)
    then show ?thesis by (simp only: if_False)
  qed
  have pix: "?b (py * scr_width i + px) =
      (if rect x y (?ex - x) (?ey - y) px py then pixel_of i c else pixel_at i s px py)"
    if on: "on_screen i px py" for px py
  proof -
    have "x + (?ex - x) \<le> scr_width i" using False by simp
    then have "(\<exists>q. y \<le> q \<and> q < ?ey \<and> q * scr_width i + x \<le> py * scr_width i + px \<and>
        py * scr_width i + px < q * scr_width i + x + (?ex - x)) \<longleftrightarrow>
        y \<le> py \<and> py < ?ey \<and> x \<le> px \<and> px < x + (?ex - x)"
      using row_col [of px "scr_width i" x "?ex - x" _ py] on
      by (simp only: on_screen_def) blast
    moreover have "py < y + (?ey - y) \<longleftrightarrow> py < ?ey" using False by simp
    ultimately show ?thesis by (auto simp: rect_def pixel_at_def)
  qed
  have "\<exists>s'. mark_dirty x y (?ex - x) (?ey - y) (s\<lparr>backbuffer := ?b\<rparr>) = Done s' \<and>
      drawn i (rect x y (?ex - x) (?ey - y)) (\<lambda>_ _. pixel_of i c) s s'"
    using False out pix by (intro mark_dirty_drawn [OF inv]) auto
  then obtain s' where s': "mark_dirty x y (?ex - x) (?ey - y) (s\<lparr>backbuffer := ?b\<rparr>) = Done s'"
    "drawn i (rect x y (?ex - x) (?ey - y)) (\<lambda>_ _. pixel_of i c) s s'" by blast
  have "draw_rect x y w h c s = Done s'"
    using False ends rows s'(1) get_info_inv [OF inv] color_to_u32_Done [OF inv]
    by (simp add: draw_rect_def Let_def)
  moreover have "drawn i (rect x y w h) (\<lambda>_ _. pixel_of i c) s s'"
    by (rule drawn_cong [OF s'(2)]) (auto simp: rect_def on_screen_def)
  ultimately show ?thesis by blast
qed

lemma clear_drawn:
  assumes inv: "fb_inv i s"
  shows "\<exists>s'. clear c s = Done s' \<and> drawn i (\<lambda>_ _. True) (\<lambda>_ _. pixel_of i c) s s'"
proof -
  note ok = fb_inv_ok [OF inv] and d = info_okD [OF fb_inv_ok [OF inv]]
  let ?b = "fill_slice 0 (scr_width i * scr_height i) (pixel_of i c) (backbuffer s)"
  have pix: "?b (py * scr_width i + px) = (if rect 0 0 (scr_width i) (scr_height i) px py
      then pixel_of i c else pixel_at i s px py)" if "on_screen i px py" for px py
    using that row_bound [of px "scr_width i" py "scr_height i"]
    by (simp add: fill_slice_def on_screen_def rect_def)
  have "\<exists>s'. mark_dirty 0 0 (scr_width i) (scr_height i) (s\<lparr>backbuffer := ?b\<rparr>) = Done s' \<and>
      drawn i (rect 0 0 (scr_width i) (scr_height i)) (\<lambda>_ _. pixel_of i c) s s'"
    using d pix by (intro mark_dirty_drawn [OF inv]) (auto simp: fill_slice_def)
  then obtain s' where s': "mark_dirty 0 0 (scr_width i) (scr_height i) (s\<lparr>backbuffer := ?b\<rparr>) = Done s'"
    "drawn i (rect 0 0 (scr_width i) (scr_height i)) (\<lambda>_ _. pixel_of i c) s s'" by blast
  have "clear c s = Done s'"
    using s'(1) get_info_inv [OF inv] color_to_u32_Done [OF inv] screen_size [OF ok]
    by (simp add: clear_def)
  moreover have "drawn i (\<lambda>_ _. True) (\<lambda>_ _. pixel_of i c) s s'"
    by (rule drawn_cong [OF s'(2)]) (auto simp: rect_def on_screen_def)
  ultimately show ?thesis by blast
qed

lemma put_pixel_drawn:
  assumes inv: "fb_inv i s"
  shows "\<exists>s'. put_pixel x y c s = Done s' \<and>
    drawn i (\<lambda>px py. px = x \<and> py = y) (\<lambda>_ _. pixel_of i c) s s'"
proof (cases "scr_width i \<le> x \<or> scr_height i \<le> y")
  case True
  then have "drawn i (\<lambda>px py. px = x \<and> py = y) (\<lambda>_ _. pixel_of i c) s s"
    by (intro drawn_nothing [OF inv]) (auto simp: on_screen_def)
  then show ?thesis using True get_info_inv [OF inv] by (auto simp: put_pixel_def)
next
  case False
  note ok = fb_inv_ok [OF inv]
  let ?b = "(backbuffer s)(y * scr_width i + x := pixel_of i c)"
  have pix: "?b (py * scr_width i + px) =
      (if rect x y 1 1 px py then pixel_of i c else pixel_at i s px py)" if "on_screen i px py" for px py
    using that row_col [of px "scr_width i" x 1 y py] False
    by (auto simp: on_screen_def rect_def pixel_at_def)
  have "\<exists>s'. mark_dirty x y 1 1 (s\<lparr>backbuffer := ?b\<rparr>) = Done s' \<and>
      drawn i (rect x y 1 1) (\<lambda>_ _. pixel_of i c) s s'"
    using False pix row_bound [of x "scr_width i" y "scr_height i"]
    by (intro mark_dirty_drawn [OF inv]) auto
  then obtain s' where s': "mark_dirty x y 1 1 (s\<lparr>backbuffer := ?b\<rparr>) = Done s'"
    "drawn i (rect x y 1 1) (\<lambda>_ _. pixel_of i c) s s'" by blast
  have "put_pixel x y c s = Done s'"
    using s'(1) False get_info_inv [OF inv] color_to_u32_Done [OF inv] pixel_index_Done [OF ok]
    by (simp add: put_pixel_def)
  moreover have "drawn i (\<lambda>px py. px = x \<and> py = y) (\<lambda>_ _. pixel_of i c) s s'"
    by (rule drawn_cong [OF s'(2)]) (auto simp: rect_def)
  ultimately show ?thesis by blast
qed

section \<open>Copying\<close>

text \<open>
  A copy moves every pixel of the source rectangle that has both ends on the screen. It acts as a
  simultaneous copy unless source and destination overlap and the copy goes down.
\<close>

definition copy_region :: "info \<Rightarrow> nat \<Rightarrow> nat \<Rightarrow> nat \<Rightarrow> nat \<Rightarrow> nat \<Rightarrow> nat \<Rightarrow> nat \<Rightarrow> nat \<Rightarrow> bool" where
  "copy_region i sx sy dx dy w h x y \<longleftrightarrow>
     rect dx dy w h x y \<and> on_screen i (x - dx + sx) (y - dy + sy)"

definition copy_ok :: "nat \<Rightarrow> nat \<Rightarrow> nat \<Rightarrow> nat \<Rightarrow> nat \<Rightarrow> nat \<Rightarrow> bool" where
  "copy_ok sx sy dx dy w h \<longleftrightarrow> dy \<le> sy \<or> sy + h \<le> dy \<or> sx + w \<le> dx \<or> dx + w \<le> sx"

lemma copy_ok_mono: "copy_ok sx sy dx dy w h \<Longrightarrow> w' \<le> w \<Longrightarrow> h' \<le> h \<Longrightarrow> copy_ok sx sy dx dy w' h'"
  by (auto simp: copy_ok_def)

lemma copy_rows:
  assumes ok: "info_ok i" and "sx + w \<le> scr_width i" and "dx + w \<le> scr_width i" and "0 < w"
    and "sy + h \<le> scr_height i" and "dy + h \<le> scr_height i" and c: "copy_ok sx sy dx dy w h"
    and "r \<le> h"
  shows "\<exists>b'. for_each [0 ..< r]
      (\<lambda>row b.
         andthen (andthen (uadd sy row) (\<lambda>y. pixel_index i sx y)) (\<lambda>src.
         andthen (andthen (uadd dy row) (\<lambda>y. pixel_index i dx y)) (\<lambda>dst.
           Done (copy_within src dst w b)))) b = Done b' \<and>
    (\<forall>k. scr_width i * scr_height i \<le> k \<longrightarrow> b' k = b k) \<and>
    (\<forall>x y. on_screen i x y \<longrightarrow> b' (y * scr_width i + x) =
       (if rect dx dy w r x y then b ((y - dy + sy) * scr_width i + (x - dx + sx))
        else b (y * scr_width i + x)))"
  using assms(8)
proof (induction r)
  case 0
  then show ?case by (auto simp: rect_def)
next
  case (Suc r)
  let ?W = "scr_width i"
  let ?body = "\<lambda>row b.
         andthen (andthen (uadd sy row) (\<lambda>y. pixel_index i sx y)) (\<lambda>src.
         andthen (andthen (uadd dy row) (\<lambda>y. pixel_index i dx y)) (\<lambda>dst.
           Done (copy_within src dst w b)))"
  note d = info_okD [OF ok]
  obtain b1 where b1: "for_each [0 ..< r] ?body b = Done b1"
    and out: "\<And>k. ?W * scr_height i \<le> k \<Longrightarrow> b1 k = b k"
    and pix: "\<And>x y. on_screen i x y \<Longrightarrow> b1 (y * ?W + x) =
       (if rect dx dy w r x y then b ((y - dy + sy) * ?W + (x - dx + sx)) else b (y * ?W + x))"
    using Suc.IH Suc.prems by auto
  let ?src = "(sy + r) * ?W + sx" and ?dst = "(dy + r) * ?W + dx"
  let ?b2 = "copy_within ?src ?dst w b1"
  have rows: "sy + r < scr_height i" "dy + r < scr_height i" using Suc.prems assms(5,6) by simp_all
  have "pixel_index i sx (sy + r) = Done ?src" "pixel_index i dx (dy + r) = Done ?dst"
    using rows assms(2-4) by (auto intro!: pixel_index_Done [OF ok])
  then have "for_each [0 ..< Suc r] ?body b = Done ?b2"
    using b1 rows d by (simp add: for_each_append)
  moreover have "?b2 k = b k" if k: "?W * scr_height i \<le> k" for k
  proof -
    have "(dy + r + 1) * ?W \<le> scr_height i * ?W" using rows by (intro mult_le_mono1) simp
    then have "?dst + w \<le> k" using k assms(3) by (simp add: algebra_simps)
    then show ?thesis using out [OF k] by (simp add: copy_within_def)
  qed
  moreover have "?b2 (y * ?W + x) = (if rect dx dy w (Suc r) x y
      then b ((y - dy + sy) * ?W + (x - dx + sx)) else b (y * ?W + x))" if on: "on_screen i x y" for x y
  proof (cases "y = dy + r \<and> dx \<le> x \<and> x < dx + w")
    case True
    have "?dst \<le> y * ?W + x \<and> y * ?W + x < ?dst + w"
      using row_col [of x ?W dx w "dy + r" y] on True assms(3) by (simp add: on_screen_def)
    moreover have "?src + (y * ?W + x - ?dst) = (sy + r) * ?W + (x - dx + sx)"
      using True by simp
    moreover have on': "on_screen i (x - dx + sx) (sy + r)"
      using rows True assms(2) by (auto simp: on_screen_def)
    moreover have "\<not> rect dx dy w r (x - dx + sx) (sy + r)"
      using c True Suc.prems by (auto simp: copy_ok_def rect_def)
    ultimately have "?b2 (y * ?W + x) = b ((sy + r) * ?W + (x - dx + sx))"
      using pix [OF on'] by (simp add: copy_within_def)
    then show ?thesis using True by (simp add: rect_def add.commute)
  next
    case False
    have "\<not> (?dst \<le> y * ?W + x \<and> y * ?W + x < ?dst + w)"
      using row_col [of x ?W dx w "dy + r" y] on False assms(3) by (simp add: on_screen_def)
    then have "?b2 (y * ?W + x) = b1 (y * ?W + x)" by (simp only: copy_within_def if_False)
    moreover have "rect dx dy w (Suc r) x y \<longleftrightarrow> rect dx dy w r x y"
      using False by (auto simp: rect_def)
    ultimately show ?thesis using pix [OF on] by (simp only:)
  qed
  ultimately show ?case by blast
qed

lemma clip_range:
  "x < W \<Longrightarrow> dx \<le> x \<and> x < dx + min (min w (W - sx)) (W - dx) \<longleftrightarrow>
     dx \<le> x \<and> x < dx + w \<and> x - dx + sx < (W :: nat)"
  by arith

lemma copy_rect_drawn:
  assumes inv: "fb_inv i s" and c: "copy_ok sx sy dx dy w h"
  shows "\<exists>s'. copy_rect sx sy dx dy w h s = Done s' \<and>
    drawn i (copy_region i sx sy dx dy w h) (\<lambda>x y. pixel_at i s (x - dx + sx) (y - dy + sy)) s s'"
proof (cases "w = 0 \<or> h = 0 \<or> scr_width i \<le> sx \<or> scr_height i \<le> sy \<or>
    scr_width i \<le> dx \<or> scr_height i \<le> dy")
  case True
  then have "drawn i (copy_region i sx sy dx dy w h)
      (\<lambda>x y. pixel_at i s (x - dx + sx) (y - dy + sy)) s s"
    by (intro drawn_nothing [OF inv]) (auto simp: copy_region_def rect_def on_screen_def)
  then show ?thesis using True get_info_inv [OF inv] by (auto simp: copy_rect_def)
next
  case False
  note ok = fb_inv_ok [OF inv]
  let ?w = "min (min w (scr_width i - sx)) (scr_width i - dx)"
  let ?h = "min (min h (scr_height i - sy)) (scr_height i - dy)"
  have c': "copy_ok sx sy dx dy ?w ?h" by (rule copy_ok_mono [OF c]) auto
  have bounds: "sx + ?w \<le> scr_width i" "dx + ?w \<le> scr_width i" "0 < ?w"
    "sy + ?h \<le> scr_height i" "dy + ?h \<le> scr_height i" using False by auto
  have hb: "dx < scr_width i" "dy < scr_height i" "0 < ?h" using False by auto
  obtain b' where b': "for_each [0 ..< ?h]
      (\<lambda>row b.
         andthen (andthen (uadd sy row) (\<lambda>y. pixel_index i sx y)) (\<lambda>src.
         andthen (andthen (uadd dy row) (\<lambda>y. pixel_index i dx y)) (\<lambda>dst.
           Done (copy_within src dst ?w b)))) (backbuffer s) = Done b'"
    and out: "\<forall>k. scr_width i * scr_height i \<le> k \<longrightarrow> b' k = backbuffer s k"
    and pix: "\<forall>x y. on_screen i x y \<longrightarrow> b' (y * scr_width i + x) =
       (if rect dx dy ?w ?h x y then backbuffer s ((y - dy + sy) * scr_width i + (x - dx + sx))
        else backbuffer s (y * scr_width i + x))"
    using copy_rows [OF ok bounds c' order_refl, of "backbuffer s"] by (elim exE conjE)
  have "\<exists>s'. mark_dirty dx dy ?w ?h (s\<lparr>backbuffer := b'\<rparr>) = Done s' \<and>
      drawn i (rect dx dy ?w ?h) (\<lambda>x y. pixel_at i s (x - dx + sx) (y - dy + sy)) s s'"
  proof (rule mark_dirty_drawn [OF inv hb(1) bounds(3,2) hb(2,3) bounds(5)])
    show "b' k = backbuffer s k" if "scr_width i * scr_height i \<le> k" for k
      using out that by blast
    show "b' (py * scr_width i + px) = (if rect dx dy ?w ?h px py
        then pixel_at i s (px - dx + sx) (py - dy + sy) else pixel_at i s px py)"
      if "on_screen i px py" for px py
      using pix [rule_format, OF that] by (simp only: pixel_at_def)
  qed
  then obtain s' where s': "mark_dirty dx dy ?w ?h (s\<lparr>backbuffer := b'\<rparr>) = Done s'"
    "drawn i (rect dx dy ?w ?h) (\<lambda>x y. pixel_at i s (x - dx + sx) (y - dy + sy)) s s'" by blast
  have guards: "\<not> (w = 0 \<or> h = 0)" "\<not> (?w = 0 \<or> ?h = 0)"
    "\<not> (scr_width i \<le> sx \<or> scr_height i \<le> sy \<or> scr_width i \<le> dx \<or> scr_height i \<le> dy)"
    using False bounds(3) hb(3) by auto
  have "copy_rect sx sy dx dy w h s = Done s'"
    by (simp only: copy_rect_def Let_def get_info_inv [OF inv] andthen.simps guards if_False b' s'(1))
  moreover have "drawn i (copy_region i sx sy dx dy w h)
      (\<lambda>x y. pixel_at i s (x - dx + sx) (y - dy + sy)) s s'"
  proof (rule drawn_cong [OF s'(2) _ refl])
    show "copy_region i sx sy dx dy w h x y = rect dx dy ?w ?h x y" if "on_screen i x y" for x y
      using that clip_range [of x "scr_width i" dx w sx] clip_range [of y "scr_height i" dy h sy]
      by (auto simp: rect_def on_screen_def copy_region_def)
  qed
  ultimately show ?thesis by blast
qed

lemma drawn_trans:
  assumes "drawn i A f s s1" and "drawn i B g s1 s2"
  shows "drawn i (\<lambda>x y. A x y \<or> B x y) (\<lambda>x y. if B x y then g x y else f x y) s s2"
  using assms unfolding drawn_def by simp

text \<open>The picture after scrolling.\<close>

definition scrolled :: "info \<Rightarrow> nat \<Rightarrow> color \<Rightarrow> framebuffer \<Rightarrow> nat \<Rightarrow> nat \<Rightarrow> 32 word" where
  "scrolled i n c s x y =
     (if y + n < scr_height i then pixel_at i s x (y + n) else pixel_of i c)"

lemma scroll_up_drawn:
  assumes inv: "fb_inv i s"
  shows "\<exists>s'. scroll_up n c s = Done s' \<and> drawn i (\<lambda>_ _. 0 < n) (scrolled i n c s) s s'"
proof -
  consider "n = 0" | "0 < n" "scr_height i \<le> n" | "0 < n" "n < scr_height i" by linarith
  then show ?thesis
  proof cases
    case 1
    then show ?thesis
      using drawn_nothing [OF inv] get_info_inv [OF inv] by (auto simp: scroll_up_def)
  next
    case 2
    obtain s' where s': "clear c s = Done s'" "drawn i (\<lambda>_ _. True) (\<lambda>_ _. pixel_of i c) s s'"
      using clear_drawn [OF inv] by blast
    have "drawn i (\<lambda>_ _. 0 < n) (scrolled i n c s) s s'"
      by (rule drawn_cong [OF s'(2)]) (use 2 in \<open>auto simp: scrolled_def\<close>)
    then show ?thesis using 2 s'(1) get_info_inv [OF inv] by (auto simp: scroll_up_def)
  next
    case 3
    let ?h = "scr_height i - n"
    have ok: "copy_ok 0 n 0 0 (scr_width i) ?h" by (simp add: copy_ok_def)
    obtain s1 where s1: "copy_rect 0 n 0 0 (scr_width i) ?h s = Done s1"
      "drawn i (copy_region i 0 n 0 0 (scr_width i) ?h) (\<lambda>x y. pixel_at i s (x - 0 + 0) (y - 0 + n)) s s1"
      using copy_rect_drawn [OF inv ok] by blast
    have inv1: "fb_inv i s1" using s1(2) by (simp add: drawn_def)
    obtain s2 where s2: "draw_rect 0 ?h (scr_width i) n c s1 = Done s2"
      "drawn i (rect 0 ?h (scr_width i) n) (\<lambda>_ _. pixel_of i c) s1 s2"
      using draw_rect_drawn [OF inv1] by blast
    have "drawn i (\<lambda>_ _. 0 < n) (scrolled i n c s) s s2"
      by (rule drawn_cong [OF drawn_trans [OF s1(2) s2(2)]])
        (use 3 in \<open>auto simp: copy_region_def rect_def on_screen_def scrolled_def\<close>)
    then show ?thesis
      using 3 s1(1) s2(1) get_info_inv [OF inv] by (auto simp: scroll_up_def)
  qed
qed

section \<open>Presenting shows the backbuffer\<close>

lemma present_rows:
  assumes ok: "info_ok i" and "m \<le> e" and "e \<le> scr_height i" and "mx + n \<le> scr_width i"
  shows "\<exists>f'. for_each [m ..< e]
      (\<lambda>y f.
         andthen (umul y (scr_width i)) (\<lambda>r.
         andthen (umul r BYTES_PER_PIXEL) (\<lambda>r4.
         andthen (umul mx BYTES_PER_PIXEL) (\<lambda>x4.
         andthen (uadd r4 x4) (\<lambda>src.
         andthen (umul y (scr_pitch i)) (\<lambda>p.
         andthen (uadd p x4) (\<lambda>dst.
           Done (\<lambda>k. if dst \<le> k \<and> k < dst + n * 4 then back_byte b (src + (k - dst)) else f k))))))))
      f = Done f' \<and>
    (\<forall>k. scr_height i * scr_pitch i \<le> k \<longrightarrow> f' k = f k) \<and>
    (\<forall>y j. y < scr_height i \<longrightarrow> j < scr_pitch i \<longrightarrow> f' (y * scr_pitch i + j) =
       (if m \<le> y \<and> y < e \<and> 4 * mx \<le> j \<and> j < 4 * mx + n * 4
        then back_byte b (y * scr_width i * 4 + j) else f (y * scr_pitch i + j)))"
    (is "\<exists>f'. for_each _ ?body f = _ \<and> _")
  using assms(2,3)
proof (induction e rule: nat_induct_at_least)
  case base
  then show ?case by auto
next
  case (Suc e)
  let ?W = "scr_width i" and ?P = "scr_pitch i" and ?H = "scr_height i"
  note d = info_okD [OF ok]
  obtain f1 where f1: "for_each [m ..< e] ?body f = Done f1"
    and out: "\<And>k. ?H * ?P \<le> k \<Longrightarrow> f1 k = f k"
    and pix: "\<And>y j. y < ?H \<Longrightarrow> j < ?P \<Longrightarrow> f1 (y * ?P + j) =
       (if m \<le> y \<and> y < e \<and> 4 * mx \<le> j \<and> j < 4 * mx + n * 4
        then back_byte b (y * ?W * 4 + j) else f (y * ?P + j))"
    using Suc.IH Suc.prems by auto
  let ?dst = "e * ?P + mx * 4"
  let ?f2 = "\<lambda>k. if ?dst \<le> k \<and> k < ?dst + n * 4
    then back_byte b (e * ?W * 4 + mx * 4 + (k - ?dst)) else f1 k"
  have e: "e < ?H" using Suc.prems by simp
  have x4: "mx * 4 + n * 4 \<le> ?P" using assms(4) d by simp
  have "(e + 1) * ?P \<le> ?H * ?P" using e by (intro mult_le_mono1) simp
  then have dst: "?dst + n * 4 \<le> ?H * ?P" using x4 by simp
  have "e * ?W \<le> ?H * ?W" using e by (intro mult_le_mono1) simp
  then have eW: "e * ?W \<le> 2073600"
    using screen_size [OF ok] by (metis mult.commute order_trans)
  have "?body e f1 = Done ?f2"
    using eW assms(4) d dst by (simp add: fun_eq_iff)
  then have "for_each [m ..< Suc e] ?body f = Done ?f2"
    using f1 Suc.hyps by (simp add: for_each_append)
  moreover have "?f2 k = f k" if "?H * ?P \<le> k" for k
    using that dst out [OF that] by simp
  moreover have "?f2 (y * ?P + j) = (if m \<le> y \<and> y < Suc e \<and> 4 * mx \<le> j \<and> j < 4 * mx + n * 4
      then back_byte b (y * ?W * 4 + j) else f (y * ?P + j))" if y: "y < ?H" and j: "j < ?P" for y j
  proof (cases "y = e \<and> mx * 4 \<le> j \<and> j < mx * 4 + n * 4")
    case True
    then have "?dst \<le> y * ?P + j \<and> y * ?P + j < ?dst + n * 4"
      using row_col [OF j x4, of e y] by simp
    moreover have "e * ?W * 4 + mx * 4 + (y * ?P + j - ?dst) = y * ?W * 4 + j"
      using True by simp
    ultimately have "?f2 (y * ?P + j) = back_byte b (y * ?W * 4 + j)" by (simp only: if_True simp_thms)
    then show ?thesis using True Suc.hyps by simp
  next
    case False
    then have "\<not> (?dst \<le> y * ?P + j \<and> y * ?P + j < ?dst + n * 4)"
      using row_col [OF j x4, of e y] by simp
    then have "?f2 (y * ?P + j) = f1 (y * ?P + j)" by (simp only: if_False)
    then show ?thesis using pix [OF y j] False Suc.hyps by (auto simp: mult.commute less_Suc_eq)
  qed
  ultimately show ?case by blast
qed

lemma mult4_split: "y * w * 4 + (4 * x + c) = 4 * (y * w + x) + (c :: nat)"
  by (simp add: algebra_simps)

lemma present_spec:
  assumes inv: "fb_inv i s"
  shows "\<exists>s'. present s = Done s' \<and> fb_inv i s' \<and> \<not> dirty s' \<and> backbuffer s' = backbuffer s \<and>
    (\<forall>x y. on_screen i x y \<longrightarrow> in_dirty s x y \<or> shown i s x y \<longrightarrow> shown i s' x y) \<and>
    (\<forall>k. scr_height i * scr_pitch i \<le> k \<longrightarrow> front s' k = front s k)"
proof (cases "dirty s")
  case False
  then show ?thesis
    using inv by (auto simp: present_def get_info_inv in_dirty_def)
next
  case True
  note ok = fb_inv_ok [OF inv]
  note d = info_okD [OF ok]
  have r: "dirty_min_x s < dirty_max_x s" "dirty_max_x s \<le> scr_width i"
    "dirty_min_y s < dirty_max_y s" "dirty_max_y s \<le> scr_height i"
    using inv True by (simp_all add: fb_inv_def)
  let ?n = "dirty_max_x s - dirty_min_x s"
  have b: "dirty_min_y s \<le> dirty_max_y s" "dirty_max_y s \<le> scr_height i"
    "dirty_min_x s + ?n \<le> scr_width i" using r by simp_all
  let ?loop = "for_each [dirty_min_y s ..< dirty_max_y s]
      (\<lambda>y f.
         andthen (umul y (scr_width i)) (\<lambda>r.
         andthen (umul r BYTES_PER_PIXEL) (\<lambda>r4.
         andthen (umul (dirty_min_x s) BYTES_PER_PIXEL) (\<lambda>x4.
         andthen (uadd r4 x4) (\<lambda>src.
         andthen (umul y (scr_pitch i)) (\<lambda>p.
         andthen (uadd p x4) (\<lambda>dst.
           Done (\<lambda>k. if dst \<le> k \<and> k < dst + ?n * 4
                      then back_byte (backbuffer s) (src + (k - dst)) else f k))))))))
      (front s)"
  obtain f' where f': "?loop = Done f'"
    and out: "\<forall>k. scr_height i * scr_pitch i \<le> k \<longrightarrow> f' k = front s k"
    and pix: "\<forall>y j. y < scr_height i \<longrightarrow> j < scr_pitch i \<longrightarrow> f' (y * scr_pitch i + j) =
       (if dirty_min_y s \<le> y \<and> y < dirty_max_y s \<and> 4 * dirty_min_x s \<le> j \<and> j < 4 * dirty_min_x s + ?n * 4
        then back_byte (backbuffer s) (y * scr_width i * 4 + j) else front s (y * scr_pitch i + j))"
    using present_rows [OF ok b, of "backbuffer s" "front s"] by (elim exE conjE)
  let ?s' = "s\<lparr>dirty := False, front := f'\<rparr>"
  have guards: "\<not> \<not> dirty s" "\<not> (dirty_max_x s \<le> dirty_min_x s \<or> dirty_max_y s \<le> dirty_min_y s)"
    using True r by auto
  have n4: "umul ?n 4 = Done (?n * 4)" using r d by simp
  have fs: "front (s\<lparr>dirty := False\<rparr>) = front s" by simp
  have pr: "present s = Done ?s'"
    by (simp only: present_def Let_def get_info_inv [OF inv] andthen.simps guards if_False n4 fs f')
  have sh: "shown i ?s' x y" if on: "on_screen i x y" and c: "in_dirty s x y \<or> shown i s x y" for x y
    unfolding shown_def
  proof (intro allI impI)
    fix c :: nat assume c4: "c < 4"
    have y: "y < scr_height i" and j: "4 * x + c < scr_pitch i"
      using on c4 d by (auto simp: on_screen_def)
    have "4 * dirty_min_x s \<le> 4 * x + c \<and> 4 * x + c < 4 * dirty_min_x s + ?n * 4 \<longleftrightarrow>
        dirty_min_x s \<le> x \<and> x < dirty_max_x s" using c4 r by auto
    then have "f' (y * scr_pitch i + (4 * x + c)) =
        (if in_dirty s x y then back_byte (backbuffer s) (y * scr_width i * 4 + (4 * x + c))
         else front s (y * scr_pitch i + (4 * x + c)))"
      using pix [rule_format, OF y j] True by (auto simp: in_dirty_def)
    moreover have "front s (y * scr_pitch i + (4 * x + c)) =
        back_byte (backbuffer s) (4 * (y * scr_width i + x) + c)" if "shown i s x y"
      using that c4 by (simp add: shown_def add.assoc)
    ultimately show "front ?s' (y * scr_pitch i + 4 * x + c) =
        back_byte (backbuffer ?s') (4 * (y * scr_width i + x) + c)"
      using c by (auto simp: mult4_split add.assoc)
  qed
  have "fb_inv i ?s'" using inv by (simp add: fb_inv_def)
  then show ?thesis using pr sh out by (intro exI [of _ ?s']) auto
qed

section \<open>Sequences of drawing calls\<close>

datatype draw_cmd =
    PutPixel nat nat color
  | Clear color
  | DrawRect nat nat nat nat color
  | CopyRect nat nat nat nat nat nat
  | ScrollUp nat color
  | Present
  | PresentFull

primrec draw_exec :: "draw_cmd \<Rightarrow> framebuffer \<Rightarrow> framebuffer outcome" where
  "draw_exec (PutPixel x y c) s = put_pixel x y c s"
| "draw_exec (Clear c) s = clear c s"
| "draw_exec (DrawRect x y w h c) s = draw_rect x y w h c s"
| "draw_exec (CopyRect sx sy dx dy w h) s = copy_rect sx sy dx dy w h s"
| "draw_exec (ScrollUp n c) s = scroll_up n c s"
| "draw_exec Present s = present s"
| "draw_exec PresentFull s = present_full s"

text \<open>What the calls mean on a picture without a buffer, clipping or a dirty rectangle.\<close>

type_synonym picture = "nat \<Rightarrow> nat \<Rightarrow> 32 word"

primrec spec_draw :: "info \<Rightarrow> draw_cmd \<Rightarrow> picture \<Rightarrow> picture" where
  "spec_draw i (PutPixel x y c) p = (\<lambda>px py. if px = x \<and> py = y then pixel_of i c else p px py)"
| "spec_draw i (Clear c) p = (\<lambda>_ _. pixel_of i c)"
| "spec_draw i (DrawRect x y w h c) p =
     (\<lambda>px py. if rect x y w h px py then pixel_of i c else p px py)"
| "spec_draw i (CopyRect sx sy dx dy w h) p =
     (\<lambda>px py. if copy_region i sx sy dx dy w h px py then p (px - dx + sx) (py - dy + sy) else p px py)"
| "spec_draw i (ScrollUp n c) p =
     (\<lambda>px py. if n = 0 then p px py
              else if py + n < scr_height i then p px (py + n) else pixel_of i c)"
| "spec_draw i Present p = p"
| "spec_draw i PresentFull p = p"

primrec cmd_ok :: "draw_cmd \<Rightarrow> bool" where
  "cmd_ok (PutPixel x y c) = True"
| "cmd_ok (Clear c) = True"
| "cmd_ok (DrawRect x y w h c) = True"
| "cmd_ok (CopyRect sx sy dx dy w h) = copy_ok sx sy dx dy w h"
| "cmd_ok (ScrollUp n c) = True"
| "cmd_ok Present = True"
| "cmd_ok PresentFull = True"

definition shows_picture :: "info \<Rightarrow> picture \<Rightarrow> framebuffer \<Rightarrow> bool" where
  "shows_picture i p s \<longleftrightarrow> (\<forall>x y. on_screen i x y \<longrightarrow> pixel_at i s x y = p x y)"

text \<open>Nothing outside the two buffers is written.\<close>

definition in_bounds :: "info \<Rightarrow> framebuffer \<Rightarrow> framebuffer \<Rightarrow> bool" where
  "in_bounds i s s' \<longleftrightarrow>
     (\<forall>k. scr_width i * scr_height i \<le> k \<longrightarrow> backbuffer s' k = backbuffer s k) \<and>
     (\<forall>k. scr_height i * scr_pitch i \<le> k \<longrightarrow> front s' k = front s k)"

lemma back_byte_pixel: "c < 4 \<Longrightarrow> back_byte b (4 * k + c) = ucast (drop_bit (8 * c) (b k))"
  by (simp add: back_byte_def)

lemma shown_cong:
  assumes "front s' = front s" and "pixel_at i s' x y = pixel_at i s x y"
  shows "shown i s' x y = shown i s x y"
proof -
  have "back_byte (backbuffer s') (4 * (y * scr_width i + x) + c) =
      back_byte (backbuffer s) (4 * (y * scr_width i + x) + c)" if "c < 4" for c
    using that assms(2) by (simp only: back_byte_pixel pixel_at_def)
  then show ?thesis using assms(1) by (simp add: shown_def)
qed

lemma drawn_dirty_sound: "drawn i A f s s' \<Longrightarrow> dirty_sound i s \<Longrightarrow> dirty_sound i s'"
  unfolding dirty_sound_def drawn_def by (metis shown_cong)

lemma drawn_picture:
  "drawn i A f s s' \<Longrightarrow> shows_picture i p s \<Longrightarrow>
     shows_picture i (\<lambda>x y. if A x y then f x y else p x y) s'"
  by (auto simp: drawn_def shows_picture_def)

lemma drawn_in_bounds: "drawn i A f s s' \<Longrightarrow> in_bounds i s s'"
  by (simp add: drawn_def in_bounds_def)

lemma shows_picture_cong:
  "shows_picture i p s \<Longrightarrow> (\<And>x y. on_screen i x y \<Longrightarrow> p' x y = p x y) \<Longrightarrow> shows_picture i p' s"
  by (simp add: shows_picture_def)

definition fb_step_ok :: "info \<Rightarrow> picture \<Rightarrow> framebuffer \<Rightarrow> framebuffer \<Rightarrow> bool" where
  "fb_step_ok i p s s' \<longleftrightarrow>
     fb_inv i s' \<and> dirty_sound i s' \<and> shows_picture i p s' \<and> in_bounds i s s'"

text \<open>The same for a caller that has not kept track of the dirty rectangle.\<close>

definition paints :: "info \<Rightarrow> picture \<Rightarrow> framebuffer \<Rightarrow> framebuffer \<Rightarrow> bool" where
  "paints i p s s' \<longleftrightarrow>
     fb_inv i s' \<and> (dirty_sound i s \<longrightarrow> dirty_sound i s') \<and> shows_picture i p s' \<and> in_bounds i s s'"

lemma paints_step: "paints i p s s' \<Longrightarrow> dirty_sound i s \<Longrightarrow> fb_step_ok i p s s'"
  by (simp add: paints_def fb_step_ok_def)

lemma drawn_paints:
  assumes "drawn i A f s s'" and "shows_picture i p s"
    and "\<And>x y. on_screen i x y \<Longrightarrow> q x y = (if A x y then f x y else p x y)"
  shows "paints i q s s'"
  using assms drawn_dirty_sound [OF assms(1)] drawn_picture [OF assms(1,2)] drawn_in_bounds [OF assms(1)]
  by (auto simp: paints_def drawn_def shows_picture_def)

lemma present_paints:
  assumes "fb_inv i s" and "shows_picture i p s"
  shows "\<exists>s'. present s = Done s' \<and> paints i p s s' \<and> \<not> dirty s'"
  using present_spec [OF assms(1)] assms(2)
  by (fastforce simp: paints_def dirty_sound_def shows_picture_def pixel_at_def in_bounds_def)

lemma present_step:
  assumes "fb_inv i s" and "dirty_sound i s" and "shows_picture i p s"
  shows "\<exists>s'. present s = Done s' \<and> fb_step_ok i p s s' \<and> \<not> dirty s' \<and>
    (\<forall>x y. on_screen i x y \<longrightarrow> shown i s' x y)"
  using present_spec [OF assms(1)] assms(2,3)
  by (fastforce simp: fb_step_ok_def dirty_sound_def shows_picture_def pixel_at_def in_bounds_def)

lemma mark_all_drawn:
  assumes inv: "fb_inv i s"
  shows "\<exists>s'. mark_dirty 0 0 (scr_width i) (scr_height i) s = Done s' \<and>
    drawn i (\<lambda>_ _. True) (pixel_at i s) s s'"
proof -
  note d = info_okD [OF fb_inv_ok [OF inv]]
  have "\<exists>s'. mark_dirty 0 0 (scr_width i) (scr_height i) (s\<lparr>backbuffer := backbuffer s\<rparr>) = Done s' \<and>
      drawn i (rect 0 0 (scr_width i) (scr_height i)) (pixel_at i s) s s'"
    using d by (intro mark_dirty_drawn [OF inv]) (auto simp: pixel_at_def)
  then obtain s' where s': "mark_dirty 0 0 (scr_width i) (scr_height i) s = Done s'"
    "drawn i (rect 0 0 (scr_width i) (scr_height i)) (pixel_at i s) s s'" by auto
  have "drawn i (\<lambda>_ _. True) (pixel_at i s) s s'"
    by (rule drawn_cong [OF s'(2)]) (auto simp: rect_def on_screen_def)
  with s'(1) show ?thesis by blast
qed

lemma in_bounds_trans: "in_bounds i s t \<Longrightarrow> in_bounds i t u \<Longrightarrow> in_bounds i s u"
  by (simp add: in_bounds_def)

lemma draw_exec_paints:
  assumes inv: "fb_inv i s" and pic: "shows_picture i p s" and "cmd_ok cmd"
  shows "\<exists>s'. draw_exec cmd s = Done s' \<and> paints i (spec_draw i cmd p) s s'"
proof (cases cmd)
  case (PutPixel x y c)
  then show ?thesis
    using put_pixel_drawn [OF inv, of x y c] by (auto intro: drawn_paints [OF _ pic])
next
  case (Clear c)
  obtain s' where s': "clear c s = Done s'" "drawn i (\<lambda>_ _. True) (\<lambda>_ _. pixel_of i c) s s'"
    using clear_drawn [OF inv] by blast
  have "paints i (spec_draw i cmd p) s s'"
    by (rule drawn_paints [OF s'(2) pic]) (simp add: Clear)
  then show ?thesis using s'(1) Clear by simp
next
  case (DrawRect x y w h c)
  then show ?thesis
    using draw_rect_drawn [OF inv, of x y w h c] by (auto intro: drawn_paints [OF _ pic])
next
  case (CopyRect sx sy dx dy w h)
  then obtain s' where s': "copy_rect sx sy dx dy w h s = Done s'"
    "drawn i (copy_region i sx sy dx dy w h) (\<lambda>x y. pixel_at i s (x - dx + sx) (y - dy + sy)) s s'"
    using copy_rect_drawn [OF inv, of sx sy dx dy w h] assms(3) by auto
  have "paints i (spec_draw i cmd p) s s'"
    by (rule drawn_paints [OF s'(2) pic])
      (use CopyRect pic in \<open>simp add: copy_region_def shows_picture_def\<close>)
  then show ?thesis using s'(1) CopyRect by simp
next
  case (ScrollUp n c)
  obtain s' where s': "scroll_up n c s = Done s'" "drawn i (\<lambda>_ _. 0 < n) (scrolled i n c s) s s'"
    using scroll_up_drawn [OF inv] by blast
  have "paints i (spec_draw i cmd p) s s'"
    by (rule drawn_paints [OF s'(2) pic])
      (use ScrollUp pic in \<open>simp add: scrolled_def shows_picture_def on_screen_def\<close>)
  then show ?thesis using s'(1) ScrollUp by simp
next
  case Present
  then show ?thesis using present_paints [OF inv pic] by auto
next
  case PresentFull
  obtain s1 where s1: "mark_dirty 0 0 (scr_width i) (scr_height i) s = Done s1"
    "drawn i (\<lambda>_ _. True) (pixel_at i s) s s1" using mark_all_drawn [OF inv] by blast
  have st: "paints i p s s1"
    by (rule drawn_paints [OF s1(2) pic]) (use pic in \<open>simp add: shows_picture_def\<close>)
  then obtain s2 where "present s1 = Done s2" "paints i p s1 s2"
    using present_paints [of i s1 p] by (auto simp: paints_def)
  moreover have "present_full s = present s1"
    using s1(1) by (simp add: present_full_def get_info_inv [OF inv])
  ultimately show ?thesis using PresentFull st in_bounds_trans by (auto simp: paints_def)
qed

lemma draw_exec_step:
  assumes "fb_inv i s" and "dirty_sound i s" and "shows_picture i p s" and "cmd_ok cmd"
  shows "\<exists>s'. draw_exec cmd s = Done s' \<and> fb_step_ok i (spec_draw i cmd p) s s'"
  using draw_exec_paints [OF assms(1,3,4)] paints_step [OF _ assms(2)] by blast

lemma draw_run:
  assumes "fb_inv i s" and "dirty_sound i s" and "shows_picture i p s" and "\<forall>cmd \<in> set cmds. cmd_ok cmd"
  shows "\<exists>s'. for_each cmds draw_exec s = Done s' \<and> fb_step_ok i (fold (spec_draw i) cmds p) s s'"
  using assms
proof (induction cmds arbitrary: s p)
  case Nil
  then show ?case by (simp add: fb_step_ok_def in_bounds_def)
next
  case (Cons cmd cmds)
  obtain s1 where s1: "draw_exec cmd s = Done s1" "fb_step_ok i (spec_draw i cmd p) s s1"
    using draw_exec_step [OF Cons.prems(1-3)] Cons.prems(4) by auto
  then obtain s' where "for_each cmds draw_exec s1 = Done s'"
    "fb_step_ok i (fold (spec_draw i) cmds (spec_draw i cmd p)) s1 s'"
    using Cons.IH [of s1 "spec_draw i cmd p"] Cons.prems(4) by (auto simp: fb_step_ok_def)
  then show ?case using s1 in_bounds_trans by (auto simp: fb_step_ok_def)
qed

section \<open>Initialisation\<close>

definition info_of :: "limine_framebuffer \<Rightarrow> info" where
  "info_of lf = \<lparr>scr_width = lf_width lf, scr_height = lf_height lf, scr_pitch = lf_pitch lf,
     red_shift = lf_red_shift lf, green_shift = lf_green_shift lf, blue_shift = lf_blue_shift lf\<rparr>"

text \<open>A framebuffer the boot loader may hand over: \<open>init\<close> checks the first part, the second (the
  rows do not overlap, the whole buffer is addressable, the masks lie in the pixel) it relies on.\<close>

definition lf_ok :: "limine_framebuffer \<Rightarrow> bool" where
  "lf_ok lf \<longleftrightarrow> lf_bpp lf = 32 \<and> info_ok (info_of lf)"

lemma fb_init_step:
  assumes "lf_ok lf"
  shows "\<exists>s'. fb_init (Some (lf # rest)) s = Done s' \<and>
    fb_step_ok (info_of lf) (\<lambda>_ _. pixel_of (info_of lf) BLACK) s s' \<and> \<not> dirty s'"
proof -
  let ?i = "info_of lf" and ?p = "\<lambda>_ _. pixel_of (info_of lf) BLACK"
  let ?s1 = "s\<lparr>fb_info := Some ?i, dirty := False, dirty_min_x := 0, dirty_min_y := 0,
      dirty_max_x := 0, dirty_max_y := 0\<rparr>"
  have inv: "fb_inv ?i ?s1" using assms by (simp add: fb_inv_def lf_ok_def)
  obtain s2 where s2: "clear BLACK ?s1 = Done s2"
    "drawn ?i (\<lambda>_ _. True) (\<lambda>_ _. pixel_of ?i BLACK) ?s1 s2"
    using clear_drawn [OF inv] by blast
  have "dirty_sound ?i s2" using s2(2) by (simp add: drawn_def dirty_sound_def)
  moreover have "shows_picture ?i (\<lambda>_ _. pixel_of ?i BLACK) s2"
    using s2(2) by (simp add: drawn_def shows_picture_def)
  ultimately obtain s' where s': "present s2 = Done s'"
    "fb_step_ok ?i (\<lambda>_ _. pixel_of ?i BLACK) s2 s'" "\<not> dirty s'"
    using present_step [of ?i s2 ?p] s2(2) by (auto simp: drawn_def)
  have "in_bounds ?i s ?s1" by (simp add: in_bounds_def)
  then have "in_bounds ?i s s'"
    using drawn_in_bounds [OF s2(2)] s'(2) in_bounds_trans by (auto simp: fb_step_ok_def)
  moreover have "fb_init (Some (lf # rest)) s = Done s'"
    using assms s2(1) s'(1) by (simp add: fb_init_def lf_ok_def info_ok_def info_of_def)
  ultimately show ?thesis using s' by (auto simp: fb_step_ok_def)
qed

section \<open>Properties\<close>


definition small_screen :: limine_framebuffer where
  "small_screen = \<lparr>lf_width = 4, lf_height = 3, lf_pitch = 20, lf_bpp = 32,
     lf_red_shift = 16, lf_green_shift = 8, lf_blue_shift = 0\<rparr>"

lemma small_screen_ok: "lf_ok small_screen"
  by (simp add: lf_ok_def small_screen_def info_ok_def info_of_def)




text \<open>
  \<open>init\<close> refuses every framebuffer it cannot drive: it panics unless Limine answered with at
  least one framebuffer, and that has 32 bits per pixel and between 1 and 1920 by 1080 pixels.
\<close>

theorem fb_init_refuses:
  "(case response of
      None \<Rightarrow> True
    | Some [] \<Rightarrow> True
    | Some (lf # _) \<Rightarrow> \<not> (lf_bpp lf = 32 \<and> lf_width lf \<in> {1..1920} \<and> lf_height lf \<in> {1..1080}))
   \<Longrightarrow> \<exists>p. fb_init response s = Panic p"
  by (auto simp: fb_init_def split: option.splits list.splits)

theorem fb_init_refuses_witness:
  "\<exists>p. fb_init (Some [small_screen\<lparr>lf_bpp := 24\<rparr>]) (fb_static (\<lambda>_. 0)) = Panic p"
  by (rule fb_init_refuses) simp

text \<open>
  Copying down within an overlapping area does not move the rectangle: rows are copied from top
  to bottom, so the first row is repeated, against the comment that the copy is overlap-safe.
  Here a three-pixel column red, green, blue is copied one pixel down.
\<close>

theorem copy_rect_down_smears:
  "(let i = \<lparr>scr_width = 1, scr_height = 3, scr_pitch = 4, red_shift = 16, green_shift = 8, blue_shift = 0\<rparr>;
        s = \<lparr>fb_info = Some i, backbuffer = (\<lambda>_. 0)(0 := 1, 1 := 2, 2 := 3), front = (\<lambda>_. 0), dirty = False,
             dirty_min_x = 0, dirty_min_y = 0, dirty_max_x = 0, dirty_max_y = 0\<rparr>
    in andthen (copy_rect 0 0 0 1 1 2 s) (\<lambda>s'. Done (map (backbuffer s') [0, 1, 2]))) = Done [1, 1, 1]"
  by (simp add: copy_rect_def get_info_def Let_def pixel_index_def copy_within_def mark_dirty_def
      sat_add_def upt_rec)

end
