(* ===== verification/Font.thy ===== *)
theory Font
  imports Framebuffer
begin

text \<open>
  The bitmap font of \<open>src/font.rs\<close>: reading the PSF2 header, finding a glyph, drawing it at half
  its size, and drawing a line of text. The font file is an asset of the build and is the argument
  \<open>data\<close> everywhere.
\<close>

abbreviation FONT_WIDTH :: nat where "FONT_WIDTH \<equiv> 16"
abbreviation FONT_HEIGHT :: nat where "FONT_HEIGHT \<equiv> 32"
abbreviation SCALED_WIDTH :: nat where "SCALED_WIDTH \<equiv> 8"
abbreviation SCALED_HEIGHT :: nat where "SCALED_HEIGHT \<equiv> 16"

definition PSF2_MAGIC :: "8 word list" where
  "PSF2_MAGIC = [0x72, 0xb5, 0x4a, 0x86]"

record font =
  font_data :: "8 word list"
  header_size :: nat
  glyph_count :: nat
  glyph_size :: nat

definition read_u32 :: "8 word list \<Rightarrow> nat \<Rightarrow> nat outcome" where
  "read_u32 data offset =
     andthen (fetch data offset) (\<lambda>b0.
     andthen (andthen (uadd offset 1) (fetch data)) (\<lambda>b1.
     andthen (andthen (uadd offset 2) (fetch data)) (\<lambda>b2.
     andthen (andthen (uadd offset 3) (fetch data)) (\<lambda>b3.
       Done (unat b0 + 256 * unat b1 + 65536 * unat b2 + 16777216 * unat b3)))))"

definition font_new :: "8 word list \<Rightarrow> font outcome" where
  "font_new data =
     (if length data < 32 then Panic (Assertion ''Font file is too small'')
      else
        andthen (subslice data 0 4) (\<lambda>magic.
        if magic \<noteq> PSF2_MAGIC then Panic (Assertion ''Not a PSF2 font'')
        else
          andthen (read_u32 data 4) (\<lambda>version.
          if version \<noteq> 0 then Panic (Assertion ''Unsupported PSF2 version'')
          else
            andthen (read_u32 data 8) (\<lambda>hs.
            andthen (read_u32 data 16) (\<lambda>gc.
            andthen (read_u32 data 20) (\<lambda>gs.
            andthen (read_u32 data 28) (\<lambda>w.
            andthen (read_u32 data 24) (\<lambda>h.
            if w \<noteq> FONT_WIDTH then Panic (Assertion ''Expected a 16 pixel wide font'')
            else if h \<noteq> FONT_HEIGHT then Panic (Assertion ''Expected a 32 pixel high font'')
            else Done \<lparr>font_data = data, header_size = hs, glyph_count = gc, glyph_size = gs\<rparr>))))))))"

definition glyph :: "font \<Rightarrow> nat \<Rightarrow> 8 word list outcome" where
  "glyph f index =
     (if glyph_count f \<le> index then Done []
      else
        andthen (umul index (glyph_size f)) (\<lambda>o1.
        andthen (uadd (header_size f) o1) (\<lambda>offset.
        andthen (uadd offset (glyph_size f)) (\<lambda>e.
          subslice (font_data f) offset e))))"

definition draw_char :: "font \<Rightarrow> nat \<Rightarrow> nat \<Rightarrow> char \<Rightarrow> color \<Rightarrow> framebuffer \<Rightarrow> framebuffer outcome" where
  "draw_char f x y ch c s =
     andthen (glyph f (of_char ch)) (\<lambda>g.
       if g = [] then Done s
       else for_each [0 ..< SCALED_HEIGHT] (\<lambda>row s.
              let source_y = row * 2 in
              for_each [0 ..< SCALED_WIDTH] (\<lambda>col s.
                let source_x = col * 2 in
                andthen (fetch g (source_y * 2 + source_x div 8)) (\<lambda>byte.
                  let sh = 7 - source_x mod 8 in
                  if byte AND push_bit sh 1 \<noteq> 0
                  then andthen (uadd x col) (\<lambda>px. andthen (uadd y row) (\<lambda>py. put_pixel px py c s))
                  else Done s)) s) s)"

primrec draw_text_loop ::
    "font \<Rightarrow> nat \<Rightarrow> color \<Rightarrow> string \<Rightarrow> nat \<Rightarrow> nat \<Rightarrow> framebuffer \<Rightarrow> framebuffer outcome" where
  "draw_text_loop f x c [] cx cy s = Done s"
| "draw_text_loop f x c (ch # text) cx cy s =
     (if ch = CHR 0x0A then
        andthen (uadd cy SCALED_HEIGHT) (\<lambda>cy'. draw_text_loop f x c text x cy' s)
      else if ch = CHR 0x0D then draw_text_loop f x c text x cy s
      else if ch = CHR 0x09 then
        andthen (uadd cx (SCALED_WIDTH * 4)) (\<lambda>cx'. draw_text_loop f x c text cx' cy s)
      else if (of_char ch :: nat) \<in> {0x20..0x7e} then
        andthen (draw_char f cx cy ch c s) (\<lambda>s'.
        andthen (uadd cx SCALED_WIDTH) (\<lambda>cx'. draw_text_loop f x c text cx' cy s'))
      else draw_text_loop f x c text cx cy s)"

definition draw_text :: "font \<Rightarrow> nat \<Rightarrow> nat \<Rightarrow> string \<Rightarrow> color \<Rightarrow> framebuffer \<Rightarrow> framebuffer outcome" where
  "draw_text f x y text c s = draw_text_loop f x c text x y s"

section \<open>Which pixels a character sets\<close>

text \<open>A font whose glyph table lies inside the file, with at least the bytes the renderer reads.\<close>

definition font_ok :: "font \<Rightarrow> bool" where
  "font_ok f \<longleftrightarrow> 62 \<le> glyph_size f \<and> length (font_data f) < usize_lim \<and>
     header_size f + glyph_count f * glyph_size f \<le> length (font_data f)"

definition glyph_bytes :: "font \<Rightarrow> nat \<Rightarrow> 8 word list" where
  "glyph_bytes f index =
     (if glyph_count f \<le> index then []
      else take (glyph_size f) (drop (header_size f + index * glyph_size f) (font_data f)))"

text \<open>The bit of the 16 x 32 glyph that stands for pixel \<open>(col, row)\<close> of the 8 x 16 character.\<close>

definition glyph_bit :: "font \<Rightarrow> char \<Rightarrow> nat \<Rightarrow> nat \<Rightarrow> bool" where
  "glyph_bit f ch col row \<longleftrightarrow>
     (let g = glyph_bytes f (of_char ch) in
      g \<noteq> [] \<and> col < SCALED_WIDTH \<and> row < SCALED_HEIGHT \<and>
      bit (g ! (row * 2 * 2 + col * 2 div 8)) (7 - col * 2 mod 8))"

definition glyph_region :: "font \<Rightarrow> char \<Rightarrow> nat \<Rightarrow> nat \<Rightarrow> nat \<Rightarrow> nat \<Rightarrow> bool" where
  "glyph_region f ch x y px py \<longleftrightarrow> x \<le> px \<and> y \<le> py \<and> glyph_bit f ch (px - x) (py - y)"

lemma glyph_Done:
  assumes "font_ok f"
  shows "glyph f index = Done (glyph_bytes f index)"
    and "glyph_bytes f index \<noteq> [] \<Longrightarrow> length (glyph_bytes f index) = glyph_size f"
proof -
  have fit: "header_size f + index * glyph_size f + glyph_size f \<le> length (font_data f)"
    if "index < glyph_count f"
  proof -
    have "(index + 1) * glyph_size f \<le> glyph_count f * glyph_size f"
      using that by (intro mult_le_mono1) simp
    then show ?thesis using assms by (simp add: font_ok_def algebra_simps)
  qed
  show "glyph f index = Done (glyph_bytes f index)"
  proof (cases "index < glyph_count f")
    case True
    have "index * glyph_size f < usize_lim" "header_size f + index * glyph_size f < usize_lim"
      "header_size f + index * glyph_size f + glyph_size f < usize_lim"
      using fit [OF True] assms unfolding font_ok_def by linarith+
    then show ?thesis using True fit [OF True]
      by (simp add: glyph_def glyph_bytes_def subslice_def)
  qed (simp add: glyph_def glyph_bytes_def)
  show "glyph_bytes f index \<noteq> [] \<Longrightarrow> length (glyph_bytes f index) = glyph_size f"
    using fit by (auto simp: glyph_bytes_def split: if_splits)
qed

lemma mask_bit: "(byte :: 8 word) AND push_bit n 1 \<noteq> 0 \<longleftrightarrow> bit byte n"
  using and_exp_eq_0_iff_not_bit [of byte n] by (simp add: push_bit_eq_mult)

text \<open>A loop of steps that each paint a region in one colour paints the union.\<close>

lemma drawn_loop:
  assumes "\<And>x s. x \<in> set xs \<Longrightarrow> fb_inv i s \<Longrightarrow> \<exists>s'. f x s = Done s' \<and> drawn i (A x) (\<lambda>_ _. v) s s'"
    and "fb_inv i s"
  shows "\<exists>s'. for_each xs f s = Done s' \<and> drawn i (\<lambda>px py. \<exists>x \<in> set xs. A x px py) (\<lambda>_ _. v) s s'"
  using assms
proof (induction xs arbitrary: s)
  case Nil
  then show ?case by (simp add: drawn_nothing)
next
  case (Cons x xs)
  obtain s1 where s1: "f x s = Done s1" "drawn i (A x) (\<lambda>_ _. v) s s1"
    using Cons.prems by fastforce
  then obtain s2 where s2: "for_each xs f s1 = Done s2"
    "drawn i (\<lambda>px py. \<exists>x \<in> set xs. A x px py) (\<lambda>_ _. v) s1 s2"
    using Cons.IH [of s1] Cons.prems(1) by (auto simp: drawn_def)
  have "drawn i (\<lambda>px py. \<exists>x \<in> set (x # xs). A x px py) (\<lambda>_ _. v) s s2"
    by (rule drawn_cong [OF drawn_trans [OF s1(2) s2(2)]]) auto
  then show ?case using s1(1) s2(1) by auto
qed

lemma draw_char_drawn:
  assumes f: "font_ok f" and inv: "fb_inv i s" and xy: "x + 8 < usize_lim" "y + 16 < usize_lim"
  shows "\<exists>s'. draw_char f x y ch c s = Done s' \<and>
    drawn i (glyph_region f ch x y) (\<lambda>_ _. pixel_of i c) s s'"
proof (cases "glyph_bytes f (of_char ch) = []")
  case True
  then have "drawn i (glyph_region f ch x y) (\<lambda>_ _. pixel_of i c) s s"
    by (intro drawn_nothing [OF inv]) (simp add: glyph_region_def glyph_bit_def)
  then show ?thesis using True by (simp add: draw_char_def glyph_Done [OF f])
next
  case False
  let ?g = "glyph_bytes f (of_char ch)" and ?v = "\<lambda>_ _. pixel_of i c"
  let ?A = "\<lambda>row col px py. px = x + col \<and> py = y + row \<and> glyph_bit f ch col row"
  have len: "62 \<le> length ?g" using glyph_Done(2) [OF f False] f by (simp add: font_ok_def)
  define step where "step row col s =
      (let source_x = col * 2 in
        andthen (fetch ?g (row * 2 * 2 + source_x div 8)) (\<lambda>byte.
          let sh = 7 - source_x mod 8 in
          if byte AND push_bit sh 1 \<noteq> 0
          then andthen (uadd x col) (\<lambda>px. andthen (uadd y row) (\<lambda>py. put_pixel px py c s))
          else Done s))" for row col s
  have step: "\<exists>s'. step row col s = Done s' \<and> drawn i (?A row col) ?v s s'"
    if "row < 16" "col < 8" and inv: "fb_inv i s" for row col s
  proof -
    have idx: "row * 2 * 2 + col * 2 div 8 < length ?g" using len that by linarith
    show ?thesis
    proof (cases "bit (?g ! (row * 2 * 2 + col * 2 div 8)) (7 - col * 2 mod 8)")
      case True
      have "glyph_bit f ch col row" using True False that by (simp add: glyph_bit_def Let_def)
      then have "?A row col = (\<lambda>px py. px = x + col \<and> py = y + row)" by auto
      moreover have "step row col s = put_pixel (x + col) (y + row) c s"
        unfolding step_def Let_def fetch_Done [OF idx] andthen.simps mask_bit
        using True that xy by simp
      ultimately show ?thesis using put_pixel_drawn [OF inv, of "x + col" "y + row" c] by simp
    next
      case False
      then have "\<not> glyph_bit f ch col row" by (simp add: glyph_bit_def Let_def)
      then have "drawn i (?A row col) ?v s s" by (intro drawn_nothing [OF inv]) simp
      moreover have "step row col s = Done s"
        unfolding step_def Let_def fetch_Done [OF idx] andthen.simps mask_bit using False by simp
      ultimately show ?thesis by simp
    qed
  qed
  have rows: "\<exists>s'. for_each [0 ..< 8] (step row) s = Done s' \<and>
      drawn i (\<lambda>px py. \<exists>col \<in> set [0 ..< 8]. ?A row col px py) ?v s s'"
    if "row < 16" and "fb_inv i s" for row s
    by (rule drawn_loop [OF _ that(2)]) (use step that(1) in auto)
  have "\<exists>s'. for_each [0 ..< 16] (\<lambda>row. for_each [0 ..< 8] (step row)) s = Done s' \<and>
      drawn i (\<lambda>px py. \<exists>row \<in> set [0 ..< 16]. \<exists>col \<in> set [0 ..< 8]. ?A row col px py) ?v s s'"
    by (rule drawn_loop [OF _ inv]) (use rows in auto)
  then obtain s' where s': "for_each [0 ..< 16] (\<lambda>row. for_each [0 ..< 8] (step row)) s = Done s'"
    "drawn i (\<lambda>px py. \<exists>row \<in> set [0 ..< 16]. \<exists>col \<in> set [0 ..< 8]. ?A row col px py) ?v s s'" by blast
  have "draw_char f x y ch c s = Done s'"
    using s'(1) False unfolding step_def [abs_def] draw_char_def Let_def
    by (simp only: glyph_Done(1) [OF f] andthen.simps if_False)
  moreover have "drawn i (glyph_region f ch x y) ?v s s'"
  proof (rule drawn_cong [OF s'(2) _ refl])
    fix px py
    show "glyph_region f ch x y px py = (\<exists>row \<in> set [0 ..< 16]. \<exists>col \<in> set [0 ..< 8]. ?A row col px py)"
    proof
      assume g: "glyph_region f ch x y px py"
      then have "py - y \<in> set [0 ..< 16]" "px - x \<in> set [0 ..< 8]" "?A (py - y) (px - x) px py"
        by (auto simp: glyph_region_def glyph_bit_def Let_def)
      then show "\<exists>row \<in> set [0 ..< 16]. \<exists>col \<in> set [0 ..< 8]. ?A row col px py" by blast
    qed (auto simp: glyph_region_def)
  qed
  ultimately show ?thesis by blast
qed

end
