(* ===== verification/Console.thy ===== *)
theory Console
  imports Font
begin

text \<open>
  The text console of \<open>src/console.rs\<close>: the fixed cell buffer \<open>CELLS\<close>, the cursor, scrolling,
  rendering into the framebuffer and the line editor. A method that draws takes and returns the
  console together with the framebuffer (\<open>tty\<close>). The cell buffer is written through a raw pointer;
  it is a function from the cell index, and that every access stays inside the static array is
  part of the invariant. Row and column numbers stay below 67 and 240, so that their arithmetic
  cannot overflow and is written on \<open>nat\<close>.
\<close>

abbreviation CHAR_WIDTH :: nat where "CHAR_WIDTH \<equiv> 8"
abbreviation CHAR_HEIGHT :: nat where "CHAR_HEIGHT \<equiv> 16"
abbreviation INPUT_SIZE :: nat where "INPUT_SIZE \<equiv> 256"
abbreviation MAX_COLUMNS :: nat where "MAX_COLUMNS \<equiv> 240"
abbreviation MAX_ROWS :: nat where "MAX_ROWS \<equiv> 67"

definition DEFAULT_FOREGROUND :: color where "DEFAULT_FOREGROUND = WHITE"
definition DEFAULT_BACKGROUND :: color where "DEFAULT_BACKGROUND = BLACK"

record cell =
  character :: char
  cell_foreground :: color
  cell_background :: color

definition EMPTY :: cell where
  "EMPTY = \<lparr>character = CHR '' '', cell_foreground = DEFAULT_FOREGROUND,
     cell_background = DEFAULT_BACKGROUND\<rparr>"

record console =
  con_font :: font
  cursor_x :: nat
  cursor_y :: nat
  columns :: nat
  rows :: nat
  foreground :: color
  background :: color
  cells :: "nat \<Rightarrow> cell"
  input :: string
  input_len :: nat
  line_ready :: bool

type_synonym tty = "console \<times> framebuffer"

definition console_new :: "8 word list \<Rightarrow> nat \<Rightarrow> nat \<Rightarrow> console outcome" where
  "console_new font_file w h =
     andthen (font_new font_file) (\<lambda>f.
       Done \<lparr>con_font = f, cursor_x = 0, cursor_y = 0,
         columns = min (w div CHAR_WIDTH) MAX_COLUMNS, rows = min (h div CHAR_HEIGHT) MAX_ROWS,
         foreground = DEFAULT_FOREGROUND, background = DEFAULT_BACKGROUND,
         cells = (\<lambda>_. EMPTY), input = replicate INPUT_SIZE (CHR 0x00), input_len = 0,
         line_ready = False\<rparr>)"

section \<open>Cells\<close>

definition cell_index :: "nat \<Rightarrow> nat \<Rightarrow> nat" where
  "cell_index row column = row * MAX_COLUMNS + column"

definition get_cell :: "nat \<Rightarrow> nat \<Rightarrow> console \<Rightarrow> cell" where
  "get_cell row column con = cells con (cell_index row column)"

definition set_cell :: "nat \<Rightarrow> nat \<Rightarrow> cell \<Rightarrow> console \<Rightarrow> console" where
  "set_cell row column c con = con\<lparr>cells := (cells con)(cell_index row column := c)\<rparr>"

definition clear_row :: "nat \<Rightarrow> console \<Rightarrow> console" where
  "clear_row row con =
     (if rows con \<le> row then con
      else con\<lparr>cells := fill_slice (cell_index row 0) MAX_COLUMNS EMPTY (cells con)\<rparr>)"

definition clear_console :: "tty \<Rightarrow> tty outcome" where
  "clear_console = (\<lambda>(con, fb).
     andthen (clear (background con) fb) (\<lambda>fb'.
       Done (con\<lparr>cells := fill_slice 0 (MAX_COLUMNS * MAX_ROWS) EMPTY (cells con),
                 cursor_x := 0, cursor_y := 0, input_len := 0, line_ready := False\<rparr>, fb')))"

definition set_foreground :: "color \<Rightarrow> console \<Rightarrow> console" where
  "set_foreground c con = con\<lparr>foreground := c\<rparr>"

definition set_background :: "color \<Rightarrow> console \<Rightarrow> console" where
  "set_background c con = con\<lparr>background := c\<rparr>"

section \<open>Rendering\<close>

definition render_cell :: "nat \<Rightarrow> nat \<Rightarrow> console \<Rightarrow> framebuffer \<Rightarrow> framebuffer outcome" where
  "render_cell row column con fb =
     (if rows con \<le> row \<or> columns con \<le> column then Done fb
      else
        let c = get_cell row column con;
            x = column * CHAR_WIDTH;
            y = row * CHAR_HEIGHT
        in andthen (draw_rect x y CHAR_WIDTH CHAR_HEIGHT (cell_background c) fb) (\<lambda>fb1.
             if character c \<noteq> CHR '' ''
             then draw_char (con_font con) x y (character c) (cell_foreground c) fb1
             else Done fb1))"

definition render_row :: "nat \<Rightarrow> console \<Rightarrow> framebuffer \<Rightarrow> framebuffer outcome" where
  "render_row row con fb =
     (if rows con \<le> row then Done fb
      else for_each [0 ..< columns con] (\<lambda>column fb. render_cell row column con fb) fb)"

definition render :: "console \<Rightarrow> framebuffer \<Rightarrow> framebuffer outcome" where
  "render con fb =
     andthen (clear (background con) fb) (\<lambda>fb1.
       for_each [0 ..< rows con] (\<lambda>row fb. render_row row con fb) fb1)"

section \<open>The cursor\<close>

text \<open>\<open>cells.copy_within(row * 240 .. row * 240 + columns, (row - 1) * 240)\<close>\<close>

definition copy_row_up :: "nat \<Rightarrow> nat \<Rightarrow> (nat \<Rightarrow> cell) \<Rightarrow> (nat \<Rightarrow> cell) outcome" where
  "copy_row_up cols row cs =
     (let src = row * MAX_COLUMNS; dst = (row - 1) * MAX_COLUMNS in
      if src + cols \<le> MAX_COLUMNS * MAX_ROWS \<and> dst + cols \<le> MAX_COLUMNS * MAX_ROWS
      then Done (copy_within src dst cols cs) else Panic IndexOutOfBounds)"

definition scroll :: "tty \<Rightarrow> tty outcome" where
  "scroll = (\<lambda>(con, fb).
     if rows con = 0 then Done (con, fb)
     else
       andthen (scroll_up CHAR_HEIGHT (background con) fb) (\<lambda>fb'.
       andthen (for_each [1 ..< rows con] (copy_row_up (columns con)) (cells con)) (\<lambda>cs.
         let con1 = clear_row (rows con - 1) (con\<lparr>cells := cs\<rparr>)
         in Done (con1\<lparr>cursor_x := 0, cursor_y := rows con1 - 1\<rparr>, fb'))))"

definition newline :: "tty \<Rightarrow> tty outcome" where
  "newline = (\<lambda>(con, fb).
     let con1 = con\<lparr>cursor_x := 0\<rparr> in
     if rows con1 = 0 then Done (con1, fb)
     else if cursor_y con1 + 1 < rows con1 then Done (con1\<lparr>cursor_y := cursor_y con1 + 1\<rparr>, fb)
     else scroll (con1, fb))"

definition write_cell :: "char \<Rightarrow> tty \<Rightarrow> tty outcome" where
  "write_cell ch = (\<lambda>(con, fb).
     if columns con = 0 \<or> rows con = 0 then Done (con, fb)
     else
       andthen (if columns con \<le> cursor_x con then newline (con, fb) else Done (con, fb)) (\<lambda>(con1, fb1).
         let row = cursor_y con1; column = cursor_x con1;
             con2 = set_cell row column
               \<lparr>character = ch, cell_foreground = foreground con1, cell_background = background con1\<rparr> con1
         in andthen (render_cell row column con2 fb1) (\<lambda>fb2.
              let con3 = con2\<lparr>cursor_x := cursor_x con2 + 1\<rparr> in
              if columns con3 \<le> cursor_x con3 then newline (con3, fb2) else Done (con3, fb2))))"

definition backspace :: "tty \<Rightarrow> tty outcome" where
  "backspace = (\<lambda>(con, fb).
     if cursor_x con = 0 \<and> cursor_y con = 0 then Done (con, fb)
     else
       let con1 = (if cursor_x con = 0
                   then con\<lparr>cursor_y := cursor_y con - 1, cursor_x := columns con - 1\<rparr>
                   else con\<lparr>cursor_x := cursor_x con - 1\<rparr>);
           con2 = set_cell (cursor_y con1) (cursor_x con1) EMPTY con1
       in andthen (render_cell (cursor_y con2) (cursor_x con2) con2 fb) (\<lambda>fb'. Done (con2, fb')))"

definition put_char :: "char \<Rightarrow> tty \<Rightarrow> tty outcome" where
  "put_char ch = (\<lambda>(con, fb).
     if ch = CHR 0x0A then newline (con, fb)
     else if ch = CHR 0x0D then Done (con\<lparr>cursor_x := 0\<rparr>, fb)
     else if ch = CHR 0x09 then
       (let next_tab = (cursor_x con div 4 + 1) * 4 in
        if columns con \<le> next_tab then newline (con, fb)
        else Done (con\<lparr>cursor_x := next_tab\<rparr>, fb))
     else if ch = CHR 0x08 then backspace (con, fb)
     else if (of_char ch :: nat) \<in> {0x20..0x7e} then write_cell ch (con, fb)
     else Done (con, fb))"

definition write_str :: "string \<Rightarrow> tty \<Rightarrow> tty outcome" where
  "write_str text t = for_each text put_char t"

section \<open>The line editor\<close>

text \<open>\<open>key\<close> is the scalar value of a Rust \<open>char\<close>.\<close>

definition receive_key :: "nat \<Rightarrow> tty \<Rightarrow> tty outcome" where
  "receive_key key = (\<lambda>(con, fb).
     if key = 0x0A \<or> key = 0x0D then
       andthen (put_char (CHR 0x0A) (con, fb)) (\<lambda>(con1, fb1). Done (con1\<lparr>line_ready := True\<rparr>, fb1))
     else if key = 0x08 \<or> key = 0x7f then
       (if 0 < input_len con \<and> 2 < cursor_x con
        then put_char (CHR 0x08) (con\<lparr>input_len := input_len con - 1\<rparr>, fb)
        else Done (con, fb))
     else if key < 128 \<and> \<not> (key < 32 \<or> key = 127) then
       (if input_len con < INPUT_SIZE
        then andthen (store (input con) (input_len con) (char_of key)) (\<lambda>inp.
               put_char (char_of key) (con\<lparr>input := inp, input_len := input_len con + 1\<rparr>, fb))
        else Done (con, fb))
     else Done (con, fb))"

text \<open>\<open>read_line(buffer)\<close>: the buffer is returned updated, with the number of bytes copied.\<close>

definition read_line :: "string \<Rightarrow> console \<Rightarrow> (nat option \<times> string \<times> console) outcome" where
  "read_line buffer con =
     (if \<not> line_ready con then Done (None, buffer, con)
      else
        let n = min (input_len con) (length buffer) in
        andthen (subslice (input con) 0 n) (\<lambda>bytes.
          Done (Some n, bytes @ drop n buffer, con\<lparr>input_len := 0, line_ready := False\<rparr>)))"

end
