(* ===== verification/Console_Correct.thy ===== *)
theory Console_Correct
  imports Console
begin

text \<open>
  The console keeps its cells and the framebuffer in step: under the default background, the picture
  in the backbuffer is always the one the cells describe. \<open>con_inv\<close> is the invariant of the console
  alone (cursor on the grid, input within its buffer), \<open>console_picture\<close> the rendering of the cells
  without a framebuffer.
\<close>

definition con_inv :: "info \<Rightarrow> console \<Rightarrow> bool" where
  "con_inv i con \<longleftrightarrow> font_ok (con_font con) \<and>
     columns con = scr_width i div 8 \<and> rows con = scr_height i div 16 \<and>
     cursor_x con < max 1 (columns con) \<and> cursor_y con < max 1 (rows con) \<and>
     length (input con) = INPUT_SIZE \<and> input_len con \<le> INPUT_SIZE"

text \<open>The part of it that does not look at the screen: the grid fits the static cell buffer.\<close>

definition grid_ok :: "console \<Rightarrow> bool" where
  "grid_ok con \<longleftrightarrow> font_ok (con_font con) \<and> columns con \<le> MAX_COLUMNS \<and> rows con \<le> MAX_ROWS \<and>
     cursor_x con < max 1 (columns con) \<and> cursor_y con < max 1 (rows con) \<and>
     length (input con) = INPUT_SIZE \<and> input_len con \<le> INPUT_SIZE"

definition cell_pixel :: "info \<Rightarrow> font \<Rightarrow> cell \<Rightarrow> nat \<Rightarrow> nat \<Rightarrow> 32 word" where
  "cell_pixel i f c dx dy =
     pixel_of i (if character c \<noteq> CHR '' '' \<and> glyph_bit f (character c) dx dy
                 then cell_foreground c else cell_background c)"

definition console_picture :: "info \<Rightarrow> console \<Rightarrow> picture" where
  "console_picture i con x y =
     (if x div 8 < columns con \<and> y div 16 < rows con
      then cell_pixel i (con_font con) (get_cell (y div 16) (x div 8) con) (x mod 8) (y mod 16)
      else pixel_of i BLACK)"

definition synced :: "info \<Rightarrow> tty \<Rightarrow> bool" where
  "synced i t \<longleftrightarrow> con_inv i (fst t) \<and> fb_inv i (snd t) \<and>
     background (fst t) = BLACK \<and> shows_picture i (console_picture i (fst t)) (snd t)"

text \<open>What every console operation also keeps: the bounds of the static buffers and the dirty
  rectangle.\<close>

definition tty_step :: "info \<Rightarrow> tty \<Rightarrow> tty \<Rightarrow> bool" where
  "tty_step i t t' \<longleftrightarrow> synced i t' \<and> in_bounds i (snd t) (snd t') \<and>
     (dirty_sound i (snd t) \<longrightarrow> dirty_sound i (snd t')) \<and>
     (\<forall>k. MAX_COLUMNS * MAX_ROWS \<le> k \<longrightarrow> cells (fst t') k = cells (fst t) k) \<and>
     con_font (fst t') = con_font (fst t)"

lemma tty_step_refl: "synced i t \<Longrightarrow> tty_step i t t"
  by (simp add: tty_step_def in_bounds_def)

lemma tty_step_trans: "tty_step i t u \<Longrightarrow> tty_step i u v \<Longrightarrow> tty_step i t v"
  by (simp add: tty_step_def in_bounds_def)

lemma tty_step_synced: "tty_step i t u \<Longrightarrow> synced i u"
  by (simp add: tty_step_def)

lemma grid:
  assumes "con_inv i con" and "info_ok i"
  shows "columns con \<le> 240" "rows con \<le> 67" "columns con * 8 \<le> scr_width i" "rows con * 16 \<le> scr_height i"
  using assms div_le_mono [of "scr_width i" 1920 8] div_le_mono [of "scr_height i" 1080 16]
  by (auto simp: con_inv_def info_ok_def)

lemma con_inv_grid_ok: "con_inv i con \<Longrightarrow> info_ok i \<Longrightarrow> grid_ok con"
  using grid(1,2) [of i con] by (auto simp: con_inv_def grid_ok_def)

lemma cell_index_eq: "c < 240 \<Longrightarrow> c' < 240 \<Longrightarrow> cell_index r c = cell_index r' c' \<longleftrightarrow> r = r' \<and> c = c'"
  using row_col [of c 240 c' 1 r' r] by (auto simp: cell_index_def)

lemma cell_index_bound: "c < 240 \<Longrightarrow> r < 67 \<Longrightarrow> cell_index r c < MAX_COLUMNS * MAX_ROWS"
  using row_bound [of c 240 r 67] by (simp add: cell_index_def)

lemma get_set_cell:
  "c < 240 \<Longrightarrow> c' < 240 \<Longrightarrow>
   get_cell r c (set_cell r' c' v con) = (if r = r' \<and> c = c' then v else get_cell r c con)"
  by (simp add: get_cell_def set_cell_def cell_index_eq)

section \<open>Rendering a cell\<close>

definition cell_region :: "nat \<Rightarrow> nat \<Rightarrow> nat \<Rightarrow> nat \<Rightarrow> bool" where
  "cell_region row col x y \<longleftrightarrow> x div 8 = col \<and> y div 16 = row"

lemma rect_cell: "rect (col * 8) (row * 16) 8 16 x y \<longleftrightarrow> cell_region row col x y"
  by (auto simp: rect_def cell_region_def)

lemma glyph_region_cell:
  "cell_region row col x y \<Longrightarrow>
     glyph_region f ch (col * 8) (row * 16) x y \<longleftrightarrow> glyph_bit f ch (x mod 8) (y mod 16)"
  by (auto simp: glyph_region_def cell_region_def modulo_nat_def)

lemma glyph_region_inside:
  "glyph_region f ch (col * 8) (row * 16) x y \<Longrightarrow> cell_region row col x y"
  by (auto simp: glyph_region_def cell_region_def glyph_bit_def Let_def)

lemma render_cell_drawn:
  assumes con: "grid_ok con" and inv: "fb_inv i fb" and rc: "row < rows con" "col < columns con"
  shows "\<exists>fb'. render_cell row col con fb = Done fb' \<and>
    drawn i (cell_region row col)
      (\<lambda>x y. cell_pixel i (con_font con) (get_cell row col con) (x mod 8) (y mod 16)) fb fb'"
proof -
  let ?c = "get_cell row col con" and ?f = "con_font con"
  obtain fb1 where fb1: "draw_rect (col * 8) (row * 16) 8 16 (cell_background ?c) fb = Done fb1"
    "drawn i (rect (col * 8) (row * 16) 8 16) (\<lambda>_ _. pixel_of i (cell_background ?c)) fb fb1"
    using draw_rect_drawn [OF inv] by blast
  show ?thesis
  proof (cases "character ?c = CHR '' ''")
    case True
    have "drawn i (cell_region row col)
        (\<lambda>x y. cell_pixel i ?f ?c (x mod 8) (y mod 16)) fb fb1"
      by (rule drawn_cong [OF fb1(2)]) (use True in \<open>simp_all add: rect_cell cell_pixel_def\<close>)
    then show ?thesis using True rc fb1(1) by (simp add: render_cell_def Let_def)
  next
    case False
    have inv1: "fb_inv i fb1" using fb1(2) by (simp add: drawn_def)
    have lim: "col * 8 + 8 < usize_lim" "row * 16 + 16 < usize_lim" using rc con by (auto simp: grid_ok_def)
    have "font_ok ?f" using con by (simp add: grid_ok_def)
    from draw_char_drawn [OF this inv1 lim, of "character ?c" "cell_foreground ?c"]
    obtain fb2 where fb2: "draw_char ?f (col * 8) (row * 16) (character ?c) (cell_foreground ?c) fb1 = Done fb2"
      "drawn i (glyph_region ?f (character ?c) (col * 8) (row * 16))
         (\<lambda>_ _. pixel_of i (cell_foreground ?c)) fb1 fb2" by blast
    have "drawn i (cell_region row col)
        (\<lambda>x y. cell_pixel i ?f ?c (x mod 8) (y mod 16)) fb fb2"
      by (rule drawn_cong [OF drawn_trans [OF fb1(2) fb2(2)]])
        (use False in \<open>auto simp: rect_cell cell_pixel_def glyph_region_cell dest: glyph_region_inside\<close>)
    then show ?thesis using False rc fb1(1) fb2(1) by (simp add: render_cell_def Let_def)
  qed
qed

text \<open>Writing one cell on the grid and rendering it keeps the console in step.\<close>

lemma synced_set_cell:
  assumes s: "synced i (con, fb)" and rc: "row < rows con" "col < columns con"
  shows "\<exists>fb'. render_cell row col (set_cell row col c con) fb = Done fb' \<and>
    tty_step i (con, fb) (set_cell row col c con, fb')"
proof -
  let ?con = "set_cell row col c con"
  have con: "con_inv i con" and inv: "fb_inv i fb" and bg: "background con = BLACK"
    and pic: "shows_picture i (console_picture i con) fb" using s by (simp_all add: synced_def)
  note g = grid [OF con fb_inv_ok [OF inv]]
  have con': "con_inv i ?con" using con by (auto simp: con_inv_def set_cell_def)
  have rc': "row < rows ?con" "col < columns ?con" using rc by (simp_all add: set_cell_def)
  obtain fb' where fb': "render_cell row col ?con fb = Done fb'"
    "drawn i (cell_region row col)
      (\<lambda>x y. cell_pixel i (con_font ?con) (get_cell row col ?con) (x mod 8) (y mod 16)) fb fb'"
    using render_cell_drawn [OF con_inv_grid_ok [OF con' fb_inv_ok [OF inv]] inv rc'] by blast
  have "console_picture i ?con x y = (if cell_region row col x y
      then cell_pixel i (con_font ?con) (get_cell row col ?con) (x mod 8) (y mod 16)
      else console_picture i con x y)" for x y
    using rc g(1) get_set_cell [of "x div 8" col "y div 16" row c con]
    by (auto simp: console_picture_def cell_region_def set_cell_def [of row col c con]
        get_cell_def [of _ _ "set_cell _ _ _ _"] get_cell_def cell_index_eq)
  then have "shows_picture i (console_picture i ?con) fb'"
    using drawn_picture [OF fb'(2) pic] by (simp add: shows_picture_def)
  moreover have "cell_index row col < MAX_COLUMNS * MAX_ROWS"
    using rc g(1,2) by (intro cell_index_bound) auto
  ultimately show ?thesis
    using fb' con' bg drawn_in_bounds [OF fb'(2)] drawn_dirty_sound [OF fb'(2)]
    by (auto simp: tty_step_def synced_def set_cell_def drawn_def)
qed

section \<open>Each operation keeps the console in step\<close>

text \<open>Moving the cursor on the grid, changing the foreground, editing the input buffer.\<close>

lemma synced_same_cells:
  assumes "synced i (con, fb)" and "con_inv i con'" and "cells con' = cells con"
    and "con_font con' = con_font con" and "background con' = background con"
  shows "tty_step i (con, fb) (con', fb)"
proof -
  have "columns con' = columns con" "rows con' = rows con"
    using assms(1,2) by (auto simp: con_inv_def synced_def)
  then have "console_picture i con' = console_picture i con"
    using assms(3,4) by (simp add: console_picture_def fun_eq_iff get_cell_def)
  then show ?thesis using assms by (simp add: tty_step_def synced_def in_bounds_def)
qed

lemma copy_rows_up:
  assumes "cols \<le> 240" and "n \<le> 67" and "1 \<le> m" and "m \<le> n"
  shows "\<exists>cs'. for_each [1 ..< m] (copy_row_up cols) cs = Done cs' \<and>
    (\<forall>r c. c < 240 \<longrightarrow> cs' (cell_index r c) =
       (if r + 1 < m \<and> c < cols then cs (cell_index (r + 1) c) else cs (cell_index r c))) \<and>
    (\<forall>k. MAX_COLUMNS * MAX_ROWS \<le> k \<longrightarrow> cs' k = cs k)"
  using assms(3,4)
proof (induction m rule: nat_induct_at_least)
  case base
  then show ?case by simp
next
  case (Suc m)
  obtain cs1 where cs1: "for_each [1 ..< m] (copy_row_up cols) cs = Done cs1"
    and at: "\<And>r c. c < 240 \<Longrightarrow> cs1 (cell_index r c) =
       (if r + 1 < m \<and> c < cols then cs (cell_index (r + 1) c) else cs (cell_index r c))"
    and out: "\<And>k. MAX_COLUMNS * MAX_ROWS \<le> k \<Longrightarrow> cs1 k = cs k"
    using Suc.IH Suc.prems by auto
  let ?cs2 = "copy_within (m * 240) ((m - 1) * 240) cols cs1"
  have m: "m < 67" "(m - 1) * 240 + 240 = m * 240" using Suc.prems Suc.hyps assms(2) by (auto simp: algebra_simps)
  then have end_m: "m * 240 + cols \<le> 16080" using assms(1) by linarith
  have "copy_row_up cols m cs1 = Done ?cs2"
    using end_m m by (simp add: copy_row_up_def Let_def)
  then have "for_each [1 ..< Suc m] (copy_row_up cols) cs = Done ?cs2"
    using cs1 Suc.hyps by (simp add: for_each_append)
  moreover have "?cs2 (cell_index r c) =
      (if r + 1 < Suc m \<and> c < cols then cs (cell_index (r + 1) c) else cs (cell_index r c))"
    if c: "c < 240" for r c
  proof (cases "r = m - 1 \<and> c < cols")
    case True
    then have "?cs2 (cell_index r c) = cs1 (cell_index m c)"
      by (simp add: copy_within_def cell_index_def)
    also have "\<dots> = cs (cell_index m c)" using at [OF c, of m] by simp
    finally show ?thesis using True Suc.hyps by simp
  next
    case False
    have "\<not> ((m - 1) * 240 \<le> cell_index r c \<and> cell_index r c < (m - 1) * 240 + cols)"
      using row_col [OF c, of 0 cols "m - 1" r] assms(1) False by (simp add: cell_index_def)
    then have "?cs2 (cell_index r c) = cs1 (cell_index r c)" by (simp only: copy_within_def if_False)
    then show ?thesis using at [OF c, of r] False Suc.hyps by auto
  qed
  moreover have "?cs2 k = cs k" if k: "MAX_COLUMNS * MAX_ROWS \<le> k" for k
    using k end_m m(2) out [OF k] by (auto simp: copy_within_def)
  ultimately show ?case by blast
qed

text \<open>The cells after a scroll: every row has moved up, the last one is empty.\<close>

lemma scrolled_cells:
  assumes con: "grid_ok con" and rows: "0 < rows con"
  obtains cs where "for_each [1 ..< rows con] (copy_row_up (columns con)) (cells con) = Done cs"
    and "\<And>r c. r < rows con \<Longrightarrow> c < columns con \<Longrightarrow>
      fill_slice (cell_index (rows con - 1) 0) MAX_COLUMNS EMPTY cs (cell_index r c) =
      (if r + 1 < rows con then get_cell (r + 1) c con else EMPTY)"
    and "\<And>k. MAX_COLUMNS * MAX_ROWS \<le> k \<Longrightarrow>
      fill_slice (cell_index (rows con - 1) 0) MAX_COLUMNS EMPTY cs k = cells con k"
proof -
  have g: "columns con \<le> 240" "rows con \<le> 67" using con by (simp_all add: grid_ok_def)
  have "1 \<le> rows con" using rows by simp
  then obtain cs where cs: "for_each [1 ..< rows con] (copy_row_up (columns con)) (cells con) = Done cs"
    and at: "\<And>r c. c < 240 \<Longrightarrow> cs (cell_index r c) =
       (if r + 1 < rows con \<and> c < columns con then cells con (cell_index (r + 1) c)
        else cells con (cell_index r c))"
    and out: "\<And>k. MAX_COLUMNS * MAX_ROWS \<le> k \<Longrightarrow> cs k = cells con k"
    using copy_rows_up [OF g(1,2) _ order_refl, of "cells con"] by blast
  let ?last = "fill_slice (cell_index (rows con - 1) 0) MAX_COLUMNS EMPTY cs"
  have "?last (cell_index r c) = (if r + 1 < rows con then get_cell (r + 1) c con else EMPTY)"
    if rc: "r < rows con" "c < columns con" for r c
  proof -
    have c: "c < 240" using rc g(1) by simp
    have "cell_index (rows con - 1) 0 \<le> cell_index r c \<and>
        cell_index r c < cell_index (rows con - 1) 0 + MAX_COLUMNS \<longleftrightarrow> r = rows con - 1"
      using row_col [OF c, of 0 240 "rows con - 1" r] c by (simp add: cell_index_def)
    then have "?last (cell_index r c) = (if r = rows con - 1 then EMPTY else cs (cell_index r c))"
      by (simp only: fill_slice_def)
    then show ?thesis using at [OF c, of r] rc by (auto simp: get_cell_def)
  qed
  moreover have "?last k = cells con k" if "MAX_COLUMNS * MAX_ROWS \<le> k" for k
  proof -
    have "(rows con - 1) * 240 + 240 \<le> 16080" using g(2) rows by (simp add: algebra_simps)
    then show ?thesis using that out [OF that] by (simp add: fill_slice_def cell_index_def)
  qed
  ultimately show thesis using that [OF cs] by blast
qed

lemma synced_scroll:
  assumes s: "synced i (con, fb)"
  shows "\<exists>t'. scroll (con, fb) = Done t' \<and> tty_step i (con, fb) t'"
proof (cases "rows con = 0")
  case True
  then show ?thesis using tty_step_refl [OF s] by (auto simp: scroll_def)
next
  case False
  have con: "con_inv i con" and inv: "fb_inv i fb" and bg: "background con = BLACK"
    and pic: "shows_picture i (console_picture i con) fb" using s by (simp_all add: synced_def)
  note g = grid [OF con fb_inv_ok [OF inv]]
  obtain fb' where fb': "scroll_up 16 BLACK fb = Done fb'"
    "drawn i (\<lambda>_ _. (0::nat) < 16) (scrolled i 16 BLACK fb) fb fb'"
    using scroll_up_drawn [OF inv] by blast
  obtain cs where cs: "for_each [1 ..< rows con] (copy_row_up (columns con)) (cells con) = Done cs"
    and at: "\<And>r c. r < rows con \<Longrightarrow> c < columns con \<Longrightarrow>
      fill_slice (cell_index (rows con - 1) 0) MAX_COLUMNS EMPTY cs (cell_index r c) =
      (if r + 1 < rows con then get_cell (r + 1) c con else EMPTY)"
    and out: "\<And>k. MAX_COLUMNS * MAX_ROWS \<le> k \<Longrightarrow>
      fill_slice (cell_index (rows con - 1) 0) MAX_COLUMNS EMPTY cs k = cells con k"
    using scrolled_cells [OF con_inv_grid_ok [OF con fb_inv_ok [OF inv]]] False by auto
  let ?last = "fill_slice (cell_index (rows con - 1) 0) MAX_COLUMNS EMPTY cs"
  let ?con = "con\<lparr>cells := ?last, cursor_x := 0, cursor_y := rows con - 1\<rparr>"
  have run: "scroll (con, fb) = Done (?con, fb')"
    using False fb'(1) cs bg by (simp add: scroll_def clear_row_def Let_def)
  have con': "con_inv i ?con" using con False by (auto simp: con_inv_def)
  have cell: "get_cell r c ?con = (if r + 1 < rows con then get_cell (r + 1) c con else EMPTY)"
    if "r < rows con" "c < columns con" for r c
    using at [OF that] by (simp add: get_cell_def)
  have empty: "cell_pixel i f EMPTY dx dy = pixel_of i BLACK" for f dx dy
    by (simp add: cell_pixel_def EMPTY_def DEFAULT_BACKGROUND_def)
  have "scrolled i 16 BLACK fb x y = console_picture i ?con x y" if on: "on_screen i x y" for x y
  proof -
    have y16: "(y + 16) div 16 = y div 16 + 1" "(y + 16) mod 16 = y mod 16" by simp_all
    have p: "pixel_at i fb x (y + 16) = console_picture i con x (y + 16)" if "y + 16 < scr_height i"
      using pic on that by (simp add: shows_picture_def on_screen_def)
    have above: "y + 16 < scr_height i" if "y div 16 + 1 < rows con"
      using that g(4) by linarith
    show ?thesis
    proof (cases "x div 8 < columns con \<and> y div 16 < rows con")
      case True
      then show ?thesis
        using cell [of "y div 16" "x div 8"] p above
        by (auto simp: scrolled_def console_picture_def empty y16)
    next
      case False
      then have "\<not> (x div 8 < columns con \<and> y div 16 + 1 < rows con)" by auto
      then show ?thesis using False p by (auto simp: scrolled_def console_picture_def y16)
    qed
  qed
  then have "shows_picture i (console_picture i ?con) fb'"
    using fb'(2) by (simp add: drawn_def shows_picture_def)
  then show ?thesis
    using run con' bg fb'(2) out drawn_in_bounds [OF fb'(2)] drawn_dirty_sound [OF fb'(2)]
    by (auto simp: tty_step_def synced_def drawn_def)
qed

text \<open>Operations composed with \<open>andthen\<close>.\<close>

definition keeps :: "info \<Rightarrow> (tty \<Rightarrow> tty outcome) \<Rightarrow> bool" where
  "keeps i f \<longleftrightarrow> (\<forall>t. synced i t \<longrightarrow> (\<exists>t'. f t = Done t' \<and> tty_step i t t'))"

lemma keepsD: "keeps i f \<Longrightarrow> synced i t \<Longrightarrow> \<exists>t'. f t = Done t' \<and> tty_step i t t'"
  unfolding keeps_def by blast

lemma keepsI: "(\<And>con fb. synced i (con, fb) \<Longrightarrow> \<exists>t'. f (con, fb) = Done t' \<and> tty_step i (con, fb) t') \<Longrightarrow> keeps i f"
  by (simp add: keeps_def split_paired_All)

lemma keeps_for_each:
  assumes "\<And>x. x \<in> set xs \<Longrightarrow> keeps i (f x)"
  shows "keeps i (for_each xs f)"
  using assms
proof (induction xs)
  case Nil
  then show ?case by (simp add: keeps_def tty_step_refl)
next
  case (Cons x xs)
  show ?case
    unfolding keeps_def
  proof (intro allI impI)
    fix t assume "synced i t"
    then obtain u where u: "f x t = Done u" "tty_step i t u" using keepsD [OF Cons.prems] by (meson list.set_intros(1))
    have "keeps i (for_each xs f)" using Cons.IH Cons.prems by simp
    then obtain v where v: "for_each xs f u = Done v" "tty_step i u v"
      using keepsD tty_step_synced [OF u(2)] by blast
    have "for_each (x # xs) f t = Done v" using u(1) v(1) by simp
    then show "\<exists>t'. for_each (x # xs) f t = Done t' \<and> tty_step i t t'"
      using tty_step_trans [OF u(2) v(2)] by blast
  qed
qed

lemma keeps_newline: "keeps i newline"
proof (rule keepsI)
  fix con fb assume s: "synced i (con, fb)"
  then have con: "con_inv i con" by (simp add: synced_def)
  let ?con = "con\<lparr>cursor_x := 0\<rparr>"
  have con1: "con_inv i ?con" using con by (auto simp: con_inv_def)
  have st: "tty_step i (con, fb) (?con, fb)"
    by (rule synced_same_cells [OF s con1]) simp_all
  show "\<exists>t'. newline (con, fb) = Done t' \<and> tty_step i (con, fb) t'"
  proof (cases "rows con \<noteq> 0 \<and> \<not> cursor_y con + 1 < rows con")
    case True
    obtain t' where "scroll (?con, fb) = Done t'" "tty_step i (?con, fb) t'"
      using synced_scroll [OF tty_step_synced [OF st]] by blast
    then show ?thesis using True tty_step_trans [OF st] by (auto simp: newline_def Let_def)
  next
    case False
    have "con_inv i (?con\<lparr>cursor_y := cursor_y con + 1\<rparr>)" if "rows con \<noteq> 0"
      using False that con by (auto simp: con_inv_def)
    then have "tty_step i (con, fb) (?con\<lparr>cursor_y := cursor_y con + 1\<rparr>, fb)" if "rows con \<noteq> 0"
      using that by (intro synced_same_cells [OF s]) simp_all
    then show ?thesis using False st by (auto simp: newline_def Let_def)
  qed
qed

lemma keeps_write_cell: "keeps i (write_cell ch)"
proof (rule keepsI)
  fix con fb assume s: "synced i (con, fb)"
  then have con: "con_inv i con" by (simp add: synced_def)
  show "\<exists>t'. write_cell ch (con, fb) = Done t' \<and> tty_step i (con, fb) t'"
  proof (cases "columns con = 0 \<or> rows con = 0")
    case True
    then show ?thesis using tty_step_refl [OF s] by (auto simp: write_cell_def)
  next
    case False
    then have at: "cursor_y con < rows con" "cursor_x con < columns con"
      using con by (auto simp: con_inv_def)
    let ?c = "\<lparr>character = ch, cell_foreground = foreground con, cell_background = background con\<rparr>"
    let ?con = "set_cell (cursor_y con) (cursor_x con) ?c con"
    let ?con' = "?con\<lparr>cursor_x := cursor_x con + 1\<rparr>"
    obtain fb' where fb': "render_cell (cursor_y con) (cursor_x con) ?con fb = Done fb'"
      "tty_step i (con, fb) (?con, fb')" using synced_set_cell [OF s at] by blast
    note s' = tty_step_synced [OF fb'(2)]
    have eq: "cursor_x ?con = cursor_x con" "columns ?con = columns con" by (simp_all add: set_cell_def)
    show ?thesis
    proof (cases "columns con \<le> cursor_x con + 1")
      case True
      have "newline (?con', fb') = newline (?con, fb')" by (simp add: newline_def)
      moreover obtain t' where "newline (?con, fb') = Done t'" "tty_step i (?con, fb') t'"
        using keepsD [OF keeps_newline s'] by blast
      ultimately show ?thesis
        using True False at fb' eq tty_step_trans [OF fb'(2)]
        by (auto simp: write_cell_def Let_def)
    next
      case F2: False
      have "con_inv i ?con'" using con F2 by (auto simp: con_inv_def set_cell_def)
      then have "tty_step i (?con, fb') (?con', fb')"
        by (intro synced_same_cells [OF s']) simp_all
      then show ?thesis
        using False F2 at fb' eq tty_step_trans [OF fb'(2)]
        by (auto simp: write_cell_def Let_def)
    qed
  qed
qed

lemma keeps_backspace: "keeps i backspace"
proof (rule keepsI)
  fix con fb assume s: "synced i (con, fb)"
  then have con: "con_inv i con" by (simp add: synced_def)
  show "\<exists>t'. backspace (con, fb) = Done t' \<and> tty_step i (con, fb) t'"
  proof (cases "cursor_x con = 0 \<and> cursor_y con = 0")
    case True
    then show ?thesis using tty_step_refl [OF s] by (auto simp: backspace_def)
  next
    case False
    define c1 where "c1 = (if cursor_x con = 0
      then con\<lparr>cursor_y := cursor_y con - 1, cursor_x := columns con - 1\<rparr>
      else con\<lparr>cursor_x := cursor_x con - 1\<rparr>)"
    have con1: "con_inv i c1"
      using con False by (auto simp: c1_def con_inv_def max_def split: if_splits)
    have st: "tty_step i (con, fb) (c1, fb)"
      by (rule synced_same_cells [OF s con1]) (auto simp: c1_def)
    have dims: "rows c1 = rows con" "columns c1 = columns con" by (auto simp: c1_def)
    let ?c2 = "set_cell (cursor_y c1) (cursor_x c1) EMPTY c1"
    have dims2: "rows ?c2 = rows con" "columns ?c2 = columns con" using dims by (auto simp: set_cell_def)
    have curs2: "cursor_y ?c2 = cursor_y c1" "cursor_x ?c2 = cursor_x c1"
      by (simp_all add: set_cell_def)
    have run: "backspace (con, fb) = andthen (render_cell (cursor_y c1) (cursor_x c1) ?c2 fb)
        (\<lambda>fb'. Done (?c2, fb'))"
      using False unfolding backspace_def Let_def prod.case c1_def [symmetric] curs2
      by (simp only: if_False)
    show ?thesis
    proof (cases "cursor_y c1 < rows con \<and> cursor_x c1 < columns con")
      case True
      obtain fb' where "render_cell (cursor_y c1) (cursor_x c1) ?c2 fb = Done fb'"
        "tty_step i (c1, fb) (?c2, fb')"
        using synced_set_cell [OF tty_step_synced [OF st], of "cursor_y c1" "cursor_x c1" EMPTY]
          True dims by auto
      then show ?thesis
        using run tty_step_trans [OF st] by auto
    next
      case F2: False
      then have zero: "rows con = 0 \<or> columns con = 0" using con1 dims by (auto simp: con_inv_def)
      have g: "columns con \<le> 240" "rows con \<le> 67"
        using s grid [OF con] by (auto simp: synced_def fb_inv_def)
      have "render_cell (cursor_y c1) (cursor_x c1) ?c2 fb = Done fb"
        using zero dims2 by (auto simp: render_cell_def)
      moreover have "tty_step i (c1, fb) (?c2, fb)"
      proof -
        have "con_inv i ?c2" using con1 by (auto simp: con_inv_def set_cell_def)
        moreover have "console_picture i ?c2 = console_picture i c1"
          using zero dims dims2 by (auto simp: console_picture_def fun_eq_iff)
        moreover have "cell_index (cursor_y c1) (cursor_x c1) < MAX_COLUMNS * MAX_ROWS"
          using con1 dims g
          by (intro cell_index_bound) (auto simp: con_inv_def max_def split: if_splits)
        ultimately show ?thesis
          using tty_step_synced [OF st]
          by (auto simp: tty_step_def synced_def in_bounds_def set_cell_def)
      qed
      ultimately show ?thesis
        using run tty_step_trans [OF st] by auto
    qed
  qed
qed

lemma keeps_put_char: "keeps i (put_char ch)"
proof (rule keepsI)
  fix con fb assume s: "synced i (con, fb)"
  then have con: "con_inv i con" by (simp add: synced_def)
  have cr: "tty_step i (con, fb) (con\<lparr>cursor_x := 0\<rparr>, fb)"
    by (rule synced_same_cells [OF s]) (use con in \<open>auto simp: con_inv_def\<close>)
  have tab: "tty_step i (con, fb) (con\<lparr>cursor_x := n\<rparr>, fb)" if "\<not> columns con \<le> n" for n
    by (rule synced_same_cells [OF s]) (use con that in \<open>auto simp: con_inv_def\<close>)
  show "\<exists>t'. put_char ch (con, fb) = Done t' \<and> tty_step i (con, fb) t'"
    using keepsD [OF keeps_newline s] keepsD [OF keeps_backspace s]
      keepsD [OF keeps_write_cell s, of ch] tty_step_refl [OF s] cr tab
    by (auto simp: put_char_def Let_def)
qed

lemma keeps_write_str: "keeps i (write_str str)"
  using keeps_for_each [of str i put_char] keeps_put_char
  by (simp add: keeps_def write_str_def)

text \<open>\<open>clear\<close> puts any console on the default background in step, and all of the screen is dirty.\<close>

lemma clear_console_step:
  assumes con: "con_inv i con" and inv: "fb_inv i fb" and bg: "background con = BLACK"
  shows "\<exists>t'. clear_console (con, fb) = Done t' \<and> tty_step i (con, fb) t' \<and>
    (\<forall>x y. on_screen i x y \<longrightarrow> in_dirty (snd t') x y)"
proof -
  note g = grid [OF con fb_inv_ok [OF inv]]
  let ?cs = "fill_slice 0 (MAX_COLUMNS * MAX_ROWS) EMPTY (cells con)"
  let ?con = "con\<lparr>cells := ?cs, cursor_x := 0, cursor_y := 0, input_len := 0, line_ready := False\<rparr>"
  obtain fb' where fb': "clear BLACK fb = Done fb'" "drawn i (\<lambda>_ _. True) (\<lambda>_ _. pixel_of i BLACK) fb fb'"
    using clear_drawn [OF inv] by blast
  have "get_cell r c ?con = EMPTY" if "r < rows con" "c < columns con" for r c
    using that g cell_index_bound [of c r] by (simp add: get_cell_def fill_slice_def)
  then have "console_picture i ?con x y = pixel_of i BLACK" for x y
    by (simp add: console_picture_def cell_pixel_def EMPTY_def DEFAULT_BACKGROUND_def)
  then have "shows_picture i (console_picture i ?con) fb'"
    using fb'(2) by (simp add: drawn_def shows_picture_def)
  moreover have "con_inv i ?con" using con by (auto simp: con_inv_def)
  ultimately have "tty_step i (con, fb) (?con, fb')"
    using bg fb'(2) drawn_in_bounds [OF fb'(2)] drawn_dirty_sound [OF fb'(2)]
    by (auto simp: tty_step_def synced_def drawn_def fill_slice_def)
  moreover have "\<forall>x y. on_screen i x y \<longrightarrow> in_dirty fb' x y" using fb'(2) by (simp add: drawn_def)
  ultimately show ?thesis
    using fb'(1) bg by (intro exI [of _ "(?con, fb')"]) (auto simp: clear_console_def)
qed

lemma keeps_clear: "keeps i clear_console"
proof (rule keepsI)
  fix con fb assume "synced i (con, fb)"
  then show "\<exists>t'. clear_console (con, fb) = Done t' \<and> tty_step i (con, fb) t'"
    using clear_console_step [of i con fb] by (auto simp: synced_def)
qed

lemma keeps_receive_key: "keeps i (receive_key key)"
proof (rule keepsI)
  fix con fb assume s: "synced i (con, fb)"
  then have con: "con_inv i con" by (simp add: synced_def)
  consider "key = 10 \<or> key = 13" | "key = 8 \<or> key = 127" "0 < input_len con \<and> 2 < cursor_x con"
    | "32 \<le> key" "key < 127" "input_len con < 256"
    | "\<not> (key = 10 \<or> key = 13)"
      "(key = 8 \<or> key = 127) \<and> \<not> (0 < input_len con \<and> 2 < cursor_x con) \<or>
       \<not> (key = 8 \<or> key = 127) \<and> \<not> (32 \<le> key \<and> key < 127 \<and> input_len con < 256)"
    by linarith
  then show "\<exists>t'. receive_key key (con, fb) = Done t' \<and> tty_step i (con, fb) t'"
  proof cases
    case 1
    obtain c1 f1 where t: "put_char (CHR 0x0A) (con, fb) = Done (c1, f1)" "tty_step i (con, fb) (c1, f1)"
      using keepsD [OF keeps_put_char s, of "CHR 0x0A"] by auto
    note s1 = tty_step_synced [OF t(2)]
    have "tty_step i (c1, f1) (c1\<lparr>line_ready := True\<rparr>, f1)"
      by (rule synced_same_cells [OF s1]) (use s1 in \<open>auto simp: con_inv_def synced_def\<close>)
    then show ?thesis using 1 t tty_step_trans [OF t(2)] by (auto simp: receive_key_def)
  next
    case 2
    let ?con = "con\<lparr>input_len := input_len con - 1\<rparr>"
    have st: "tty_step i (con, fb) (?con, fb)"
      by (rule synced_same_cells [OF s]) (use con in \<open>auto simp: con_inv_def\<close>)
    then show ?thesis
      using 2 keepsD [OF keeps_put_char tty_step_synced [OF st], of "CHR 0x08"] tty_step_trans [OF st]
      by (auto simp: receive_key_def)
  next
    case 3
    let ?con = "con\<lparr>input := (input con)[input_len con := char_of key], input_len := input_len con + 1\<rparr>"
    have st: "tty_step i (con, fb) (?con, fb)"
      by (rule synced_same_cells [OF s]) (use con 3 in \<open>auto simp: con_inv_def\<close>)
    have "store (input con) (input_len con) (char_of key) = Done ((input con)[input_len con := char_of key])"
      using con 3 by (simp add: con_inv_def)
    then show ?thesis
      using 3 keepsD [OF keeps_put_char tty_step_synced [OF st], of "char_of key"] tty_step_trans [OF st]
      by (auto simp: receive_key_def)
  next
    case 4
    then have "receive_key key (con, fb) = Done (con, fb)" by (auto simp: receive_key_def)
    then show ?thesis using tty_step_refl [OF s] by blast
  qed
qed

definition render_tty :: "tty \<Rightarrow> tty outcome" where
  "render_tty t = andthen (render (fst t) (snd t)) (\<lambda>fb. Done (fst t, fb))"

definition with_foreground :: "color \<Rightarrow> tty \<Rightarrow> tty outcome" where
  "with_foreground c t = Done (set_foreground c (fst t), snd t)"

definition read_line_tty :: "tty \<Rightarrow> tty outcome" where
  "read_line_tty t = andthen (read_line (replicate INPUT_SIZE (CHR 0x00)) (fst t))
     (\<lambda>(n, buffer, con). Done (con, snd t))"

lemma keeps_with_foreground: "keeps i (with_foreground c)"
proof (rule keepsI)
  fix con fb assume s: "synced i (con, fb)"
  have "tty_step i (con, fb) (set_foreground c con, fb)"
    by (rule synced_same_cells [OF s]) (use s in \<open>auto simp: set_foreground_def con_inv_def synced_def\<close>)
  then show "\<exists>t'. with_foreground c (con, fb) = Done t' \<and> tty_step i (con, fb) t'"
    by (simp add: with_foreground_def)
qed

lemma read_line_Done:
  assumes "con_inv i con" and "length buffer = INPUT_SIZE"
  shows "read_line buffer con = Done (if line_ready con
    then (Some (input_len con), take (input_len con) (input con) @ drop (input_len con) buffer,
          con\<lparr>input_len := 0, line_ready := False\<rparr>)
    else (None, buffer, con))"
  using assms by (simp add: read_line_def con_inv_def subslice_def Let_def min_def)

lemma keeps_read_line: "keeps i read_line_tty"
proof (rule keepsI)
  fix con fb assume s: "synced i (con, fb)"
  then have con: "con_inv i con" by (simp add: synced_def)
  have "tty_step i (con, fb) (con\<lparr>input_len := 0, line_ready := False\<rparr>, fb)"
    by (rule synced_same_cells [OF s]) (use con in \<open>auto simp: con_inv_def\<close>)
  then show "\<exists>t'. read_line_tty (con, fb) = Done t' \<and> tty_step i (con, fb) t'"
    using read_line_Done [OF con, of "replicate INPUT_SIZE (CHR 0x00)"] tty_step_refl [OF s]
    by (simp add: read_line_tty_def)
qed

end
