(* ===== verification/Terminal.thy ===== *)
theory Terminal
  imports Console_Correct
begin

text \<open>
  The global console of \<open>src/console.rs\<close>: the static \<open>CONSOLE\<close> with its initialised flag
  (\<open>None\<close> before \<open>console::init\<close>), the framebuffer behind it, the serial mirror flag, and what was
  sent to the serial port. Formatting belongs to the standard library; the functions take the
  formatted text.
\<close>

record ui =
  ui_console :: "console option"
  ui_fb :: framebuffer
  serial_mirror :: bool
  serial_out :: string

text \<open>The statics before \<open>kinit\<close>.\<close>

definition ui_static :: "framebuffer \<Rightarrow> ui" where
  "ui_static fb = \<lparr>ui_console = None, ui_fb = fb, serial_mirror = False, serial_out = []\<rparr>"

definition with_console :: "(tty \<Rightarrow> tty outcome) \<Rightarrow> ui \<Rightarrow> ui outcome" where
  "with_console f u =
     (case ui_console u of
        None \<Rightarrow> Panic (Explicit ''console used before console::init()'')
      | Some con \<Rightarrow>
          andthen (f (con, ui_fb u)) (\<lambda>(con', fb').
            Done (u\<lparr>ui_console := Some con', ui_fb := fb'\<rparr>)))"

definition present_ui :: "ui \<Rightarrow> ui outcome" where
  "present_ui u = andthen (present (ui_fb u)) (\<lambda>fb'. Done (u\<lparr>ui_fb := fb'\<rparr>))"

definition prompt :: "tty \<Rightarrow> tty outcome" where
  "prompt t = andthen (put_char (CHR ''>'') t) (put_char (CHR '' ''))"

definition console_init :: "8 word list \<Rightarrow> ui \<Rightarrow> ui outcome" where
  "console_init font_file u =
     andthen (fb_width (ui_fb u)) (\<lambda>w.
     andthen (fb_height (ui_fb u)) (\<lambda>h.
     andthen (console_new font_file w h) (\<lambda>con.
     andthen (with_console clear_console (u\<lparr>ui_console := Some con\<rparr>)) (\<lambda>u1.
     andthen (with_console prompt u1) present_ui))))"

definition write_fmt :: "string \<Rightarrow> ui \<Rightarrow> ui outcome" where
  "write_fmt str u = andthen (with_console (write_str str) u) present_ui"

definition write_fmt_color :: "color \<Rightarrow> string \<Rightarrow> ui \<Rightarrow> ui outcome" where
  "write_fmt_color c str u =
     (case ui_console u of
        None \<Rightarrow> Panic (Explicit ''console used before console::init()'')
      | Some con \<Rightarrow>
          andthen (with_console (\<lambda>(con, fb). Done (con\<lparr>foreground := c\<rparr>, fb)) u) (\<lambda>u1.
          andthen (write_fmt str u1) (\<lambda>u2.
          andthen (with_console (\<lambda>(con', fb). Done (con'\<lparr>foreground := foreground con\<rparr>, fb)) u2)
            present_ui)))"

definition global_clear :: "ui \<Rightarrow> ui outcome" where
  "global_clear u = andthen (with_console clear_console u) present_ui"

definition global_read_line :: "string \<Rightarrow> ui \<Rightarrow> (nat option \<times> string \<times> ui) outcome" where
  "global_read_line buffer u =
     (case ui_console u of
        None \<Rightarrow> Panic (Explicit ''console used before console::init()'')
      | Some con \<Rightarrow>
          andthen (read_line buffer con) (\<lambda>(n, buffer', con').
            Done (n, buffer', u\<lparr>ui_console := Some con'\<rparr>)))"

section \<open>Printing, mirrored to the serial port\<close>

definition set_serial_mirror :: "bool \<Rightarrow> ui \<Rightarrow> ui" where
  "set_serial_mirror enabled u = u\<lparr>serial_mirror := enabled\<rparr>"

definition serial_mirror_enabled :: "ui \<Rightarrow> bool" where
  "serial_mirror_enabled u = serial_mirror u"

definition serial_write_fmt :: "string \<Rightarrow> ui \<Rightarrow> ui" where
  "serial_write_fmt str u = u\<lparr>serial_out := serial_out u @ str\<rparr>"

definition mirrored :: "string \<Rightarrow> ui \<Rightarrow> ui outcome" where
  "mirrored str u = Done (if serial_mirror_enabled u then serial_write_fmt str u else u)"

definition write_fmt_mirrored :: "string \<Rightarrow> ui \<Rightarrow> ui outcome" where
  "write_fmt_mirrored str u = andthen (write_fmt str u) (mirrored str)"

definition write_fmt_color_mirrored :: "color \<Rightarrow> string \<Rightarrow> ui \<Rightarrow> ui outcome" where
  "write_fmt_color_mirrored c str u = andthen (write_fmt_color c str u) (mirrored str)"

text \<open>The macros \<open>console_print!\<close>, \<open>console_println!\<close> and their coloured versions.\<close>

definition console_print :: "string \<Rightarrow> ui \<Rightarrow> ui outcome" where
  "console_print str u = andthen (write_fmt str u) (mirrored str)"

definition console_println :: "string \<Rightarrow> ui \<Rightarrow> ui outcome" where
  "console_println str u = andthen (write_fmt (str @ [CHR 0x0A]) u) (mirrored (str @ [CHR 0x0A]))"

definition console_print_color :: "color \<Rightarrow> string \<Rightarrow> ui \<Rightarrow> ui outcome" where
  "console_print_color c str u = andthen (write_fmt_color c str u) (mirrored str)"

definition console_println_color :: "color \<Rightarrow> string \<Rightarrow> ui \<Rightarrow> ui outcome" where
  "console_println_color c str u =
     andthen (write_fmt_color c (str @ [CHR 0x0A]) u) (mirrored (str @ [CHR 0x0A]))"

text \<open>\<open>console::receive_key\<close> for every key but Enter, which hands the line to the shell.\<close>

definition receive_char :: "nat \<Rightarrow> ui \<Rightarrow> ui outcome" where
  "receive_char key u = andthen (with_console (receive_key key) u) present_ui"

section \<open>The screen shows the console\<close>

definition all_shown :: "info \<Rightarrow> framebuffer \<Rightarrow> bool" where
  "all_shown i s \<longleftrightarrow> (\<forall>x y. on_screen i x y \<longrightarrow> shown i s x y)"

definition ui_ok :: "info \<Rightarrow> ui \<Rightarrow> bool" where
  "ui_ok i u \<longleftrightarrow> (\<exists>con. ui_console u = Some con \<and> synced i (con, ui_fb u)) \<and> all_shown i (ui_fb u)"

text \<open>The screen, read from the hardware framebuffer, byte by byte.\<close>

definition screen_is :: "info \<Rightarrow> picture \<Rightarrow> framebuffer \<Rightarrow> bool" where
  "screen_is i p s \<longleftrightarrow> (\<forall>x y c. on_screen i x y \<longrightarrow> c < 4 \<longrightarrow>
     front s (y * scr_pitch i + 4 * x + c) = ucast (drop_bit (8 * c) (p x y)))"

lemma screen_isI:
  assumes "all_shown i s" and "shows_picture i p s"
  shows "screen_is i p s"
  unfolding screen_is_def
proof (intro allI impI)
  fix x y c assume on: "on_screen i x y" and c: "(c :: nat) < 4"
  have "front s (y * scr_pitch i + 4 * x + c) = ucast (drop_bit (8 * c) (pixel_at i s x y))"
    using assms(1) on c by (simp only: all_shown_def shown_def back_byte_pixel pixel_at_def)
  then show "front s (y * scr_pitch i + 4 * x + c) = ucast (drop_bit (8 * c) (p x y))"
    using assms(2) on by (simp add: shows_picture_def)
qed

lemma all_shown_sound: "all_shown i s \<Longrightarrow> dirty_sound i s"
  by (simp add: all_shown_def dirty_sound_def)

text \<open>Between presents: everything but the front buffer is in step.\<close>

definition ui_mid :: "info \<Rightarrow> ui \<Rightarrow> bool" where
  "ui_mid i u \<longleftrightarrow> (\<exists>con. ui_console u = Some con \<and> synced i (con, ui_fb u)) \<and> dirty_sound i (ui_fb u)"

lemma ui_ok_mid: "ui_ok i u \<Longrightarrow> ui_mid i u"
  by (auto simp: ui_ok_def ui_mid_def all_shown_sound)

lemma with_console_mid:
  assumes "keeps i f" and "ui_mid i u"
  shows "\<exists>u'. with_console f u = Done u' \<and> ui_mid i u' \<and>
    serial_mirror u' = serial_mirror u \<and> serial_out u' = serial_out u"
proof -
  obtain con where con: "ui_console u = Some con" "synced i (con, ui_fb u)" "dirty_sound i (ui_fb u)"
    using assms(2) by (auto simp: ui_mid_def)
  obtain con' fb' where "f (con, ui_fb u) = Done (con', fb')" "tty_step i (con, ui_fb u) (con', fb')"
    using keepsD [OF assms(1) con(2)] by auto
  then show ?thesis
    using con by (auto simp: with_console_def ui_mid_def tty_step_def)
qed

lemma present_ui_ok:
  assumes "ui_mid i u"
  shows "\<exists>u'. present_ui u = Done u' \<and> ui_ok i u' \<and>
    serial_mirror u' = serial_mirror u \<and> serial_out u' = serial_out u \<and> ui_console u' = ui_console u"
proof -
  obtain con where con: "ui_console u = Some con" "synced i (con, ui_fb u)" "dirty_sound i (ui_fb u)"
    using assms by (auto simp: ui_mid_def)
  have inv: "fb_inv i (ui_fb u)" and pic: "shows_picture i (console_picture i con) (ui_fb u)"
    using con(2) by (simp_all add: synced_def)
  obtain fb' where "present (ui_fb u) = Done fb'"
    "fb_step_ok i (console_picture i con) (ui_fb u) fb'" "\<And>x y. on_screen i x y \<Longrightarrow> shown i fb' x y"
    using present_step [OF inv con(3) pic] by blast
  then show ?thesis
    using con(1,2) by (auto simp: present_ui_def ui_ok_def all_shown_def synced_def fb_step_ok_def)
qed

lemma with_console_present:
  assumes "keeps i f" and "ui_mid i u"
  shows "\<exists>u'. andthen (with_console f u) present_ui = Done u' \<and> ui_ok i u' \<and>
    serial_mirror u' = serial_mirror u \<and> serial_out u' = serial_out u"
  using with_console_mid [OF assms] present_ui_ok by fastforce

lemmas write_fmt_ok = with_console_present [OF keeps_write_str, folded write_fmt_def]
lemmas global_clear_ok = with_console_present [OF keeps_clear, folded global_clear_def]
lemmas receive_char_ok = with_console_present [OF keeps_receive_key, folded receive_char_def]

lemma write_fmt_color_ok:
  assumes "ui_mid i u"
  shows "\<exists>u'. write_fmt_color c str u = Done u' \<and> ui_ok i u' \<and>
    serial_mirror u' = serial_mirror u \<and> serial_out u' = serial_out u"
proof -
  have k: "keeps i (\<lambda>(con, fb). Done (con\<lparr>foreground := c\<rparr>, fb))" for c
    using keeps_with_foreground [of i c]
    by (simp add: keeps_def with_foreground_def set_foreground_def split_beta)
  obtain con where con: "ui_console u = Some con" using assms by (auto simp: ui_mid_def)
  obtain u1 where u1: "with_console (\<lambda>(con, fb). Done (con\<lparr>foreground := c\<rparr>, fb)) u = Done u1"
    "ui_mid i u1" "serial_mirror u1 = serial_mirror u" "serial_out u1 = serial_out u"
    using with_console_mid [OF k assms] by blast
  obtain u2 where u2: "write_fmt str u1 = Done u2" "ui_ok i u2"
    "serial_mirror u2 = serial_mirror u1" "serial_out u2 = serial_out u1"
    using write_fmt_ok [OF u1(2)] by blast
  then show ?thesis
    using con u1 with_console_present [OF k ui_ok_mid [OF u2(2)], of "foreground con"]
    by (simp add: write_fmt_color_def)
qed

end
