(* ===== verification/Console_Props.thy ===== *)
theory Console_Props
  imports Terminal
begin

text \<open>
  Properties of the console: the screen always shows the cells, what printing, scrolling and line
  editing do, and where the code departs from what it means to do.
\<close>

section \<open>Starting the console\<close>

lemma synced_new:
  assumes "font_new font_file = Done f" and "font_ok f" and "fb_inv i fb" and "info_ok i"
  shows "\<exists>con. console_new font_file (scr_width i) (scr_height i) = Done con \<and> con_inv i con \<and>
    background con = BLACK \<and> rows con = scr_height i div 16 \<and> columns con = scr_width i div 8"
proof -
  have "scr_width i div 8 \<le> 240" "scr_height i div 16 \<le> 67"
    using assms(4) div_le_mono [of "scr_width i" 1920 8] div_le_mono [of "scr_height i" 1080 16]
    by (simp_all add: info_ok_def)
  then show ?thesis
    using assms(1,2) by (simp add: console_new_def con_inv_def DEFAULT_BACKGROUND_def less_max_iff_disj)
qed

lemma keeps_prompt: "keeps i prompt"
proof -
  have "prompt t = for_each [CHR ''>'', CHR '' ''] put_char t" for t
    by (simp add: prompt_def)
  then show ?thesis using keeps_for_each [of "[CHR ''>'', CHR '' '']" i put_char] keeps_put_char
    by (simp add: keeps_def)
qed

lemma console_init_ok:
  assumes "font_new font_file = Done f" and "font_ok f" and "fb_inv i (ui_fb u)"
  shows "\<exists>u'. console_init font_file u = Done u' \<and> ui_ok i u' \<and>
    serial_mirror u' = serial_mirror u \<and> serial_out u' = serial_out u"
proof -
  note ok = fb_inv_ok [OF assms(3)]
  obtain con where con: "console_new font_file (scr_width i) (scr_height i) = Done con" "con_inv i con"
    "background con = BLACK" using synced_new [OF assms(1-3) ok] by blast
  obtain con1 fb1 where t1: "clear_console (con, ui_fb u) = Done (con1, fb1)" "synced i (con1, fb1)"
    "\<And>x y. on_screen i x y \<Longrightarrow> in_dirty fb1 x y"
    using clear_console_step [OF con(2) assms(3) con(3)] by (auto simp: tty_step_def)
  let ?u0 = "u\<lparr>ui_console := Some con\<rparr>"
  let ?u1 = "?u0\<lparr>ui_console := Some con1, ui_fb := fb1\<rparr>"
  have w1: "with_console clear_console ?u0 = Done ?u1" using t1(1) by (simp add: with_console_def)
  have mid: "ui_mid i ?u1" using t1(2,3) by (simp add: ui_mid_def dirty_sound_def)
  obtain u' where "andthen (with_console prompt ?u1) present_ui = Done u'" "ui_ok i u'"
    "serial_mirror u' = serial_mirror ?u1" "serial_out u' = serial_out ?u1"
    using with_console_present [OF keeps_prompt mid] by blast
  moreover have "fb_width (ui_fb u) = Done (scr_width i)" "fb_height (ui_fb u) = Done (scr_height i)"
    using get_info_inv [OF assms(3)] by (simp_all add: fb_width_def fb_height_def)
  ultimately show ?thesis using con(1) w1 by (simp add: console_init_def)
qed

section \<open>Any history of calls\<close>

datatype ui_call =
    Print string
  | Println string
  | PrintColor color string
  | PrintlnColor color string
  | ClearScreen
  | Key nat
  | SetMirror bool

primrec ui_exec :: "ui_call \<Rightarrow> ui \<Rightarrow> ui outcome" where
  "ui_exec (Print str) u = console_print str u"
| "ui_exec (Println str) u = console_println str u"
| "ui_exec (PrintColor c str) u = console_print_color c str u"
| "ui_exec (PrintlnColor c str) u = console_println_color c str u"
| "ui_exec ClearScreen u = global_clear u"
| "ui_exec (Key k) u = receive_char k u"
| "ui_exec (SetMirror b) u = Done (set_serial_mirror b u)"

text \<open>What the calls send to the serial port: all that is printed while the mirror is on.\<close>

primrec spec_serial :: "ui_call \<Rightarrow> bool \<times> string \<Rightarrow> bool \<times> string" where
  "spec_serial (Print str) m = (fst m, snd m @ (if fst m then str else []))"
| "spec_serial (Println str) m = (fst m, snd m @ (if fst m then str @ [CHR 0x0A] else []))"
| "spec_serial (PrintColor c str) m = (fst m, snd m @ (if fst m then str else []))"
| "spec_serial (PrintlnColor c str) m = (fst m, snd m @ (if fst m then str @ [CHR 0x0A] else []))"
| "spec_serial ClearScreen m = m"
| "spec_serial (Key k) m = m"
| "spec_serial (SetMirror b) m = (b, snd m)"

lemma ui_ok_mirrored:
  assumes "ui_ok i u"
  shows "\<exists>u'. mirrored str u = Done u' \<and> ui_ok i u' \<and> serial_mirror u' = serial_mirror u \<and>
    serial_out u' = serial_out u @ (if serial_mirror u then str else [])"
  using assms by (auto simp: mirrored_def serial_mirror_enabled_def serial_write_fmt_def ui_ok_def)

lemma then_mirrored:
  assumes "\<exists>u'. f u = Done u' \<and> ui_ok i u' \<and> serial_mirror u' = serial_mirror u \<and> serial_out u' = serial_out u"
  shows "\<exists>u'. andthen (f u) (mirrored str) = Done u' \<and> ui_ok i u' \<and>
    (serial_mirror u', serial_out u') =
      (serial_mirror u, serial_out u @ (if serial_mirror u then str else []))"
  using assms ui_ok_mirrored [of i _ str] by fastforce

lemma ui_exec_ok:
  assumes "ui_ok i u"
  shows "\<exists>u'. ui_exec call u = Done u' \<and> ui_ok i u' \<and>
    (serial_mirror u', serial_out u') = spec_serial call (serial_mirror u, serial_out u)"
proof -
  note mid = ui_ok_mid [OF assms]
  show ?thesis
  proof (cases call)
    case (Print str)
    then show ?thesis
      using then_mirrored [of "write_fmt str" u i str] write_fmt_ok [OF mid] by (simp add: console_print_def)
  next
    case (Println str)
    then show ?thesis
      using then_mirrored [of "write_fmt (str @ [CHR 0x0A])" u i "str @ [CHR 0x0A]"] write_fmt_ok [OF mid]
      by (simp add: console_println_def)
  next
    case (PrintColor c str)
    then show ?thesis
      using then_mirrored [of "write_fmt_color c str" u i str] write_fmt_color_ok [OF mid]
      by (simp add: console_print_color_def)
  next
    case (PrintlnColor c str)
    then show ?thesis
      using then_mirrored [of "write_fmt_color c (str @ [CHR 0x0A])" u i "str @ [CHR 0x0A]"] write_fmt_color_ok [OF mid]
      by (simp add: console_println_color_def)
  next
    case ClearScreen
    then show ?thesis using global_clear_ok [OF mid] by auto
  next
    case (Key k)
    then show ?thesis using receive_char_ok [OF mid, of k] by auto
  next
    case (SetMirror b)
    then show ?thesis using assms by (auto simp: set_serial_mirror_def ui_ok_def)
  qed
qed

lemma ui_run_ok:
  assumes "ui_ok i u"
  shows "\<exists>u'. for_each calls ui_exec u = Done u' \<and> ui_ok i u' \<and>
    (serial_mirror u', serial_out u') = fold spec_serial calls (serial_mirror u, serial_out u)"
  using assms
proof (induction calls arbitrary: u)
  case (Cons call calls)
  obtain u1 where u1: "ui_exec call u = Done u1" "ui_ok i u1"
    "(serial_mirror u1, serial_out u1) = spec_serial call (serial_mirror u, serial_out u)"
    using ui_exec_ok [OF Cons.prems] by blast
  then show ?case using Cons.IH [OF u1(2)] by simp
qed simp

text \<open>
  C2. The screen always shows the console: after \<open>fb::init\<close> and \<open>console::init\<close> and any sequence
  of prints, coloured prints, clears, keys and mirror switches, no call fails, and the bytes of the
  hardware framebuffer are exactly the rendering of the console's cells (glyphs on their
  backgrounds, black outside the grid); the serial port has received exactly what was printed
  while mirroring was on.
\<close>

theorem console_on_screen:
  assumes "lf_ok lf" and "font_new font_file = Done f" and "font_ok f"
    and "ui_fb u = fb1" and "fb_init (Some (lf # rest)) fb0 = Done fb1"
  shows "\<exists>u1 u2 con. console_init font_file u = Done u1 \<and> for_each calls ui_exec u1 = Done u2 \<and>
    ui_console u2 = Some con \<and>
    screen_is (info_of lf) (console_picture (info_of lf) con) (ui_fb u2) \<and>
    (serial_mirror u2, serial_out u2) = fold spec_serial calls (serial_mirror u, serial_out u)"
proof -
  let ?i = "info_of lf"
  have "fb_inv ?i (ui_fb u)"
    using fb_init_step [OF assms(1), of rest fb0] assms(4,5) by (auto simp: fb_step_ok_def)
  from console_init_ok [OF assms(2,3) this]
  obtain u1 where u1: "console_init font_file u = Done u1" "ui_ok ?i u1"
    "serial_mirror u1 = serial_mirror u" "serial_out u1 = serial_out u" by blast
  obtain u2 where u2: "for_each calls ui_exec u1 = Done u2" "ui_ok ?i u2"
    "(serial_mirror u2, serial_out u2) = fold spec_serial calls (serial_mirror u1, serial_out u1)"
    using ui_run_ok [OF u1(2)] by blast
  obtain con where con: "ui_console u2 = Some con" "synced ?i (con, ui_fb u2)" "all_shown ?i (ui_fb u2)"
    using u2(2) by (auto simp: ui_ok_def)
  then have "screen_is ?i (console_picture ?i con) (ui_fb u2)"
    by (intro screen_isI) (simp_all add: synced_def)
  then show ?thesis using u1 u2 con by auto
qed

text \<open>A PSF2 file with 128 solid glyphs.\<close>

definition solid_font :: "8 word list" where
  "solid_font = [0x72, 0xb5, 0x4a, 0x86, 0, 0, 0, 0, 32, 0, 0, 0, 0, 0, 0, 0, 128, 0, 0, 0, 64, 0, 0, 0,
     32, 0, 0, 0, 16, 0, 0, 0] @ replicate 8192 255"

lemma solid_font_loads:
  "font_new solid_font = Done \<lparr>font_data = solid_font, header_size = 32, glyph_count = 128, glyph_size = 64\<rparr>"
  "font_ok \<lparr>font_data = solid_font, header_size = 32, glyph_count = 128, glyph_size = 64\<rparr>"
proof -
  show "font_new solid_font = Done \<lparr>font_data = solid_font, header_size = 32, glyph_count = 128, glyph_size = 64\<rparr>"
    unfolding solid_font_def
    by (simp add: font_new_def subslice_def PSF2_MAGIC_def read_u32_def)
  show "font_ok \<lparr>font_data = solid_font, header_size = 32, glyph_count = 128, glyph_size = 64\<rparr>"
    by (simp add: font_ok_def solid_font_def)
qed

theorem console_on_screen_witness:
  "\<exists>fb1 u1 u2 con. fb_init (Some [small_screen]) (fb_static (\<lambda>_. 7)) = Done fb1 \<and>
     console_init solid_font (ui_static fb1) = Done u1 \<and>
     for_each [Println ''hi'', Key 97] ui_exec u1 = Done u2 \<and> ui_console u2 = Some con \<and>
     screen_is (info_of small_screen) (console_picture (info_of small_screen) con) (ui_fb u2)"
proof -
  obtain fb1 where "fb_init (Some [small_screen]) (fb_static (\<lambda>_. 7)) = Done fb1"
    using fb_init_step [OF small_screen_ok] by blast
  then show ?thesis
    using console_on_screen [OF small_screen_ok solid_font_loads, of "ui_static fb1" fb1 "[]"
        "fb_static (\<lambda>_. 7)" "[Println ''hi'', Key 97]"] by (auto simp: ui_static_def)
qed

text \<open>The booted terminal of the witnesses that need one.\<close>

lemma started_ui:
  obtains fb1 u where "console_init solid_font (ui_static fb1) = Done u"
    and "ui_ok (info_of small_screen) u" and "serial_mirror u = False" and "serial_out u = []"
proof -
  obtain fb1 where "fb_inv (info_of small_screen) (ui_fb (ui_static fb1))"
    using fb_init_step [OF small_screen_ok] by (fastforce simp: ui_static_def fb_step_ok_def)
  from console_init_ok [OF solid_font_loads this] show thesis
    using that [of fb1] by (auto simp: ui_static_def)
qed

section \<open>Printing text\<close>

abbreviation printable :: "char \<Rightarrow> bool" where
  "printable ch \<equiv> (of_char ch :: nat) \<in> {0x20..0x7e}"

definition styled :: "console \<Rightarrow> char \<Rightarrow> cell" where
  "styled con ch = \<lparr>character = ch, cell_foreground = foreground con, cell_background = background con\<rparr>"

lemma put_char_printable: "printable ch \<Longrightarrow> put_char ch t = write_cell ch t"
  by (cases t) (auto simp: put_char_def)

text \<open>One printable character before the last column.\<close>

lemma write_cell_effect:
  assumes s: "synced i (con, fb)" and at: "cursor_x con + 1 < columns con" "0 < rows con"
  shows "\<exists>fb'. write_cell ch (con, fb) =
      Done ((set_cell (cursor_y con) (cursor_x con) (styled con ch) con)\<lparr>cursor_x := cursor_x con + 1\<rparr>, fb') \<and>
    synced i ((set_cell (cursor_y con) (cursor_x con) (styled con ch) con)\<lparr>cursor_x := cursor_x con + 1\<rparr>, fb')"
proof -
  have con: "con_inv i con" using s by (simp add: synced_def)
  have y: "cursor_y con < rows con" "cursor_x con < columns con"
    using con at by (auto simp: con_inv_def max_def split: if_splits)
  let ?con = "set_cell (cursor_y con) (cursor_x con) (styled con ch) con"
  obtain fb' where "render_cell (cursor_y con) (cursor_x con) ?con fb = Done fb'"
    using synced_set_cell [OF s y] by blast
  then have "write_cell ch (con, fb) = Done (?con\<lparr>cursor_x := cursor_x con + 1\<rparr>, fb')"
    using at y by (simp add: write_cell_def Let_def styled_def set_cell_def)
  moreover obtain t' where "write_cell ch (con, fb) = Done t'" "tty_step i (con, fb) t'"
    using keepsD [OF keeps_write_cell s] by blast
  ultimately show ?thesis using tty_step_synced by fastforce
qed

lemma get_cell_update [simp]: "get_cell r c (con\<lparr>cursor_x := n\<rparr>) = get_cell r c con"
  by (simp add: get_cell_def)

lemma set_cell_fields [simp]:
  "cursor_x (set_cell r c v con) = cursor_x con" "cursor_y (set_cell r c v con) = cursor_y con"
  "columns (set_cell r c v con) = columns con" "rows (set_cell r c v con) = rows con"
  "foreground (set_cell r c v con) = foreground con" "background (set_cell r c v con) = background con"
  "input (set_cell r c v con) = input con" "input_len (set_cell r c v con) = input_len con"
  "line_ready (set_cell r c v con) = line_ready con" "con_font (set_cell r c v con) = con_font con"
  by (simp_all add: set_cell_def)

text \<open>A started console for the witnesses: 10 columns, 4 rows, a cleared screen, the prompt.\<close>

definition wide_screen :: limine_framebuffer where
  "wide_screen = \<lparr>lf_width = 80, lf_height = 64, lf_pitch = 320, lf_bpp = 32,
     lf_red_shift = 16, lf_green_shift = 8, lf_blue_shift = 0\<rparr>"

lemma started_console:
  obtains con fb where "synced (info_of wide_screen) (con, fb)" and "cursor_x con = 2"
    and "input_len con = 0" and "rows con = 4" and "columns con = 10" and "cursor_y con = 0"
proof -
  let ?i = "info_of wide_screen"
  have lf: "lf_ok wide_screen" by (simp add: lf_ok_def wide_screen_def info_ok_def info_of_def)
  then have ok: "info_ok ?i" by (simp add: lf_ok_def)
  obtain fb0 where fb0: "fb_inv ?i fb0"
    using fb_init_step [OF lf] by (auto simp: fb_step_ok_def)
  obtain con0 where con0: "con_inv ?i con0" "background con0 = BLACK" "rows con0 = 4" "columns con0 = 10"
    using synced_new [OF solid_font_loads fb0 ok] by (auto simp: info_of_def wide_screen_def)
  obtain con1 fb1 where t1: "clear_console (con0, fb0) = Done (con1, fb1)" "synced ?i (con1, fb1)"
    using clear_console_step [OF con0(1) fb0 con0(2)] tty_step_synced by fastforce
  have c1: "cursor_x con1 = 0" "cursor_y con1 = 0" "input_len con1 = 0" "rows con1 = 4" "columns con1 = 10"
    using t1(1) con0(3,4) by (auto simp: clear_console_def andthen_Done_iff)
  obtain fb2 where t2: "synced ?i ((set_cell (cursor_y con1) (cursor_x con1) (styled con1 CHR ''>'') con1)
      \<lparr>cursor_x := cursor_x con1 + 1\<rparr>, fb2)"
    using write_cell_effect [OF t1(2), of "CHR ''>''"] c1 by auto
  obtain con3 fb3 where t3: "synced ?i (con3, fb3)" "cursor_x con3 = 2" "input_len con3 = 0"
      "rows con3 = 4" "columns con3 = 10" "cursor_y con3 = 0"
    using write_cell_effect [OF t2, of "CHR '' ''"] c1 by auto
  then show thesis by (rule that)
qed

text \<open>
  Printing text that fits the rest of the line puts its characters, in the current colours, into
  the cells from the cursor on, leaves every other cell as it was, and moves the cursor behind it.
\<close>

theorem write_str_cells:
  assumes "synced i (con, fb)" and "\<forall>ch \<in> set str. printable ch"
    and "cursor_x con + length str < columns con" and "0 < rows con"
  shows "\<exists>con' fb'. write_str str (con, fb) = Done (con', fb') \<and> synced i (con', fb') \<and>
    cursor_y con' = cursor_y con \<and> cursor_x con' = cursor_x con + length str \<and>
    (\<forall>r c. c < columns con \<longrightarrow> get_cell r c con' =
       (if r = cursor_y con \<and> cursor_x con \<le> c \<and> c < cursor_x con + length str
        then styled con (str ! (c - cursor_x con)) else get_cell r c con))"
  using assms
proof (induction str arbitrary: con fb)
  case Nil
  then show ?case by (auto simp: write_str_def)
next
  case (Cons ch str)
  let ?con = "(set_cell (cursor_y con) (cursor_x con) (styled con ch) con)\<lparr>cursor_x := cursor_x con + 1\<rparr>"
  have cols: "columns con \<le> 240"
    using Cons.prems(1) grid [of i con] by (auto simp: synced_def fb_inv_def)
  obtain fb1 where fb1: "write_cell ch (con, fb) = Done (?con, fb1)" "synced i (?con, fb1)"
    using write_cell_effect [OF Cons.prems(1), of ch] Cons.prems(3,4) by auto
  obtain con' fb' where t: "write_str str (?con, fb1) = Done (con', fb')" "synced i (con', fb')"
    "cursor_y con' = cursor_y ?con" "cursor_x con' = cursor_x ?con + length str"
    and cells: "\<And>r c. c < columns ?con \<Longrightarrow> get_cell r c con' =
       (if r = cursor_y ?con \<and> cursor_x ?con \<le> c \<and> c < cursor_x ?con + length str
        then styled ?con (str ! (c - cursor_x ?con)) else get_cell r c ?con)"
    using Cons.IH [OF fb1(2)] Cons.prems(2-4) by auto
  have "get_cell r c con' = (if r = cursor_y con \<and> cursor_x con \<le> c \<and> c < cursor_x con + length (ch # str)
      then styled con ((ch # str) ! (c - cursor_x con)) else get_cell r c con)"
    if c: "c < columns con" for r c
  proof -
    have "get_cell r c ?con = (if r = cursor_y con \<and> c = cursor_x con then styled con ch else get_cell r c con)"
      using c cols Cons.prems(3) by (simp add: get_set_cell)
    moreover have "(ch # str) ! (c - cursor_x con) = str ! (c - (cursor_x con + 1))" if "cursor_x con < c"
      using that by (simp add: nth_Cons' diff_diff_add)
    ultimately show ?thesis
      using cells [of c r] c by (auto simp: styled_def)
  qed
  moreover have "write_str (ch # str) (con, fb) = Done (con', fb')"
    using fb1(1) t(1) Cons.prems(2) by (simp add: write_str_def put_char_printable)
  ultimately show ?case using t by auto
qed

theorem write_str_cells_witness:
  "\<exists>con fb con' fb'. write_str ''ok'' (con, fb) = Done (con', fb') \<and> cursor_x con = 2 \<and> cursor_x con' = 4 \<and>
     character (get_cell 0 3 con') = CHR ''k''"
proof -
  obtain con fb where c: "synced (info_of wide_screen) (con, fb)" "cursor_x con = 2"
    "rows con = 4" "columns con = 10" "cursor_y con = 0" by (rule started_console)
  then obtain con' fb' where t: "write_str ''ok'' (con, fb) = Done (con', fb')" "cursor_x con' = 4"
    "get_cell 0 3 con' = styled con (CHR ''k'')"
    using write_str_cells [OF c(1), of "''ok''"] by auto
  then show ?thesis
    using c(2) by (intro exI [of _ con] exI [of _ fb] exI [of _ con'] exI [of _ fb']) (simp add: styled_def)
qed

section \<open>Scrolling\<close>

text \<open>
  A newline on the last row scrolls: every row of cells moves up by one, the last row becomes
  empty, and the cursor stands at its beginning; on any other row it only moves the cursor.
\<close>

theorem newline_effect:
  assumes s: "synced i (con, fb)" and r: "0 < rows con"
  shows "\<exists>con' fb'. newline (con, fb) = Done (con', fb') \<and> cursor_x con' = 0 \<and>
    (if cursor_y con + 1 < rows con
     then cursor_y con' = cursor_y con + 1 \<and> cells con' = cells con \<and> fb' = fb
     else cursor_y con' = rows con - 1 \<and>
       (\<forall>r c. r < rows con \<longrightarrow> c < columns con \<longrightarrow> get_cell r c con' =
          (if r + 1 < rows con then get_cell (r + 1) c con else EMPTY)))"
proof (cases "cursor_y con + 1 < rows con")
  case True
  then show ?thesis by (simp add: newline_def)
next
  case False
  have con: "con_inv i con" and inv: "fb_inv i fb" using s by (simp_all add: synced_def)
  obtain fb' where fb': "scroll_up 16 (background con) fb = Done fb'"
    using scroll_up_drawn [OF inv] by blast
  obtain cs where cs: "for_each [1 ..< rows con] (copy_row_up (columns con)) (cells con) = Done cs"
    and at: "\<And>r c. r < rows con \<Longrightarrow> c < columns con \<Longrightarrow>
      fill_slice (cell_index (rows con - 1) 0) MAX_COLUMNS EMPTY cs (cell_index r c) =
      (if r + 1 < rows con then get_cell (r + 1) c con else EMPTY)"
    by (rule scrolled_cells [OF con_inv_grid_ok [OF con fb_inv_ok [OF inv]] r]) (rule that)
  let ?cs = "fill_slice (cell_index (rows con - 1) 0) MAX_COLUMNS EMPTY cs"
  let ?con = "con\<lparr>cells := ?cs, cursor_x := 0, cursor_y := rows con - 1\<rparr>"
  have "newline (con, fb) = Done (?con, fb')"
    using False r fb' cs by (simp add: newline_def scroll_def clear_row_def Let_def)
  moreover have "get_cell r c ?con = (if r + 1 < rows con then get_cell (r + 1) c con else EMPTY)"
    if "r < rows con" "c < columns con" for r c
    using at [OF that] by (simp add: get_cell_def)
  ultimately show ?thesis
    using False by (intro exI [of _ ?con] exI [of _ fb']) simp
qed

theorem newline_effect_witness:
  "\<exists>con fb con' fb'. newline (con, fb) = Done (con', fb') \<and> cursor_y con = 3 \<and> cursor_y con' = 3 \<and>
     get_cell 3 0 con' = EMPTY"
proof -
  obtain con fb where c: "synced (info_of wide_screen) (con, fb)" "rows con = 4" "columns con = 10"
    by (rule started_console)
  let ?con = "con\<lparr>cursor_y := 3\<rparr>"
  have "synced (info_of wide_screen) (?con, fb)"
    by (rule tty_step_synced, rule synced_same_cells [OF c(1)])
      (use c in \<open>auto simp: con_inv_def synced_def\<close>)
  from newline_effect [OF this] c obtain con' fb' where
    "newline (?con, fb) = Done (con', fb')" "cursor_y con' = 3" "get_cell 3 0 con' = EMPTY" by auto
  then show ?thesis
    by (intro exI [of _ ?con] exI [of _ fb] exI [of _ con'] exI [of _ fb']) simp
qed

section \<open>The line editor\<close>

text \<open>What a key does to the line being typed.\<close>

definition line_edit :: "nat \<Rightarrow> string \<Rightarrow> string" where
  "line_edit key line =
     (if key = 0x08 \<or> key = 0x7f then butlast line
      else if 32 \<le> key \<and> key < 127 \<and> length line < INPUT_SIZE then line @ [char_of key]
      else line)"

definition typed :: "console \<Rightarrow> string" where
  "typed con = take (input_len con) (input con)"

lemma length_typed: "con_inv i con \<Longrightarrow> length (typed con) = input_len con"
  by (simp add: typed_def con_inv_def)

text \<open>The line starts behind the two characters of the prompt.\<close>

definition at_prompt :: "console \<Rightarrow> bool" where
  "at_prompt con \<longleftrightarrow> cursor_x con = 2 + input_len con"

lemma of_char_of: "key < 127 \<Longrightarrow> (of_char (char_of key :: char) :: nat) = key"
  by simp

lemma receive_key_edit:
  assumes s: "synced i (con, fb)" and p: "at_prompt con" and r: "0 < rows con"
    and fit: "cursor_x con + 1 < columns con" and k: "key \<noteq> 0x0A \<and> key \<noteq> 0x0D"
  shows "\<exists>con' fb'. receive_key key (con, fb) = Done (con', fb') \<and> synced i (con', fb') \<and>
    at_prompt con' \<and> typed con' = line_edit key (typed con) \<and> columns con' = columns con \<and>
    rows con' = rows con \<and> cursor_x con' \<le> cursor_x con + 1"
proof -
  have con: "con_inv i con" using s by (simp add: synced_def)
  obtain t' where st: "receive_key key (con, fb) = Done t'" "tty_step i (con, fb) t'"
    using keepsD [OF keeps_receive_key s] by blast
  note s' = tty_step_synced [OF st(2)]
  consider "(key = 8 \<or> key = 127)" "0 < input_len con" | "(key = 8 \<or> key = 127)" "input_len con = 0"
    | "32 \<le> key" "key < 127" "input_len con < 256"
    | "\<not> (key = 8 \<or> key = 127)" "\<not> (32 \<le> key \<and> key < 127 \<and> input_len con < 256)"
    by linarith
  then show ?thesis
  proof cases
    case 1
    let ?con = "con\<lparr>input_len := input_len con - 1\<rparr>"
    have nz: "0 < cursor_x con" using p by (simp add: at_prompt_def)
    have "receive_key key (con, fb) = backspace (?con, fb)"
      using 1 p k by (auto simp: receive_key_def at_prompt_def put_char_def)
    then have "backspace (?con, fb) = Done t'" using st(1) by simp
    then have "\<exists>fb'. t' = ((set_cell (cursor_y con) (cursor_x con - 1) EMPTY
        (?con\<lparr>cursor_x := cursor_x con - 1\<rparr>)), fb')"
      using nz by (auto simp: backspace_def Let_def andthen_Done_iff)
    moreover have "take (input_len con - 1) (input con) = butlast (typed con)"
      using length_typed [OF con] by (simp add: typed_def butlast_take con_inv_def con [unfolded con_inv_def])
    ultimately show ?thesis
      using st s' 1 p by (auto simp: at_prompt_def typed_def line_edit_def)
  next
    case 2
    then have "receive_key key (con, fb) = Done (con, fb)" using k by (auto simp: receive_key_def)
    then show ?thesis using 2 s p by (auto simp: typed_def line_edit_def)
  next
    case 3
    let ?con = "con\<lparr>input := (input con)[input_len con := char_of key], input_len := input_len con + 1\<rparr>"
    have st1: "tty_step i (con, fb) (?con, fb)"
      by (rule synced_same_cells [OF s]) (use con 3 in \<open>auto simp: con_inv_def\<close>)
    have "store (input con) (input_len con) (char_of key) = Done ((input con)[input_len con := char_of key])"
      using con 3 by (simp add: con_inv_def)
    then have "receive_key key (con, fb) = write_cell (char_of key) (?con, fb)"
      using 3 by (auto simp: receive_key_def put_char_printable)
    moreover have "cursor_x ?con + 1 < columns ?con" "0 < rows ?con" using fit r by simp_all
    ultimately obtain fb' where "t' = ((set_cell (cursor_y ?con) (cursor_x ?con)
        (styled ?con (char_of key)) ?con)\<lparr>cursor_x := cursor_x ?con + 1\<rparr>, fb')"
      using write_cell_effect [OF tty_step_synced [OF st1], of "char_of key"] st(1) by auto
    moreover have "take (input_len con + 1) ((input con)[input_len con := char_of key]) =
        typed con @ [char_of key]"
      using con 3 by (simp add: typed_def con_inv_def take_Suc_conv_app_nth)
    ultimately show ?thesis
      using st s' 3 p length_typed [OF con] by (auto simp: at_prompt_def typed_def [of t] typed_def line_edit_def)
  next
    case 4
    then have "receive_key key (con, fb) = Done (con, fb)" using k by (auto simp: receive_key_def)
    then show ?thesis using 4 s p length_typed [OF con] by (auto simp: line_edit_def)
  qed
qed

lemma typing_run:
  assumes "synced i (con, fb)" and "at_prompt con" and "0 < rows con"
    and "cursor_x con + length keys < columns con" and "\<forall>key \<in> set keys. key \<noteq> 0x0A \<and> key \<noteq> 0x0D"
  shows "\<exists>con' fb'. for_each keys receive_key (con, fb) = Done (con', fb') \<and> synced i (con', fb') \<and>
    at_prompt con' \<and> typed con' = fold line_edit keys (typed con)"
  using assms
proof (induction keys arbitrary: con fb)
  case (Cons key keys)
  obtain c1 f1 where t: "receive_key key (con, fb) = Done (c1, f1)" "synced i (c1, f1)" "at_prompt c1"
    "typed c1 = line_edit key (typed con)" "columns c1 = columns con" "rows c1 = rows con"
    "cursor_x c1 \<le> cursor_x con + 1"
    using receive_key_edit [OF Cons.prems(1-3), of key] Cons.prems(4,5) by auto
  then show ?case using Cons.IH [OF t(2,3)] Cons.prems(3-5) by auto
qed auto

lemma typed_set_ready: "typed (con\<lparr>line_ready := b\<rparr>) = typed con"
  by (simp add: typed_def)

lemma newline_typed:
  assumes "newline (con, fb) = Done (con', fb')"
  shows "input con' = input con" and "input_len con' = input_len con"
  using assms by (auto simp: newline_def scroll_def clear_row_def Let_def andthen_Done_iff split: if_splits)



text \<open>
  C39. A character that fills the last column of the line wraps at once, and from then on backspace
  does nothing: the guard \<open>cursor_x > 2\<close> that protects the prompt also protects the first columns of
  a wrapped line, so the characters before the wrap can no longer be erased.
\<close>

theorem wrapped_line_not_erasable:
  assumes "synced i (con, fb)" and "0 < rows con" and "cursor_x con + 1 = columns con"
    and "32 \<le> key" and "key < 127" and "input_len con < INPUT_SIZE"
  shows "\<exists>con' fb'. receive_key key (con, fb) = Done (con', fb') \<and>
    input_len con' = input_len con + 1 \<and> cursor_x con' = 0 \<and>
    receive_key 0x08 (con', fb') = Done (con', fb')"
proof -
  let ?con = "con\<lparr>input := (input con)[input_len con := char_of key], input_len := input_len con + 1\<rparr>"
  have con: "con_inv i con" using assms(1) by (simp add: synced_def)
  have s1: "synced i (?con, fb)"
    by (rule tty_step_synced, rule synced_same_cells [OF assms(1)])
      (use con assms(6) in \<open>auto simp: con_inv_def\<close>)
  have "store (input con) (input_len con) (char_of key) = Done ((input con)[input_len con := char_of key])"
    using con assms(6) by (simp add: con_inv_def)
  then have k: "receive_key key (con, fb) = write_cell (char_of key) (?con, fb)"
    using assms(4-6) by (auto simp: receive_key_def put_char_printable)
  obtain con' fb' where t: "write_cell (char_of key) (?con, fb) = Done (con', fb')"
    using keepsD [OF keeps_write_cell s1] by fastforce
  have "cursor_x con' = 0 \<and> input_len con' = input_len con + 1"
    using t assms(2,3)
    by (auto simp: write_cell_def Let_def newline_def scroll_def clear_row_def andthen_Done_iff
        split: if_splits)
  then show ?thesis using k t by (auto simp: receive_key_def)
qed

theorem wrapped_line_not_erasable_witness:
  "\<exists>con fb con' fb'. receive_key 97 (con, fb) = Done (con', fb') \<and> 0 < input_len con' \<and>
     receive_key 0x08 (con', fb') = Done (con', fb')"
proof -
  obtain con fb where c: "synced (info_of wide_screen) (con, fb)" "input_len con = 0"
    "rows con = 4" "columns con = 10" by (rule started_console)
  let ?con = "con\<lparr>cursor_x := 9\<rparr>"
  have "synced (info_of wide_screen) (?con, fb)"
    by (rule tty_step_synced, rule synced_same_cells [OF c(1)])
      (use c in \<open>auto simp: con_inv_def synced_def\<close>)
  from wrapped_line_not_erasable [OF this, of 97] c obtain con' fb' where
    "receive_key 97 (?con, fb) = Done (con', fb')" "input_len con' = 1"
    "receive_key 0x08 (con', fb') = Done (con', fb')" by auto
  then show ?thesis
    by (intro exI [of _ ?con] exI [of _ fb] exI [of _ con'] exI [of _ fb']) simp
qed

text \<open>
  C40. Erased and cleared cells do not take the console's background: \<open>clear\<close> paints the screen in
  it, but \<open>backspace\<close> paints the erased cell black whatever the background is, so after
  \<open>setbg blue\<close> a backspace leaves a black cell on a blue screen.
\<close>

theorem backspace_ignores_background:
  assumes "con_inv i con" and "fb_inv i fb" and "0 < rows con" and "0 < cursor_x con"
    and "on_screen i x y" and "x div 8 = cursor_x con - 1" and "y div 16 = cursor_y con"
  shows "\<exists>t1 t2. clear_console (con, fb) = Done t1 \<and>
    pixel_at i (snd t1) x y = pixel_of i (background con) \<and>
    backspace (con, fb) = Done t2 \<and> pixel_at i (snd t2) x y = pixel_of i BLACK"
proof -
  obtain fb1 where fb1: "clear (background con) fb = Done fb1"
    "drawn i (\<lambda>_ _. True) (\<lambda>_ _. pixel_of i (background con)) fb fb1"
    using clear_drawn [OF assms(2)] by blast
  let ?con = "set_cell (cursor_y con) (cursor_x con - 1) EMPTY (con\<lparr>cursor_x := cursor_x con - 1\<rparr>)"
  have ci: "con_inv i ?con" using assms(1) by (auto simp: con_inv_def)
  have rc: "cursor_y con < rows ?con" "cursor_x con - 1 < columns ?con"
    using assms(1,3,4) by (auto simp: con_inv_def max_def split: if_splits)
  obtain fb2 where fb2: "render_cell (cursor_y con) (cursor_x con - 1) ?con fb = Done fb2"
    "drawn i (cell_region (cursor_y con) (cursor_x con - 1))
      (\<lambda>x y. cell_pixel i (con_font ?con) (get_cell (cursor_y con) (cursor_x con - 1) ?con) (x mod 8) (y mod 16))
      fb fb2" using render_cell_drawn [OF con_inv_grid_ok [OF ci fb_inv_ok [OF assms(2)]] assms(2) rc] by blast
  have "get_cell (cursor_y con) (cursor_x con - 1) ?con = EMPTY"
    by (simp add: get_cell_def set_cell_def)
  then have "pixel_at i fb2 x y = pixel_of i BLACK"
    using fb2(2) assms(5-7)
    by (simp add: drawn_def cell_region_def cell_pixel_def EMPTY_def DEFAULT_BACKGROUND_def)
  moreover have "backspace (con, fb) = Done (?con, fb2)"
    using assms(4) fb2(1) by (simp add: backspace_def Let_def)
  moreover have "pixel_at i fb1 x y = pixel_of i (background con)"
    using fb1(2) assms(5) by (simp add: drawn_def)
  ultimately show ?thesis using fb1(1) by (auto simp: clear_console_def)
qed

theorem backspace_ignores_background_witness:
  "\<exists>con fb t2. background con = BLUE \<and> backspace (con, fb) = Done t2 \<and>
     pixel_at (info_of wide_screen) (snd t2) 8 0 = pixel_of (info_of wide_screen) BLACK"
proof -
  obtain con fb where c: "synced (info_of wide_screen) (con, fb)" "cursor_x con = 2"
    "rows con = 4" "columns con = 10" "cursor_y con = 0" by (rule started_console)
  let ?con = "set_background BLUE con"
  have "con_inv (info_of wide_screen) ?con" "fb_inv (info_of wide_screen) fb"
    using c(1) by (auto simp: set_background_def con_inv_def synced_def)
  moreover have "on_screen (info_of wide_screen) 8 0"
    by (simp add: on_screen_def info_of_def wide_screen_def)
  ultimately have "\<exists>t2. backspace (?con, fb) = Done t2 \<and>
      pixel_at (info_of wide_screen) (snd t2) 8 0 = pixel_of (info_of wide_screen) BLACK"
    using backspace_ignores_background [of "info_of wide_screen" ?con fb 8 0] c
    by (auto simp: set_background_def)
  moreover have "background ?con = BLUE" by (simp add: set_background_def)
  ultimately show ?thesis by blast
qed

end
