(* ===== verification/Fmt.thy ===== *)
theory Fmt
  imports Sill_Prelude
begin

text \<open>
  What the kernel uses of the standard library's number formatting and parsing: \<open>{}\<close>, \<open>{:#x}\<close> and
  \<open>{:#018x}\<close> of unsigned integers, \<open>str::parse::<usize>\<close> and \<open>usize::from_str_radix\<close>, and the
  splitting of a line at white space. The round trips are proved for every value of 64 bits.
\<close>

section \<open>Printing numbers\<close>

definition digit :: "nat \<Rightarrow> char" where
  "digit d = char_of (if d < 10 then 48 + d else 87 + d)"

function num_str :: "nat \<Rightarrow> nat \<Rightarrow> string" where
  "num_str b n =
     (if b < 2 \<or> n < b then [digit n] else num_str b (n div b) @ [digit (n mod b)])"
  by pat_completeness auto
termination
  by (relation "measure (\<lambda>(b, n). n)") auto

declare num_str.simps [simp del]

definition dec :: "nat \<Rightarrow> string" where
  "dec n = num_str 10 n"

definition hex :: "nat \<Rightarrow> string" where
  "hex n = ''0x'' @ num_str 16 n"

definition hex18 :: "nat \<Rightarrow> string" where
  "hex18 n = (let ds = num_str 16 n in ''0x'' @ replicate (16 - length ds) (CHR ''0'') @ ds)"

definition show_bool :: "bool \<Rightarrow> string" where
  "show_bool b = (if b then ''true'' else ''false'')"

section \<open>Parsing numbers\<close>

definition to_digit :: "nat \<Rightarrow> char \<Rightarrow> nat option" where
  "to_digit radix c =
     (let k = (of_char c :: nat);
          d = (if 48 \<le> k \<and> k \<le> 57 then Some (k - 48)
               else if 97 \<le> k \<and> k \<le> 122 then Some (k - 87)
               else if 65 \<le> k \<and> k \<le> 90 then Some (k - 55)
               else None)
      in case d of Some v \<Rightarrow> if v < radix then Some v else None | None \<Rightarrow> None)"

primrec parse_digits :: "nat \<Rightarrow> nat \<Rightarrow> string \<Rightarrow> nat option" where
  "parse_digits radix acc [] = Some acc"
| "parse_digits radix acc (c # cs) =
     (case to_digit radix c of
        None \<Rightarrow> None
      | Some d \<Rightarrow>
          if usize_lim \<le> acc * radix then None
          else case checked_add (acc * radix) d of
              None \<Rightarrow> None
            | Some acc' \<Rightarrow> parse_digits radix acc' cs)"

text \<open>For unsigned types a leading plus is allowed, a sign alone or a minus is not.\<close>

definition from_str_radix :: "nat \<Rightarrow> string \<Rightarrow> nat option" where
  "from_str_radix radix s =
     (case s of
        [] \<Rightarrow> None
      | c # cs \<Rightarrow>
          if cs = [] \<and> (c = CHR ''+'' \<or> c = CHR ''-'') then None
          else if c = CHR ''+'' then parse_digits radix 0 cs
          else parse_digits radix 0 (c # cs))"

definition parse_usize :: "string \<Rightarrow> nat option" where
  "parse_usize s = from_str_radix 10 s"

section \<open>Strings\<close>

text \<open>\<open>trim_start_matches\<close> with a string pattern: the prefix is removed as often as it occurs.\<close>

fun strip_prefix :: "string \<Rightarrow> string \<Rightarrow> string option" where
  "strip_prefix [] s = Some s"
| "strip_prefix (p # ps) [] = None"
| "strip_prefix (p # ps) (c # cs) = (if p = c then strip_prefix ps cs else None)"

lemma strip_prefix_length: "strip_prefix p s = Some t \<Longrightarrow> length s = length p + length t"
  by (induction p s rule: strip_prefix.induct) (auto split: if_splits)

function trim_start_matches :: "string \<Rightarrow> string \<Rightarrow> string" where
  "trim_start_matches p s =
     (case strip_prefix p s of
        Some t \<Rightarrow> if p = [] then s else trim_start_matches p t
      | None \<Rightarrow> s)"
  by pat_completeness auto
termination
  by (relation "measure (\<lambda>(p, s). length s)") (auto dest: strip_prefix_length)

declare trim_start_matches.simps [simp del]

definition is_whitespace :: "char \<Rightarrow> bool" where
  "is_whitespace c \<longleftrightarrow> (of_char c :: nat) \<in> {9, 10, 11, 12, 13, 32}"

text \<open>\<open>str::split_whitespace\<close> on ASCII text: the maximal runs without white space.\<close>

fun split_words :: "string \<Rightarrow> string \<Rightarrow> string list" where
  "split_words word [] = (if word = [] then [] else [word])"
| "split_words word (c # cs) =
     (if is_whitespace c then (if word = [] then split_words [] cs else word # split_words [] cs)
      else split_words (word @ [c]) cs)"

definition split_whitespace :: "string \<Rightarrow> string list" where
  "split_whitespace s = split_words [] s"

section \<open>Round trips\<close>

lemma digit_code: "d < 16 \<Longrightarrow> (of_char (digit d) :: nat) = (if d < 10 then 48 + d else 87 + d)"
  by (simp add: digit_def)

lemma to_digit_digit: "d < radix \<Longrightarrow> radix \<le> 16 \<Longrightarrow> to_digit radix (digit d) = Some d"
  by (simp add: to_digit_def digit_code Let_def)

lemma num_str_rec: "2 \<le> b \<Longrightarrow> b \<le> n \<Longrightarrow> num_str b n = num_str b (n div b) @ [digit (n mod b)]"
  by (simp add: num_str.simps [of b n])

lemma num_str_digit: "n < b \<Longrightarrow> num_str b n = [digit n]"
  by (simp add: num_str.simps [of b n])

lemma num_str_not_Nil: "num_str b n \<noteq> []"
  by (subst num_str.simps) simp

lemma num_str_digits:
  assumes "2 \<le> b"
  shows "c \<in> set (num_str b n) \<Longrightarrow> \<exists>d < b. c = digit d"
proof (induction n rule: less_induct)
  case (less n)
  have mod: "n mod b < b" using assms by simp
  show ?case
  proof (cases "n < b")
    case True
    then show ?thesis using less.prems by (auto simp: num_str_digit)
  next
    case False
    then have "n div b < n" using assms by simp
    moreover have "c = digit (n mod b) \<or> c \<in> set (num_str b (n div b))"
      using less.prems False assms by (simp add: num_str_rec)
    ultimately show ?thesis using less.IH mod by blast
  qed
qed

lemma parse_digits_append:
  "parse_digits r acc (xs @ ys) =
     (case parse_digits r acc xs of None \<Rightarrow> None | Some a \<Rightarrow> parse_digits r a ys)"
  by (induction xs arbitrary: acc) (auto split: option.splits)

lemma parse_last_digit:
  assumes "d < b" and "b \<le> 16" and "q * b + d < usize_lim"
  shows "parse_digits b q [digit d] = Some (q * b + d)"
  using assms by (simp add: to_digit_digit)

lemma parse_num_str:
  assumes "2 \<le> b" and "b \<le> 16"
  shows "n < usize_lim \<Longrightarrow> parse_digits b 0 (num_str b n) = Some n"
proof (induction n rule: less_induct)
  case (less n)
  show ?case
  proof (cases "n < b")
    case True
    then show ?thesis using assms less.prems by (simp add: num_str_digit to_digit_digit)
  next
    case False
    then have "n div b < n" using assms by simp
    then have ih: "parse_digits b 0 (num_str b (n div b)) = Some (n div b)"
      using less by simp
    have eq: "n div b * b + n mod b = n" by (rule div_mult_mod_eq)
    have "n mod b < b" using assms by simp
    moreover have "n div b * b + n mod b < usize_lim" using less.prems by (simp only: eq)
    ultimately have "parse_digits b (n div b) [digit (n mod b)] = Some n"
      using parse_last_digit [OF _ assms(2)] by (simp only: eq)
    then show ?thesis
      using False assms(1) by (simp only: num_str_rec not_less parse_digits_append ih option.case)
  qed
qed

lemma digit_not_sign: "d < 16 \<Longrightarrow> digit d \<noteq> CHR ''+'' \<and> digit d \<noteq> CHR ''-'' \<and> digit d \<noteq> CHR ''x'' \<and> digit d \<noteq> CHR ''X''"
proof -
  assume "d < 16"
  then have "(of_char (digit d) :: nat) \<notin> {43, 45, 88, 120}" by (simp add: digit_code)
  moreover have "(of_char (CHR ''+'') :: nat) = 43" "(of_char (CHR ''-'') :: nat) = 45"
    "(of_char (CHR ''X'') :: nat) = 88" "(of_char (CHR ''x'') :: nat) = 120" by simp_all
  ultimately show ?thesis by (metis insertCI)
qed

lemma from_str_radix_num_str:
  assumes "2 \<le> b" and "b \<le> 16" and "n < usize_lim"
  shows "from_str_radix b (num_str b n) = Some n"
proof -
  obtain c cs where s: "num_str b n = c # cs" using num_str_not_Nil [of b n] by (cases "num_str b n") auto
  then obtain d where "d < b" "c = digit d" using num_str_digits [OF assms(1), of c n] by auto
  then have "c \<noteq> CHR ''+'' \<and> c \<noteq> CHR ''-''" using digit_not_sign [of d] assms(2) by simp
  then show ?thesis using s parse_num_str [OF assms(1,2,3)] by (simp add: from_str_radix_def)
qed

lemma parse_dec: "n < usize_lim \<Longrightarrow> parse_usize (dec n) = Some n"
  by (simp add: parse_usize_def dec_def from_str_radix_num_str)

lemma trim_other: "strip_prefix p s = None \<Longrightarrow> trim_start_matches p s = s"
  by (simp add: trim_start_matches.simps)

lemma strip_0x_num_str:
  assumes "x = CHR ''x'' \<or> x = CHR ''X''"
  shows "strip_prefix [CHR ''0'', x] (num_str 16 n) = None"
proof (cases "num_str 16 n")
  case (Cons c cs)
  show ?thesis
  proof (cases cs)
    case Nil
    then show ?thesis using Cons by simp
  next
    case (Cons e es)
    then obtain d where "d < 16" "e = digit d"
      using num_str_digits [of 16 e n] \<open>num_str 16 n = c # cs\<close> by auto
    then have "e \<noteq> x" using digit_not_sign [of d] assms by auto
    then show ?thesis using Cons \<open>num_str 16 n = c # cs\<close> by simp
  qed
qed (use num_str_not_Nil in blast)

text \<open>The pointer a user copies from the screen is read back as the same address.\<close>

lemma parse_hex:
  assumes "n < usize_lim"
  shows "from_str_radix 16 (trim_start_matches ''0X'' (trim_start_matches ''0x'' (hex n))) = Some n"
proof -
  have "trim_start_matches ''0x'' (hex n) = trim_start_matches ''0x'' (num_str 16 n)"
    by (subst trim_start_matches.simps) (simp add: hex_def)
  also have "\<dots> = num_str 16 n" by (rule trim_other) (simp add: strip_0x_num_str)
  finally have "trim_start_matches ''0X'' (trim_start_matches ''0x'' (hex n)) = num_str 16 n"
    by (simp add: trim_other strip_0x_num_str)
  then show ?thesis using from_str_radix_num_str [of 16 n] assms by simp
qed

section \<open>Words of a line\<close>

definition word :: "string \<Rightarrow> bool" where
  "word w \<longleftrightarrow> w \<noteq> [] \<and> (\<forall>c \<in> set w. \<not> is_whitespace c)"

lemma split_words_word: "\<forall>c \<in> set w. \<not> is_whitespace c \<Longrightarrow> split_words acc (w @ s) = split_words (acc @ w) s"
  by (induction w arbitrary: acc) auto

lemma split_whitespace_Nil [simp]: "split_whitespace [] = []"
  by (simp add: split_whitespace_def)

lemma split_whitespace_word: "word w \<Longrightarrow> split_whitespace w = [w]"
  using split_words_word [of w "[]" "[]"] by (simp add: split_whitespace_def word_def)

lemma space_is_whitespace [simp]: "is_whitespace (CHR '' '')"
  by (simp add: is_whitespace_def)

lemma split_whitespace_Cons: "word w \<Longrightarrow> split_whitespace (w @ CHR '' '' # s) = w # split_whitespace s"
  using split_words_word [of w "[]" "CHR '' '' # s"] by (simp add: split_whitespace_def word_def)

lemma split_words_are_words:
  "(\<forall>c \<in> set acc. \<not> is_whitespace c) \<Longrightarrow> w \<in> set (split_words acc s) \<Longrightarrow> word w"
proof (induction acc s rule: split_words.induct)
  case (1 acc)
  then show ?case by (auto simp: word_def split: if_splits)
next
  case (2 acc c cs)
  then show ?case by (fastforce simp: word_def split: if_splits)
qed

lemma word_dec: "word (dec n)" and word_hex: "word (hex n)"
proof -
  have d: "\<not> is_whitespace (digit d)" if "d < 16" for d
    using digit_code [OF that] by (simp add: is_whitespace_def)
  have w: "\<not> is_whitespace c" if cs: "c \<in> set (num_str b n)" and b: "2 \<le> b" "b \<le> 16" for c b
  proof -
    obtain e where "e < b" "c = digit e" using num_str_digits [OF b(1) cs] by blast
    then show ?thesis using d [of e] b(2) by simp
  qed
  show "word (dec n)" using w [of _ 10] num_str_not_Nil by (auto simp: word_def dec_def)
  show "word (hex n)"
    using w [of _ 16] by (auto simp: word_def hex_def is_whitespace_def)
qed

end
