(* ===== verification/Kmem.thy ===== *)
theory Kmem
  imports Boot Fmt Terminal
begin

text \<open>
  \<open>src/kmem/mod.rs\<close>: the entry point of the memory subsystem, the direct-map address conversion,
  and the report \<open>mem_analyze\<close>. What the boot loader hands over is the record \<open>boot_info\<close>: the
  responses to the two Limine requests (\<open>None\<close> when there is none) and the CR3 register. The
  numbers of the memory-map types belong to the \<open>limine\<close> crate and are the record \<open>memmap_kinds\<close>.
  The report is the list of its lines, one definition per section of the report; the code prints
  each of them in green with \<open>console_println_color!\<close>.
\<close>

record memmap_kinds =
  MEMMAP_USABLE :: nat
  MEMMAP_RESERVED :: nat
  MEMMAP_ACPI_RECLAIMABLE :: nat
  MEMMAP_BOOTLOADER_RECLAIMABLE :: nat
  MEMMAP_EXECUTABLE_AND_MODULES :: nat
  MEMMAP_FRAMEBUFFER :: nat
  MEMMAP_BAD_MEMORY :: nat

record boot_info =
  hhdm_response :: "nat option"
  memmap_response :: "memmap_entry list option"
  cr3_physical :: nat
  cr3_flags :: string

definition expect :: "string \<Rightarrow> 'a option \<Rightarrow> 'a outcome" where
  "expect msg v = (case v of Some x \<Rightarrow> Done x | None \<Rightarrow> Panic (Expect msg))"

section \<open>Initialisation\<close>

text \<open>\<open>virt_new\<close>, \<open>virt_add\<close> and \<open>page_table_at\<close> stand for \<open>VirtAddr::new\<close>, the addition of an
  offset to a \<open>VirtAddr\<close> and \<open>OffsetPageTable::new\<close> of the \<open>x86_64\<close> crate.\<close>

definition init_mapper ::
    "('va \<Rightarrow> nat \<Rightarrow> 'va outcome) \<Rightarrow> ('va \<Rightarrow> 'va \<Rightarrow> 'mapper) \<Rightarrow> boot_info \<Rightarrow> 'va \<Rightarrow> 'mapper outcome" where
  "init_mapper virt_add page_table_at b offset =
     andthen (virt_add offset (cr3_physical b)) (\<lambda>level_4_table. Done (page_table_at level_4_table offset))"

definition kmem_init ::
    "(nat \<Rightarrow> 'va outcome) \<Rightarrow> ('va \<Rightarrow> nat \<Rightarrow> 'va outcome) \<Rightarrow> ('va \<Rightarrow> 'va \<Rightarrow> 'mapper) \<Rightarrow> boot_info \<Rightarrow>
     ('mapper \<times> frame_allocator) outcome" where
  "kmem_init virt_new virt_add page_table_at b =
     andthen (expect ''Limine did not provide an HHDM response'' (hhdm_response b)) (\<lambda>hhdm.
     andthen (expect ''Limine did not provide a memory-map response'' (memmap_response b)) (\<lambda>entries.
     andthen (virt_new hhdm) (\<lambda>offset.
     andthen (init_mapper virt_add page_table_at b offset) (\<lambda>mapper.
       Done (mapper, frame_new entries)))))"

definition phys_to_virt :: "(nat \<Rightarrow> 'va outcome) \<Rightarrow> boot_info \<Rightarrow> nat \<Rightarrow> 'va outcome" where
  "phys_to_virt virt_new b physical_address =
     andthen (expect ''Limine did not provide an HHDM response'' (hhdm_response b)) (\<lambda>hhdm.
     andthen (expect ''HHDM address overflow'' (checked_add hhdm physical_address)) virt_new)"

definition phys_to_ptr :: "(nat \<Rightarrow> 'va outcome) \<Rightarrow> ('va \<Rightarrow> nat) \<Rightarrow> boot_info \<Rightarrow> nat \<Rightarrow> nat outcome" where
  "phys_to_ptr virt_new as_ptr b physical_address =
     andthen (phys_to_virt virt_new b physical_address) (\<lambda>v. Done (as_ptr v))"

section \<open>Statistics of the memory map\<close>

record memory_stats =
  total_mem :: nat
  usable_mem :: nat
  reserved_mem :: nat
  reclaimable_mem :: nat
  bootloader_mem :: nat
  kernel_mem :: nat
  framebuffer_mem :: nat
  bad_mem :: nat
  other_mem :: nat
  usable_regions :: nat
  first_usable_base :: "nat option"
  last_usable_end :: "nat option"

definition stats_zero :: memory_stats where
  "stats_zero = \<lparr>total_mem = 0, usable_mem = 0, reserved_mem = 0, reclaimable_mem = 0,
     bootloader_mem = 0, kernel_mem = 0, framebuffer_mem = 0, bad_mem = 0, other_mem = 0,
     usable_regions = 0, first_usable_base = None, last_usable_end = None\<rparr>"

definition entry_end :: "memmap_entry \<Rightarrow> nat" where
  "entry_end e = sat_add (entry_base e) (entry_length e)"

definition scan_entry :: "memmap_kinds \<Rightarrow> memmap_entry \<Rightarrow> memory_stats \<Rightarrow> memory_stats" where
  "scan_entry k e s0 =
     (let len = entry_length e; t = entry_type e;
          s = s0\<lparr>total_mem := sat_add (total_mem s0) len\<rparr>
      in if t = MEMMAP_USABLE k then
           s\<lparr>usable_mem := sat_add (usable_mem s) len,
             usable_regions := usable_regions s + 1,
             first_usable_base :=
               (case first_usable_base s of None \<Rightarrow> Some (entry_base e) | Some b \<Rightarrow> Some b),
             last_usable_end :=
               Some (max (case last_usable_end s of None \<Rightarrow> 0 | Some b \<Rightarrow> b) (entry_end e))\<rparr>
         else if t = MEMMAP_RESERVED k then
           s\<lparr>reserved_mem := sat_add (reserved_mem s) len\<rparr>
         else if t = MEMMAP_ACPI_RECLAIMABLE k then
           s\<lparr>reclaimable_mem := sat_add (reclaimable_mem s) len\<rparr>
         else if t = MEMMAP_BOOTLOADER_RECLAIMABLE k then
           s\<lparr>bootloader_mem := sat_add (bootloader_mem s) len\<rparr>
         else if t = MEMMAP_EXECUTABLE_AND_MODULES k then
           s\<lparr>kernel_mem := sat_add (kernel_mem s) len\<rparr>
         else if t = MEMMAP_FRAMEBUFFER k then
           s\<lparr>framebuffer_mem := sat_add (framebuffer_mem s) len\<rparr>
         else if t = MEMMAP_BAD_MEMORY k then
           s\<lparr>bad_mem := sat_add (bad_mem s) len\<rparr>
         else s\<lparr>other_mem := sat_add (other_mem s) len\<rparr>)"

definition mem_stats :: "memmap_kinds \<Rightarrow> memmap_entry list \<Rightarrow> memory_stats" where
  "mem_stats k entries = fold (scan_entry k) entries stats_zero"

definition frame_count :: "memory_stats \<Rightarrow> nat" where
  "frame_count s = usable_mem s div FRAME_SIZE"

text \<open>The lowest base and the highest end, over entries of every type.\<close>

definition address_range :: "memmap_entry list \<Rightarrow> nat \<times> nat" where
  "address_range entries =
     fold (\<lambda>e (lo, hi). (min lo (entry_base e), max hi (entry_end e))) entries (usize_lim - 1, 0)"

section \<open>The report\<close>

abbreviation KIB :: nat where "KIB \<equiv> 1024"

abbreviation MIB :: nat where "MIB \<equiv> 1048576"

definition ruler :: string where
  "ruler = replicate 40 (CHR ''='')"

definition header_lines :: "string list" where
  "header_lines = ['''', ruler, ''       KERNEL MEMORY ANALYSIS'', ruler]"

definition hhdm_header :: "nat \<Rightarrow> string list" where
  "hhdm_header hhdm = ['''', ''[HHDM]'', ''  Offset:          '' @ hex18 hhdm]"

definition memory_map_lines :: "memmap_entry list \<Rightarrow> memory_stats \<Rightarrow> string list" where
  "memory_map_lines entries s =
     ['''',
      ''[MEMORY MAP]'',
      ''  Entries:         '' @ dec (length entries),
      ''  Total:           '' @ dec (total_mem s div KIB) @ '' KiB'',
      ''  Total:           '' @ dec (total_mem s div MIB) @ '' MiB'',
      ''  Usable:          '' @ dec (usable_mem s div MIB) @ '' MiB'',
      ''  Usable regions:  '' @ dec (usable_regions s),
      ''  Reserved:        '' @ dec (reserved_mem s div KIB) @ '' KiB'',
      ''  ACPI reclaim:    '' @ dec (reclaimable_mem s div KIB) @ '' KiB'',
      ''  Bootloader:      '' @ dec (bootloader_mem s div KIB) @ '' KiB'',
      ''  Kernel/modules:  '' @ dec (kernel_mem s div KIB) @ '' KiB'',
      ''  Framebuffer:     '' @ dec (framebuffer_mem s div KIB) @ '' KiB'',
      ''  Bad memory:      '' @ dec (bad_mem s div KIB) @ '' KiB'',
      ''  Other:           '' @ dec (other_mem s div KIB) @ '' KiB'']"

definition frame_lines :: "memory_stats \<Rightarrow> string list" where
  "frame_lines s =
     ['''',
      ''[PHYSICAL FRAMES]'',
      ''  Frame size:      '' @ dec FRAME_SIZE @ '' bytes'',
      ''  Usable frames:   '' @ dec (frame_count s),
      ''  Frame memory:    '' @ dec (frame_count s * FRAME_SIZE div MIB) @ '' MiB'',
      (case first_usable_base s of
         Some base \<Rightarrow> ''  First usable:    '' @ hex18 base
       | None \<Rightarrow> ''  First usable:    NONE''),
      (case last_usable_end s of
         Some e \<Rightarrow> ''  Last usable end: '' @ hex18 e
       | None \<Rightarrow> ''  Last usable end: NONE'')]"

definition span_lines :: "memmap_entry list \<Rightarrow> string list" where
  "span_lines entries =
     (case address_range entries of (lowest, highest) \<Rightarrow>
        ['''', ''[PHYSICAL ADDRESS SPACE]''] @
        (if lowest \<noteq> usize_lim - 1 then [''  Lowest address:  '' @ hex18 lowest] else []) @
        [''  Highest address: '' @ hex18 highest,
         ''  Address span:    '' @ dec ((highest - lowest) div MIB) @ '' MiB''])"

definition region_line :: "nat \<Rightarrow> memmap_entry \<Rightarrow> string" where
  "region_line i e =
     ''  #'' @ dec i @ '': '' @ hex18 (entry_base e) @ '' - '' @ hex18 (entry_end e) @ '' | '' @
     dec (entry_length e div KIB) @ '' KiB | type '' @ dec (entry_type e)"

definition region_lines :: "memmap_entry list \<Rightarrow> string list" where
  "region_lines entries =
     ['''', ''[MEMORY MAP REGIONS]''] @ map (\<lambda>(i, e). region_line i e) (enumerate 0 entries)"

definition page_table_lines :: "boot_info \<Rightarrow> nat \<Rightarrow> string list" where
  "page_table_lines b hhdm =
     ['''',
      ''[PAGE TABLES]'',
      ''  CR3 physical:   '' @ hex18 (cr3_physical b),
      (case checked_add hhdm (cr3_physical b) of
         Some address \<Rightarrow> ''  CR3 virtual:    '' @ hex18 address
       | None \<Rightarrow> ''  CR3 virtual:    OVERFLOW''),
      ''  CR3 flags:      '' @ cr3_flags b,
      ''  Page size:      4096 bytes'']"

definition conversion_lines :: "nat \<Rightarrow> memory_stats \<Rightarrow> string list" where
  "conversion_lines hhdm s =
     ['''', ''[HHDM ADDRESS CONVERSION]''] @
     (case first_usable_base s of
        None \<Rightarrow> []
      | Some base \<Rightarrow>
          (case checked_add hhdm base of
             Some virtual_address \<Rightarrow>
               [''  Physical:       '' @ hex18 base, ''  HHDM virtual:   '' @ hex18 virtual_address]
           | None \<Rightarrow> [''  First usable HHDM address overflow''])) @
     (case last_usable_end s of
        None \<Rightarrow> []
      | Some e \<Rightarrow>
          (case checked_add hhdm e of
             Some virtual_address \<Rightarrow>
               [''  Last physical:  '' @ hex18 e, ''  Last HHDM VA:   '' @ hex18 virtual_address]
           | None \<Rightarrow> [''  Last usable HHDM address overflow'']))"

definition heap_end :: "nat option" where
  "heap_end = checked_add HEAP_START HEAP_SIZE"

definition heap_frames :: nat where
  "heap_frames = (HEAP_SIZE + 4095) div 4096"

definition heap_lines :: "string list" where
  "heap_lines =
     ['''',
      ''[KERNEL HEAP]'',
      ''  Start:          '' @ hex18 HEAP_START,
      (case heap_end of
         Some e \<Rightarrow> ''  End:            '' @ hex18 e
       | None \<Rightarrow> ''  End:            OVERFLOW''),
      ''  Size:           '' @ dec (HEAP_SIZE div KIB) @ '' KiB'',
      ''  Size:           '' @ dec (HEAP_SIZE div MIB) @ '' MiB'',
      ''  Pages:          '' @ dec heap_frames,
      ''  Start aligned:  '' @ show_bool (HEAP_START mod 4096 = 0),
      ''  Size aligned:   '' @ show_bool (HEAP_SIZE mod 4096 = 0)] @
     (case heap_end of
        Some e \<Rightarrow> [''  End aligned:    '' @ show_bool (e mod 4096 = 0)]
      | None \<Rightarrow> [])"

definition layout_lines :: "nat \<Rightarrow> string list" where
  "layout_lines hhdm =
     ['''',
      ''[ADDRESS SPACE]'',
      ''  HHDM base:      '' @ hex18 hhdm,
      ''  Heap base:      '' @ hex18 HEAP_START,
      (if hhdm \<le> HEAP_START then ''  Heap above HHDM: true'' else ''  Heap above HHDM: false'')]"

text \<open>A share in hundredths of a percent, printed as \<open>{}.{}%\<close> with its quotient and remainder by 100.\<close>

definition percent_text :: "nat \<Rightarrow> string" where
  "percent_text p = dec (p div 100) @ ''.'' @ dec (p mod 100) @ ''%''"

definition heap_cost :: "memory_stats \<Rightarrow> nat" where
  "heap_cost s = heap_frames * 10000 div frame_count s"

definition capacity_lines :: "memory_stats \<Rightarrow> string list" where
  "capacity_lines s =
     ['''',
      ''[FRAME CAPACITY]'',
      ''  Heap pages:     '' @ dec heap_frames,
      ''  Usable frames:  '' @ dec (frame_count s),
      (if heap_frames \<le> frame_count s
       then ''  Heap frame cost: '' @ percent_text (heap_cost s)
       else ''  Heap frame cost: exceeds usable-frame count'')]"

definition alignment_lines :: "boot_info \<Rightarrow> nat \<Rightarrow> memory_stats \<Rightarrow> string list" where
  "alignment_lines b hhdm s =
     ['''',
      ''[ALIGNMENT]'',
      ''  Page size:      '' @ dec 4096,
      ''  HHDM aligned:   '' @ show_bool (hhdm mod 4096 = 0),
      ''  CR3 aligned:    '' @ show_bool (cr3_physical b mod 4096 = 0),
      ''  Heap aligned:   '' @ show_bool (HEAP_START mod 4096 = 0)] @
     (case first_usable_base s of
        Some base \<Rightarrow> [''  First frame aligned: '' @ show_bool (base mod 4096 = 0)]
      | None \<Rightarrow> [])"

definition usable_percent :: "memory_stats \<Rightarrow> nat" where
  "usable_percent s = (if total_mem s \<noteq> 0 then usable_mem s * 10000 div total_mem s else 0)"

definition summary_lines :: "boot_info \<Rightarrow> nat \<Rightarrow> memory_stats \<Rightarrow> string list" where
  "summary_lines b hhdm s =
     ['''',
      ''[SUMMARY]'',
      ''  Physical RAM:   '' @ dec (total_mem s div MIB) @ '' MiB'',
      ''  Usable RAM:     '' @ dec (usable_mem s div MIB) @ '' MiB'',
      ''  Usable RAM:     '' @ percent_text (usable_percent s),
      ''  Usable frames:  '' @ dec (frame_count s),
      ''  Heap size:      '' @ dec (HEAP_SIZE div MIB) @ '' MiB'',
      ''  Heap pages:     '' @ dec heap_frames,
      ''  HHDM:           '' @ hex18 hhdm,
      ''  CR3:            '' @ hex18 (cr3_physical b),
      '''', ruler, ''       END MEMORY ANALYSIS'', ruler, '''']"

text \<open>The whole report; without a response of the boot loader it stops early.\<close>

definition analysis_lines :: "memmap_kinds \<Rightarrow> boot_info \<Rightarrow> string list" where
  "analysis_lines k b =
     header_lines @
     (case hhdm_response b of
        None \<Rightarrow> [''[HHDM] NOT AVAILABLE'']
      | Some hhdm \<Rightarrow>
          hhdm_header hhdm @
          (case memmap_response b of
             None \<Rightarrow> [''[MEMORY MAP] NOT AVAILABLE'']
           | Some entries \<Rightarrow>
               (let s = mem_stats k entries
                in memory_map_lines entries s @ frame_lines s @ span_lines entries @
                   region_lines entries @ page_table_lines b hhdm @ conversion_lines hhdm s @
                   heap_lines @ layout_lines hhdm @ capacity_lines s @ alignment_lines b hhdm s @
                   summary_lines b hhdm s)))"

definition mem_analyze :: "memmap_kinds \<Rightarrow> boot_info \<Rightarrow> ui \<Rightarrow> ui outcome" where
  "mem_analyze k b u = for_each (analysis_lines k b) (console_println_color GREEN) u"

end
