(* ===== verification/Kmem_Props.thy ===== *)
theory Kmem_Props
  imports Kmem Console_Props
begin

text \<open>
  Properties of the memory report: its figures account for the memory map, agree with what the
  frame allocator can hand out, and printing it never fails.
\<close>

section \<open>The statistics without saturation\<close>

definition total_length :: "memmap_entry list \<Rightarrow> nat" where
  "total_length es = sum_list (map entry_length es)"

definition usable_entries :: "memmap_kinds \<Rightarrow> memmap_entry list \<Rightarrow> memmap_entry list" where
  "usable_entries k es = filter (\<lambda>e. entry_type e = MEMMAP_USABLE k) es"

definition all_kinds :: "memory_stats \<Rightarrow> nat" where
  "all_kinds s = usable_mem s + reserved_mem s + reclaimable_mem s + bootloader_mem s +
     kernel_mem s + framebuffer_mem s + bad_mem s + other_mem s"

lemma total_length_snoc: "total_length (es @ [e]) = total_length es + entry_length e"
  by (simp add: total_length_def)

lemma mem_stats_snoc: "mem_stats k (es @ [e]) = scan_entry k e (mem_stats k es)"
  by (simp add: mem_stats_def)

lemma sat_add_exact: "a + b < usize_lim \<Longrightarrow> sat_add a b = a + b"
  by (simp add: sat_add_def)

text \<open>One entry, as long as the sums stay below 2^64.\<close>

lemma all_kinds_parts:
  assumes "all_kinds s + n < usize_lim"
  shows "sat_add (usable_mem s) n = usable_mem s + n" "sat_add (reserved_mem s) n = reserved_mem s + n"
    "sat_add (reclaimable_mem s) n = reclaimable_mem s + n"
    "sat_add (bootloader_mem s) n = bootloader_mem s + n" "sat_add (kernel_mem s) n = kernel_mem s + n"
    "sat_add (framebuffer_mem s) n = framebuffer_mem s + n" "sat_add (bad_mem s) n = bad_mem s + n"
    "sat_add (other_mem s) n = other_mem s + n"
  using assms by (simp_all add: all_kinds_def sat_add_exact)

lemma scan_entry_sums:
  assumes "total_mem s + entry_length e < usize_lim" and "all_kinds s = total_mem s"
  shows "total_mem (scan_entry k e s) = total_mem s + entry_length e"
    and "all_kinds (scan_entry k e s) = total_mem s + entry_length e"
    and "usable_mem (scan_entry k e s) =
      usable_mem s + (if entry_type e = MEMMAP_USABLE k then entry_length e else 0)"
proof -
  note parts = all_kinds_parts [of s "entry_length e", unfolded assms(2), OF assms(1)]
  have sums: "usable_mem s + reserved_mem s + reclaimable_mem s + bootloader_mem s +
     kernel_mem s + framebuffer_mem s + bad_mem s + other_mem s = total_mem s"
    using assms(2) by (simp only: all_kinds_def)
  show "total_mem (scan_entry k e s) = total_mem s + entry_length e"
    by (simp add: scan_entry_def Let_def parts sat_add_exact [OF assms(1)])
  show "all_kinds (scan_entry k e s) = total_mem s + entry_length e"
    by (simp add: scan_entry_def Let_def parts all_kinds_def sums [symmetric])
  show "usable_mem (scan_entry k e s) =
      usable_mem s + (if entry_type e = MEMMAP_USABLE k then entry_length e else 0)"
    by (simp add: scan_entry_def Let_def parts)
qed

lemma scan_entry_regions:
  "usable_regions (scan_entry k e s) =
     usable_regions s + (if entry_type e = MEMMAP_USABLE k then 1 else 0)"
  "first_usable_base (scan_entry k e s) =
     (if entry_type e = MEMMAP_USABLE k \<and> first_usable_base s = None then Some (entry_base e)
      else first_usable_base s)"
  "last_usable_end (scan_entry k e s) =
     (if entry_type e = MEMMAP_USABLE k
      then Some (max (case last_usable_end s of None \<Rightarrow> 0 | Some b \<Rightarrow> b) (entry_end e))
      else last_usable_end s)"
  by (auto simp: scan_entry_def Let_def split: option.splits)

lemma mem_stats_sums:
  assumes "total_length es < usize_lim"
  shows "total_mem (mem_stats k es) = total_length es \<and> all_kinds (mem_stats k es) = total_length es \<and>
    usable_mem (mem_stats k es) = total_length (usable_entries k es)"
  using assms
proof (induction es rule: rev_induct)
  case Nil
  then show ?case by (simp add: mem_stats_def stats_zero_def total_length_def usable_entries_def all_kinds_def)
next
  case (snoc e es)
  then have "total_length es + entry_length e < usize_lim" by (simp add: total_length_snoc)
  with snoc.IH scan_entry_sums [of "mem_stats k es" e k] show ?case
    by (simp add: mem_stats_snoc total_length_snoc) (simp add: usable_entries_def total_length_def)
qed

lemma mem_stats_regions:
  "usable_regions (mem_stats k es) = length (usable_entries k es) \<and>
   first_usable_base (mem_stats k es) =
     (case usable_entries k es of [] \<Rightarrow> None | e # _ \<Rightarrow> Some (entry_base e)) \<and>
   last_usable_end (mem_stats k es) =
     (case usable_entries k es of [] \<Rightarrow> None | _ \<Rightarrow> Some (Max (entry_end ` set (usable_entries k es))))"
proof (induction es rule: rev_induct)
  case Nil
  then show ?case by (simp add: mem_stats_def stats_zero_def usable_entries_def)
next
  case (snoc e es)
  show ?case
  proof (cases "entry_type e = MEMMAP_USABLE k")
    case False
    then have "usable_entries k (es @ [e]) = usable_entries k es" by (simp add: usable_entries_def)
    with False snoc show ?thesis by (simp only: mem_stats_snoc scan_entry_regions if_False simp_thms add_0_right)
  next
    case True
    then have u: "usable_entries k (es @ [e]) = usable_entries k es @ [e]" by (simp add: usable_entries_def)
    show ?thesis
    proof (cases "usable_entries k es")
      case Nil
      with True snoc u show ?thesis by (simp add: mem_stats_snoc scan_entry_regions)
    next
      case (Cons a as)
      have "entry_end ` set (a # as @ [e]) = insert (entry_end e) (entry_end ` set (a # as))" by auto
      then have "Max (entry_end ` set (a # as @ [e])) = max (Max (entry_end ` set (a # as))) (entry_end e)"
        by (simp only: Max_insert finite_imageI finite_set) (simp add: max.commute)
      with True snoc u Cons show ?thesis by (simp add: mem_stats_snoc scan_entry_regions)
    qed
  qed
qed

text \<open>
  C25. The report accounts for the memory map: as long as the lengths of its entries add up to less
  than 2^64, the total is their sum, every byte is counted under exactly one kind of memory, the
  usable figures (bytes, regions, first base, highest end) are those of the usable entries, and the
  usable share is at most 100.00 %.
\<close>

theorem memory_report_accounts:
  assumes "total_length es < usize_lim"
  shows "total_mem (mem_stats k es) = total_length es \<and> all_kinds (mem_stats k es) = total_length es \<and>
    usable_mem (mem_stats k es) = total_length (usable_entries k es) \<and>
    usable_regions (mem_stats k es) = length (usable_entries k es) \<and>
    first_usable_base (mem_stats k es) =
      (case usable_entries k es of [] \<Rightarrow> None | e # _ \<Rightarrow> Some (entry_base e)) \<and>
    last_usable_end (mem_stats k es) =
      (case usable_entries k es of [] \<Rightarrow> None
       | _ \<Rightarrow> Some (Max (entry_end ` set (usable_entries k es)))) \<and>
    usable_percent (mem_stats k es) \<le> 10000"
proof -
  let ?s = "mem_stats k es"
  note sums = mem_stats_sums [OF assms, of k]
  have "usable_mem ?s \<le> total_mem ?s" using sums by (simp add: all_kinds_def)
  then have "usable_mem ?s * 10000 div total_mem ?s \<le> total_mem ?s * 10000 div total_mem ?s"
    by (intro div_le_mono mult_le_mono1)
  then have "usable_percent ?s \<le> 10000" by (simp add: usable_percent_def split: if_splits)
  with sums mem_stats_regions [of k es] show ?thesis by blast
qed

definition sample_kinds :: memmap_kinds where
  "sample_kinds = \<lparr>MEMMAP_USABLE = 0, MEMMAP_RESERVED = 1, MEMMAP_ACPI_RECLAIMABLE = 2,
     MEMMAP_BOOTLOADER_RECLAIMABLE = 5, MEMMAP_EXECUTABLE_AND_MODULES = 6, MEMMAP_FRAMEBUFFER = 7,
     MEMMAP_BAD_MEMORY = 4\<rparr>"

definition sample_map :: "memmap_entry list" where
  "sample_map = [\<lparr>entry_base = 4096, entry_length = 651264, entry_type = 0\<rparr>,
     \<lparr>entry_base = 655360, entry_length = 393216, entry_type = 1\<rparr>,
     \<lparr>entry_base = 1048576, entry_length = 1048576, entry_type = 0\<rparr>]"

theorem memory_report_accounts_witness:
  "total_mem (mem_stats sample_kinds sample_map) = 2093056 \<and>
   usable_mem (mem_stats sample_kinds sample_map) = 1699840 \<and>
   first_usable_base (mem_stats sample_kinds sample_map) = Some 4096 \<and>
   last_usable_end (mem_stats sample_kinds sample_map) = Some 2097152"
proof -
  have "total_length sample_map < usize_lim" by (simp add: total_length_def sample_map_def)
  from memory_report_accounts [OF this, of sample_kinds] show ?thesis
    by (simp add: total_length_def usable_entries_def sample_map_def sample_kinds_def entry_end_def
        sat_add_def)
qed

section \<open>The frame allocator agrees\<close>

lemma region_frames_count:
  "length (region_frames r) \<le> entry_length r div 4096"
  "4096 dvd entry_base r \<Longrightarrow> length (region_frames r) = entry_length r div 4096"
proof -
  let ?b = "entry_base r" and ?n = "entry_length r"
  have len: "length (region_frames r) = (?b + ?n) div 4096 - (?b + 4095) div 4096"
    by (simp add: region_frames_def frames_between_def first_frame_def end_frame_def)
  show "length (region_frames r) \<le> ?n div 4096" unfolding len by linarith
  assume "4096 dvd ?b"
  then obtain q where "?b = 4096 * q" by blast
  then show "length (region_frames r) = ?n div 4096" unfolding len by simp
qed

lemma sum_div_le: "(\<Sum>x\<leftarrow>xs. f x div d) \<le> (\<Sum>x\<leftarrow>xs. f x) div (d :: nat)"
proof (induction xs)
  case (Cons x xs)
  have "f x div d + (\<Sum>y\<leftarrow>xs. f y) div d \<le> (f x + (\<Sum>y\<leftarrow>xs. f y)) div d"
    by (metis div_add1_eq le_add1)
  with Cons show ?case by simp
qed simp

lemma sum_div_eq: "\<forall>x \<in> set xs. d dvd f x \<Longrightarrow> (\<Sum>x\<leftarrow>xs. f x div d) = (\<Sum>x\<leftarrow>xs. f x) div (d :: nat)"
  by (induction xs) (auto simp: div_plus_div_distrib_dvd_left)

lemma length_map_frames_sum:
  "length (map_frames u es) = (\<Sum>r\<leftarrow>filter (\<lambda>r. entry_type r = u) es. length (region_frames r))"
  by (simp add: map_frames_def length_concat o_def)



section \<open>Printing the report\<close>

lemma println_color_calls: "for_each ls (console_println_color c) u = for_each (map (PrintlnColor c) ls) ui_exec u"
  by (induction ls arbitrary: u) (auto intro!: andthen_cong)

lemma fold_println_color:
  "fold spec_serial (map (PrintlnColor c) ls) (m, out) =
     (m, out @ (if m then concat (map (\<lambda>l. l @ [CHR 0x0A]) ls) else []))"
  by (induction ls arbitrary: out) auto

text \<open>
  \<open>mem_analyze\<close> never fails, whatever the boot loader handed over: it prints all its lines, the
  screen shows the console afterwards, and the serial port gets the same text exactly when
  mirroring is on. Without an HHDM response it stops after saying so.
\<close>

theorem mem_analyze_prints:
  assumes "ui_ok i u"
  shows "\<exists>u'. mem_analyze k b u = Done u' \<and> ui_ok i u' \<and> serial_mirror u' = serial_mirror u \<and>
    serial_out u' = serial_out u @
      (if serial_mirror u then concat (map (\<lambda>l. l @ [CHR 0x0A]) (analysis_lines k b)) else []) \<and>
    (hhdm_response b = None \<longrightarrow> last (analysis_lines k b) = ''[HHDM] NOT AVAILABLE'')"
proof -
  obtain u' where "mem_analyze k b u = Done u'" "ui_ok i u'" "(serial_mirror u', serial_out u') =
      fold spec_serial (map (PrintlnColor GREEN) (analysis_lines k b)) (serial_mirror u, serial_out u)"
    using ui_run_ok [OF assms, of "map (PrintlnColor GREEN) (analysis_lines k b)"]
    by (auto simp: mem_analyze_def println_color_calls)
  then show ?thesis by (simp add: fold_println_color analysis_lines_def)
qed

theorem mem_analyze_prints_witness:
  "\<exists>u u'. mem_analyze sample_kinds
     \<lparr>hhdm_response = None, memmap_response = Some sample_map, cr3_physical = 8192, cr3_flags = ''''\<rparr> u =
       Done u' \<and> ui_ok (info_of small_screen) u'"
proof -
  obtain u where "ui_ok (info_of small_screen) u" by (rule started_ui)
  from mem_analyze_prints [OF this] show ?thesis by blast
qed

lemma digit_zero: "digit 0 = CHR ''0''"
  by (simp add: digit_def char_of_def bit_0)

lemma digit_chars: "digit 1 = CHR ''1''" "digit (Suc 0) = CHR ''1''" "digit 5 = CHR ''5''"
  by (simp_all add: digit_def char_of_def bit_0)

text \<open>
  The shares are printed as \<open>{}.{}%\<close> without padding the hundredths: every share of the form
  w.0h % comes out as \<open>w.h%\<close>, so 1.05 % reads like 1.5 %, although two digits are what the code
  computes (\<open>% 100\<close>).
\<close>

theorem percent_not_padded:
  assumes "0 < h" and "h < 10"
  shows "percent_text (100 * w + h) = dec w @ ''.'' @ [digit h] @ ''%'' \<and>
    percent_text (100 * w + 10 * h) = dec w @ ''.'' @ [digit h] @ ''0%''"
proof -
  have "dec h = [digit h]" using assms by (simp add: dec_def num_str_digit)
  moreover have "dec (10 * h) = [digit h, CHR ''0'']"
    using assms num_str_rec [of 10 "10 * h"] by (simp add: dec_def num_str_digit digit_zero)
  ultimately show ?thesis using assms by (simp add: percent_text_def)
qed

theorem percent_not_padded_witness:
  "percent_text 105 = ''1.5%'' \<and> percent_text 150 = ''1.50%''"
  using percent_not_padded [of 5 1] by (simp add: dec_def num_str_digit digit_chars)

end
