(* ===== verification/Hardware.thy ===== *)
theory Hardware
  imports Sill_Prelude
begin

text \<open>
  What the kernel does to the hardware, as values: port accesses, the descriptor tables it loads, and
  the commands to the interrupt controllers. The segments of a global descriptor table are the three
  kinds \<open>src/gdt.rs\<close> appends; a task state segment carries its interrupt stacks, by index.
\<close>

datatype segment =
    KernelCodeSegment
  | KernelDataSegment
  | TssSegment "(nat \<times> nat) list"

datatype machine_action =
    DisableInterrupts
  | EnableInterrupts
  | ReadPort nat
  | WritePort nat nat
  | WritePort32 nat nat
  | LoadIdt nat nat
  | Int3
  | LoadInterruptTable
  | LoadGdt "segment list"
  | SetCs nat
  | SetSs nat
  | LoadTss nat
  | PicInitialize nat nat
  | PicWriteMasks nat nat
  | PicEndOfInterrupt nat

end
