(* ===== verification/Acpi.thy ===== *)
theory Acpi
  imports Terminal Fmt Hardware
begin

text \<open>
  \<open>src/acpi.rs\<close>: finding the reset register of the ACPI tables and rebooting. The tables are read
  from memory, a function from addresses to bytes; the packed structures are read field by field at
  their offsets. The static \<open>RESET_INFO\<close> is threaded beside the terminal state, whose serial port
  takes the log. What reaches the hardware is the list of \<open>machine_action\<close>s; a status port that is
  polled is the sequence of the bytes it delivers.
\<close>

type_synonym memory = "nat \<Rightarrow> 8 word"

record reset_info =
  address_space :: nat
  reset_address :: nat
  reset_value :: nat

type_synonym acpi_state = "ui \<times> reset_info option"

definition serial_println :: "string \<Rightarrow> ui \<Rightarrow> ui" where
  "serial_println str u = serial_write_fmt (str @ [CHR 0x0A]) u"

definition acpi_log :: "string \<Rightarrow> acpi_state \<Rightarrow> acpi_state" where
  "acpi_log str st = (serial_println str (fst st), snd st)"

section \<open>Reading tables\<close>

definition byte_at :: "memory \<Rightarrow> nat \<Rightarrow> nat" where
  "byte_at m a = unat (m a)"

primrec read_le :: "memory \<Rightarrow> nat \<Rightarrow> nat \<Rightarrow> nat" where
  "read_le m a 0 = 0"
| "read_le m a (Suc n) = byte_at m a + 256 * read_le m (a + 1) n"

definition signature_at :: "memory \<Rightarrow> nat \<Rightarrow> nat \<Rightarrow> string" where
  "signature_at m a n = map (\<lambda>i. char_of (byte_at m (a + i))) [0 ..< n]"

text \<open>The fields of \<open>RsdpV1\<close>, \<open>RsdpV2\<close> and \<open>SdtHeader\<close> at their packed offsets.\<close>

definition rsdp_signature :: "memory \<Rightarrow> nat \<Rightarrow> string" where
  "rsdp_signature m a = signature_at m a 8"

definition rsdp_revision :: "memory \<Rightarrow> nat \<Rightarrow> nat" where
  "rsdp_revision m a = byte_at m (a + 15)"

definition rsdp_length :: "memory \<Rightarrow> nat \<Rightarrow> nat" where
  "rsdp_length m a = read_le m (a + 20) 4"

definition xsdt_address :: "memory \<Rightarrow> nat \<Rightarrow> nat" where
  "xsdt_address m a = read_le m (a + 24) 8"

abbreviation SDT_HEADER_SIZE :: nat where
  "SDT_HEADER_SIZE \<equiv> 36"

definition sdt_signature :: "memory \<Rightarrow> nat \<Rightarrow> string" where
  "sdt_signature m a = signature_at m a 4"

definition sdt_length :: "memory \<Rightarrow> nat \<Rightarrow> nat" where
  "sdt_length m a = read_le m (a + 4) 4"

definition signature_to_str :: "string \<Rightarrow> string" where
  "signature_to_str s =
     (if s \<in> {''FACP'', ''APIC'', ''HPET'', ''MCFG'', ''DSDT'', ''SSDT''} then s else ''????'')"

definition checksum_valid :: "memory \<Rightarrow> nat \<Rightarrow> nat \<Rightarrow> bool" where
  "checksum_valid m a len \<longleftrightarrow> fold (\<lambda>i s. s + m (a + i)) [0 ..< len] (0 :: 8 word) = 0"

section \<open>The fixed description table\<close>

abbreviation RESET_REG_OFFSET :: nat where
  "RESET_REG_OFFSET \<equiv> 0x70"

abbreviation RESET_VALUE_OFFSET :: nat where
  "RESET_VALUE_OFFSET \<equiv> 0x7C"

definition parse_fadt :: "memory \<Rightarrow> nat \<Rightarrow> acpi_state \<Rightarrow> acpi_state" where
  "parse_fadt m a st =
     (let len = sdt_length m a;
          st = acpi_log (''ACPI: FADT length = '' @ dec len) st
      in if \<not> checksum_valid m a len then acpi_log ''ACPI: FADT checksum invalid'' st
         else let st = acpi_log ''ACPI: FADT checksum valid'' st
         in if len < RESET_VALUE_OFFSET + 1 then acpi_log ''ACPI: FADT is too short for RESET_REG'' st
         else let reg = a + RESET_REG_OFFSET;
                  space = byte_at m reg;
                  address = read_le m (reg + 4) 8;
                  v = byte_at m (a + RESET_VALUE_OFFSET);
                  st = acpi_log ''ACPI: RESET_REG'' st;
                  st = acpi_log (''  address space: '' @ hex space) st;
                  st = acpi_log (''  bit width: '' @ dec (byte_at m (reg + 1))) st;
                  st = acpi_log (''  bit offset: '' @ dec (byte_at m (reg + 2))) st;
                  st = acpi_log (''  access size: '' @ dec (byte_at m (reg + 3))) st;
                  st = acpi_log (''  address: '' @ hex address) st;
                  st = acpi_log (''  value: '' @ hex v) st
         in if address = 0 then acpi_log ''ACPI: RESET_REG is unavailable'' st
         else acpi_log ''ACPI: reset mechanism available''
           (fst st, Some \<lparr>address_space = space, reset_address = address, reset_value = v\<rparr>))"

section \<open>The table list\<close>

definition xsdt_entry :: "memory \<Rightarrow> nat \<Rightarrow> nat \<Rightarrow> nat" where
  "xsdt_entry m xsdt i = read_le m (xsdt + SDT_HEADER_SIZE + 8 * i) 8"

primrec scan_tables :: "memory \<Rightarrow> nat \<Rightarrow> nat list \<Rightarrow> acpi_state \<Rightarrow> acpi_state" where
  "scan_tables m xsdt [] st = acpi_log ''ACPI: FADT not found'' st"
| "scan_tables m xsdt (i # is) st =
     (let table = xsdt_entry m xsdt i
      in if table = 0 then scan_tables m xsdt is st
         else let sig = sdt_signature m table;
                  st = acpi_log (''ACPI: table '' @ dec i @ '' = '' @ signature_to_str sig) st
         in if sig = ''FACP''
            then parse_fadt m table (acpi_log (''ACPI: found FADT at '' @ hex table) st)
            else scan_tables m xsdt is st)"

definition xsdt_count :: "memory \<Rightarrow> nat \<Rightarrow> nat" where
  "xsdt_count m xsdt = (sdt_length m xsdt - SDT_HEADER_SIZE) div 8"

definition find_fadt :: "memory \<Rightarrow> nat \<Rightarrow> acpi_state \<Rightarrow> acpi_state" where
  "find_fadt m xsdt st =
     (if sdt_signature m xsdt \<noteq> ''XSDT'' then acpi_log ''ACPI: invalid XSDT signature'' st
      else if sdt_length m xsdt < SDT_HEADER_SIZE then acpi_log ''ACPI: invalid XSDT length'' st
      else scan_tables m xsdt [0 ..< xsdt_count m xsdt]
        (acpi_log (''ACPI: XSDT contains '' @ dec (xsdt_count m xsdt) @ '' entries'') st))"

text \<open>\<open>acpi::init\<close>; the argument is the boot loader's response.\<close>

definition acpi_init :: "memory \<Rightarrow> nat option \<Rightarrow> acpi_state \<Rightarrow> acpi_state" where
  "acpi_init m response st =
     (let st = acpi_log ''ACPI: initializing...'' st
      in case response of
           None \<Rightarrow> acpi_log ''ACPI: Limine did not provide an RSDP'' st
         | Some rsdp \<Rightarrow>
             let st = acpi_log (''ACPI: RSDP at '' @ hex rsdp) st
             in if rsdp_signature m rsdp \<noteq> ''RSD PTR '' then acpi_log ''ACPI: invalid RSDP signature'' st
             else if \<not> checksum_valid m rsdp 20 then acpi_log ''ACPI: RSDP checksum invalid'' st
             else let st = acpi_log (''ACPI: revision '' @ dec (rsdp_revision m rsdp)) st
             in if 2 \<le> rsdp_revision m rsdp
                then if \<not> checksum_valid m rsdp (rsdp_length m rsdp)
                     then acpi_log ''ACPI: extended RSDP checksum invalid'' st
                     else find_fadt m (xsdt_address m rsdp)
                       (acpi_log (''ACPI: XSDT at '' @ hex (xsdt_address m rsdp)) st)
                else acpi_log ''ACPI: RSDT support not implemented yet''
                  (acpi_log ''ACPI: ACPI 1.0 detected'' st))"

section \<open>Reboot\<close>

text \<open>The number of reads of the status port, at most \<open>n\<close>; the loop stops at the first byte whose
  input-buffer bit is clear.\<close>

primrec poll_reads :: "(nat \<Rightarrow> 8 word) \<Rightarrow> nat \<Rightarrow> nat \<Rightarrow> nat" where
  "poll_reads status 0 i = i"
| "poll_reads status (Suc n) i =
     (if status i AND 2 = 0 then i + 1 else poll_reads status n (i + 1))"

abbreviation POLL_LIMIT :: nat where
  "POLL_LIMIT \<equiv> 100000"

definition fallback_reboot :: "(nat \<Rightarrow> 8 word) \<Rightarrow> ui \<Rightarrow> machine_action list \<times> ui" where
  "fallback_reboot status u =
     (replicate (poll_reads status POLL_LIMIT 0) (ReadPort 0x64) @
        [WritePort 0x64 0xFE, DisableInterrupts, LoadIdt 0 0, Int3],
      serial_println ''ACPI: attempting fallback reboot...'' u)"

definition and_fallback :: "(nat \<Rightarrow> 8 word) \<Rightarrow> machine_action list \<Rightarrow> ui \<Rightarrow> machine_action list \<times> ui" where
  "and_fallback status actions u = (case fallback_reboot status u of (as, u') \<Rightarrow> (actions @ as, u'))"

text \<open>The actions of \<open>reboot\<close>, in order, for a machine that survives each of them.\<close>

definition acpi_reboot :: "(nat \<Rightarrow> 8 word) \<Rightarrow> acpi_state \<Rightarrow> machine_action list \<times> ui" where
  "acpi_reboot status st =
     (let u = serial_println ''ACPI: rebooting...'' (fst st)
      in case snd st of
           None \<Rightarrow>
             and_fallback status [DisableInterrupts]
               (serial_println ''ACPI: no reset mechanism available'' u)
         | Some reset \<Rightarrow>
             if address_space reset = 1
             then if 65535 < reset_address reset
                  then and_fallback status [DisableInterrupts]
                    (serial_println ''ACPI: RESET_REG I/O address is invalid'' u)
                  else and_fallback status
                    [DisableInterrupts, WritePort (reset_address reset) (reset_value reset)]
                    (serial_println ''ACPI: reset command returned'' u)
             else and_fallback status [DisableInterrupts]
               (serial_println (''ACPI: RESET_REG address space '' @ hex (address_space reset) @
                  '' is not supported yet'') u))"

section \<open>Checksums\<close>

lemma fold_sum_bytes: "fold (\<lambda>i s. s + m (a + i)) [0 ..< n] (0 :: 8 word) = (\<Sum>i<n. m (a + i))"
  by (induction n) (simp_all add: lessThan_Suc add.commute)

lemma unat_sum_bytes: "unat (\<Sum>i<(n :: nat). (f i :: 8 word)) = (\<Sum>i<n. unat (f i)) mod 256"
  by (induction n) (simp_all add: unat_word_ariths mod_add_left_eq)

text \<open>
  The checksum test accepts a table exactly when its bytes add up to a multiple of 256, for
  every length.
\<close>

theorem checksum_valid_iff:
  "checksum_valid m a n \<longleftrightarrow> (\<Sum>i<n. byte_at m (a + i)) mod 256 = 0"
proof -
  have "checksum_valid m a n \<longleftrightarrow> unat (\<Sum>i<n. m (a + i)) = 0"
    unfolding checksum_valid_def fold_sum_bytes by (simp add: unat_eq_0)
  also have "\<dots> \<longleftrightarrow> (\<Sum>i<n. byte_at m (a + i)) mod 256 = 0"
    by (simp only: unat_sum_bytes byte_at_def)
  finally show ?thesis .
qed

section \<open>What initialisation finds\<close>

lemma snd_acpi_log [simp]: "snd (acpi_log str st) = snd st"
  by (simp add: acpi_log_def)

text \<open>The tables the list names, null entries left out, and the first FADT among them.\<close>

definition tables :: "memory \<Rightarrow> nat \<Rightarrow> nat list" where
  "tables m xsdt = filter (\<lambda>t. t \<noteq> 0) (map (xsdt_entry m xsdt) [0 ..< xsdt_count m xsdt])"

definition first_fadt :: "memory \<Rightarrow> nat \<Rightarrow> nat option" where
  "first_fadt m xsdt =
     (if sdt_signature m xsdt = ''XSDT'' \<and> SDT_HEADER_SIZE \<le> sdt_length m xsdt
      then find (\<lambda>t. sdt_signature m t = ''FACP'') (tables m xsdt) else None)"

definition rsdp_valid :: "memory \<Rightarrow> nat \<Rightarrow> bool" where
  "rsdp_valid m a \<longleftrightarrow> rsdp_signature m a = ''RSD PTR '' \<and> checksum_valid m a 20 \<and>
     2 \<le> rsdp_revision m a \<and> checksum_valid m a (rsdp_length m a)"

definition fadt_reset :: "memory \<Rightarrow> nat \<Rightarrow> reset_info option" where
  "fadt_reset m t =
     (if checksum_valid m t (sdt_length m t) \<and> 0x7C < sdt_length m t \<and> read_le m (t + 0x74) 8 \<noteq> 0
      then Some \<lparr>address_space = byte_at m (t + 0x70), reset_address = read_le m (t + 0x74) 8,
        reset_value = byte_at m (t + 0x7C)\<rparr>
      else None)"

lemma snd_parse_fadt:
  "snd (parse_fadt m t st) = (case fadt_reset m t of Some r \<Rightarrow> Some r | None \<Rightarrow> snd st)"
  by (simp add: parse_fadt_def fadt_reset_def Let_def add.commute [of t])

lemma snd_scan_tables:
  "snd (scan_tables m xsdt is st) =
     (case find (\<lambda>t. sdt_signature m t = ''FACP'')
         (filter (\<lambda>t. t \<noteq> 0) (map (xsdt_entry m xsdt) is)) of
        None \<Rightarrow> snd st
      | Some t \<Rightarrow> (case fadt_reset m t of Some r \<Rightarrow> Some r | None \<Rightarrow> snd st))"
  by (induction "is" arbitrary: st) (auto simp: Let_def snd_parse_fadt split: option.splits)

lemma snd_find_fadt:
  "snd (find_fadt m xsdt st) =
     (case first_fadt m xsdt of
        None \<Rightarrow> snd st
      | Some t \<Rightarrow> (case fadt_reset m t of Some r \<Rightarrow> Some r | None \<Rightarrow> snd st))"
  by (auto simp: find_fadt_def first_fadt_def snd_scan_tables tables_def split: option.splits)

lemma snd_acpi_init:
  "snd (acpi_init m response st) =
     (case response of
        None \<Rightarrow> snd st
      | Some a \<Rightarrow>
          if rsdp_valid m a
          then (case first_fadt m (xsdt_address m a) of
                  None \<Rightarrow> snd st
                | Some t \<Rightarrow> (case fadt_reset m t of Some r \<Rightarrow> Some r | None \<Rightarrow> snd st))
          else snd st)"
  by (simp add: acpi_init_def rsdp_valid_def snd_find_fadt Let_def split: option.splits)

text \<open>
  C23. What initialisation finds: the reset information is set exactly when the RSDP is valid
  (signature, both checksums, revision 2 or later), the XSDT has its signature and holds a header,
  and the first FADT among its non-null entries has a valid checksum, is long enough and names a
  non-zero address; it is then that table's, and in every other case nothing is saved.
\<close>

theorem acpi_init_reset_info:
  "snd (acpi_init m response (u, None)) = Some r \<longleftrightarrow>
     (\<exists>a t. response = Some a \<and> rsdp_valid m a \<and> first_fadt m (xsdt_address m a) = Some t \<and>
        fadt_reset m t = Some r)"
  by (auto simp: snd_acpi_init split: option.splits)

section \<open>Reboot ends\<close>

lemma poll_reads_bound: "i \<le> poll_reads status n i \<and> poll_reads status n i \<le> i + n"
proof (induction n arbitrary: i)
  case (Suc n)
  show ?case using Suc [of "i + 1"] by simp
qed simp

lemma poll_reads_clear:
  "i \<le> j \<Longrightarrow> j < i + n \<Longrightarrow> status j AND 2 = 0 \<Longrightarrow> poll_reads status n i \<le> j + 1"
proof (induction n arbitrary: i)
  case (Suc n)
  show ?case using Suc.IH [of "i + 1"] Suc.prems by (cases "i = j") simp_all
qed simp

definition reset_writes :: "reset_info option \<Rightarrow> machine_action list" where
  "reset_writes r =
     (case r of
        None \<Rightarrow> []
      | Some i \<Rightarrow> if address_space i = 1 \<and> reset_address i < 65536
                  then [WritePort (reset_address i) (reset_value i)] else [])"

text \<open>
  C24. Rebooting always comes to its end, whatever the keyboard controller answers: interrupts off
  first, the reset register written exactly when it is an I/O port of 16 bits, then at most 100000
  reads of the status port, not one more after it is ready, the pulse of the reset line, and the
  triple fault.
\<close>

theorem reboot_ends:
  "\<exists>n. fst (acpi_reboot status st) =
     DisableInterrupts # reset_writes (snd st) @ replicate n (ReadPort 0x64) @
       [WritePort 0x64 0xFE, DisableInterrupts, LoadIdt 0 0, Int3] \<and>
     n \<le> 100000 \<and> (\<forall>j < 100000. status j AND 2 = 0 \<longrightarrow> n \<le> j + 1)"
proof -
  let ?n = "poll_reads status POLL_LIMIT 0"
  have "?n \<le> 100000" using poll_reads_bound [of 0 status POLL_LIMIT] by simp
  moreover have "\<forall>j < 100000. status j AND 2 = 0 \<longrightarrow> ?n \<le> j + 1"
    using poll_reads_clear [of 0 _ POLL_LIMIT status] by simp
  moreover have "fst (acpi_reboot status st) =
     DisableInterrupts # reset_writes (snd st) @ replicate ?n (ReadPort 0x64) @
       [WritePort 0x64 0xFE, DisableInterrupts, LoadIdt 0 0, Int3]"
    by (auto simp: acpi_reboot_def and_fallback_def fallback_reboot_def reset_writes_def Let_def
        split: option.splits)
  ultimately show ?thesis by blast
qed

theorem reboot_ends_witness:
  "\<exists>n. fst (acpi_reboot (\<lambda>_. 0) (ui_static (fb_static (\<lambda>_. 7)),
       Some \<lparr>address_space = 1, reset_address = 3321, reset_value = 6\<rparr>)) =
     [DisableInterrupts, WritePort 3321 6] @ replicate n (ReadPort 0x64) @
       [WritePort 0x64 0xFE, DisableInterrupts, LoadIdt 0 0, Int3] \<and> n \<le> 1"
  using reboot_ends [of "\<lambda>_. 0" "(ui_static (fb_static (\<lambda>_. 7)),
       Some \<lparr>address_space = 1, reset_address = 3321, reset_value = 6\<rparr>)"]
  by (auto simp: reset_writes_def)

section \<open>The offsets of the reset register\<close>

text \<open>
  The ACPI specification (FADT format) puts the 32-bit feature flags at 0x70, \<open>RESET_REG\<close>, a
  generic address structure of 12 bytes, at 0x74 and \<open>RESET_VALUE\<close> at 0x80.
\<close>

definition spec_reset_space :: "memory \<Rightarrow> nat \<Rightarrow> nat" where
  "spec_reset_space m t = byte_at m (t + 0x74)"

definition spec_reset_address :: "memory \<Rightarrow> nat \<Rightarrow> nat" where
  "spec_reset_address m t = read_le m (t + 0x78) 8"

lemma read_le_add: "read_le m a (k + n) = read_le m a k + 256 ^ k * read_le m (a + k) n"
  by (induction k arbitrary: a) (simp_all add: algebra_simps)

lemma byte_at_lt: "byte_at m a < 256"
  using unsigned_less [of "m a"] by (simp add: byte_at_def)

lemma read_le_lt: "read_le m a n < 256 ^ n"
proof (induction n arbitrary: a)
  case (Suc n)
  show ?case using Suc [of "a + 1"] byte_at_lt [of m a] by simp
qed simp

text \<open>What the code takes for the address is the register's descriptor and its low half.\<close>

lemma misread_address:
  "read_le m (t + 0x74) 8 = read_le m (t + 0x74) 4 + 4294967296 * read_le m (t + 0x78) 4"
  using read_le_add [of m "t + 0x74" 4 4] by (simp add: add.commute)

text \<open>
  C33. The offsets are wrong: the code reads \<open>RESET_REG\<close> at 0x70, where the specification has the
  feature flags, so on a table with a reset register at an I/O port (at 0x74, as specified) the
  address it saves is beyond 2^32, and a reboot writes no port but the keyboard controller's.
\<close>

theorem reset_register_misread:
  assumes "snd (parse_fadt m t (u, None)) = Some r" and "spec_reset_space m t = 1"
    and "0 < spec_reset_address m t" and "spec_reset_address m t < 65536"
  shows "4294967296 \<le> reset_address r \<and>
    (\<forall>p v. WritePort p v \<in> set (fst (acpi_reboot status (u, Some r))) \<longrightarrow> p = 0x64)"
proof -
  have "spec_reset_address m t = read_le m (t + 0x78) 4 + 4294967296 * read_le m (t + 0x7C) 4"
    using read_le_add [of m "t + 0x78" 4 4] by (simp add: spec_reset_address_def add.commute)
  then have "0 < read_le m (t + 0x78) 4" using assms(3,4) by (cases "read_le m (t + 0x7C) 4 = 0") simp_all
  then have "4294967296 \<le> read_le m (t + 0x74) 8" by (simp add: misread_address)
  then have big: "4294967296 \<le> reset_address r"
    using assms(1) by (auto simp: snd_parse_fadt fadt_reset_def split: option.splits if_splits)
  then show ?thesis
    by (auto simp: acpi_reboot_def and_fallback_def fallback_reboot_def Let_def)
qed

text \<open>A table with the flags 0x1 at 0x70 and the register at port 0xCF9.\<close>

definition sample_fadt :: memory where
  "sample_fadt a =
     (if a = 4 then 0x84 else if a = 9 then 0x67 else if a = 0x70 then 1 else if a = 0x74 then 1
      else if a = 0x75 then 8 else if a = 0x78 then 0xF9 else if a = 0x79 then 0x0C
      else if a = 0x80 then 6 else 0)"

lemma read_le_numeral [simp]:
  "read_le m a (numeral k) = byte_at m a + 256 * read_le m (a + 1) (pred_numeral k)"
  by (simp add: numeral_eq_Suc)

lemma sample_fadt_reads:
  "sdt_length sample_fadt 0 = 132" "read_le sample_fadt 0x74 8 = 0xCF900000801"
  "spec_reset_space sample_fadt 0 = 1" "spec_reset_address sample_fadt 0 = 0xCF9"
  by (simp_all add: sdt_length_def spec_reset_space_def spec_reset_address_def byte_at_def sample_fadt_def)

lemma sample_fadt_checksum: "checksum_valid sample_fadt 0 132"
proof -
  have "(\<Sum>i<132. sample_fadt i) = (\<Sum>i\<in>{4, 9, 0x70, 0x74, 0x75, 0x78, 0x79, 0x80}. sample_fadt i)"
    by (rule sum.mono_neutral_right) (auto simp: sample_fadt_def split: if_splits)
  also have "\<dots> = 0" by (simp add: sample_fadt_def)
  finally show ?thesis unfolding checksum_valid_def fold_sum_bytes by simp
qed

theorem reset_register_misread_witness:
  "\<exists>r. snd (parse_fadt sample_fadt 0 (ui_static (fb_static (\<lambda>_. 7)), None)) = Some r \<and>
     4294967296 \<le> reset_address r"
proof -
  have "\<exists>r. snd (parse_fadt sample_fadt 0 (ui_static (fb_static (\<lambda>_. 7)), None)) = Some r"
    using sample_fadt_reads sample_fadt_checksum by (simp add: snd_parse_fadt fadt_reset_def)
  with reset_register_misread [of sample_fadt 0] sample_fadt_reads(3,4) show ?thesis by auto
qed

end
