(* ===== verification/Machine.thy ===== *)
theory Machine
  imports Acpi Kmem Tmpfs
begin

text \<open>
  The kernel as a whole: the record \<open>kernel\<close> of its statics (the console with its framebuffer and
  the serial port, the saved ACPI reset information, the file system, the heap) and of what was done
  to the hardware, and the record \<open>env\<close> of what surrounds it (what the boot loader handed over, the
  bytes of a polled status port, the text of an interrupt stack frame). A call into the kernel
  returns (\<open>Returns\<close>) or never returns (\<open>Diverges\<close>: it spins, or the machine is gone) in the state
  it leaves; panics are the \<open>Panic\<close> of \<open>outcome\<close>.
\<close>

record kernel =
  k_ui :: ui
  k_reset :: "reset_info option"
  k_fs :: tmpfs
  k_heap :: buddy
  k_actions :: "machine_action list"
  kinit_called :: bool

record env =
  env_kinds :: memmap_kinds
  env_boot :: boot_info
  env_status :: "nat \<Rightarrow> 8 word"
  env_frame :: string

datatype ending = Returns kernel | Diverges kernel

primrec kernel_of :: "ending \<Rightarrow> kernel" where
  "kernel_of (Returns k) = k"
| "kernel_of (Diverges k) = k"

type_synonym run = "ending outcome"

section \<open>Sequencing\<close>

definition on_return :: "(kernel \<Rightarrow> run) \<Rightarrow> ending \<Rightarrow> run" where
  "on_return f e = (case e of Returns k \<Rightarrow> f k | Diverges k \<Rightarrow> Done (Diverges k))"

definition followed_by :: "run \<Rightarrow> (kernel \<Rightarrow> run) \<Rightarrow> run" where
  "followed_by m f = andthen m (on_return f)"

lemma followed_by_simps [simp]:
  "followed_by (Done (Returns k)) f = f k" "followed_by (Done (Diverges k)) f = Done (Diverges k)"
  "followed_by (Panic p) f = Panic p" "followed_by Hang f = Hang"
  by (simp_all add: followed_by_def on_return_def)

primrec all_of :: "(kernel \<Rightarrow> run) list \<Rightarrow> kernel \<Rightarrow> run" where
  "all_of [] k = Done (Returns k)"
| "all_of (f # fs) k = followed_by (f k) (all_of fs)"

lemma followed_by_assoc: "followed_by (followed_by m f) g = followed_by m (\<lambda>k. followed_by (f k) g)"
  by (cases m) (auto simp: followed_by_def on_return_def split: ending.split)

lemma followed_by_returns [simp]: "followed_by m (\<lambda>k. Done (Returns k)) = m"
  by (cases m) (auto simp: followed_by_def on_return_def split: ending.split)

lemma all_of_Nil [simp]: "all_of [] = (\<lambda>k. Done (Returns k))"
  by (rule ext) simp

lemma all_of_single: "all_of [f] k = f k"
  by simp

lemma all_of_append: "all_of (fs @ gs) = (\<lambda>k. followed_by (all_of fs k) (all_of gs))"
proof (induction fs)
  case (Cons f fs)
  then show ?case by (intro ext) (simp add: followed_by_assoc)
qed simp

definition with_ui :: "(ui \<Rightarrow> ui outcome) \<Rightarrow> kernel \<Rightarrow> run" where
  "with_ui f k = andthen (f (k_ui k)) (\<lambda>u. Done (Returns (k\<lparr>k_ui := u\<rparr>)))"

definition act :: "machine_action list \<Rightarrow> kernel \<Rightarrow> kernel" where
  "act as k = k\<lparr>k_actions := k_actions k @ as\<rparr>"

definition say :: "string \<Rightarrow> kernel \<Rightarrow> run" where
  "say str = with_ui (console_println str)"

definition say_color :: "color \<Rightarrow> string \<Rightarrow> kernel \<Rightarrow> run" where
  "say_color c str = with_ui (console_println_color c str)"

definition say_part :: "string \<Rightarrow> kernel \<Rightarrow> run" where
  "say_part str = with_ui (console_print str)"

definition serial_lines :: "string list \<Rightarrow> kernel \<Rightarrow> kernel" where
  "serial_lines ls k = k\<lparr>k_ui := fold serial_println ls (k_ui k)\<rparr>"

text \<open>\<open>serial_print!\<close>, without a newline.\<close>

definition serial_text :: "string \<Rightarrow> kernel \<Rightarrow> kernel" where
  "serial_text str k = k\<lparr>k_ui := serial_write_fmt str (k_ui k)\<rparr>"

section \<open>Runs that keep a property\<close>

text \<open>A run that does not panic and whose final state, returned or not, satisfies \<open>P\<close>.\<close>

definition ends_in :: "(kernel \<Rightarrow> bool) \<Rightarrow> run \<Rightarrow> bool" where
  "ends_in P r \<longleftrightarrow> (\<exists>e. r = Done e \<and> P (kernel_of e))"

definition returns_in :: "(kernel \<Rightarrow> bool) \<Rightarrow> run \<Rightarrow> bool" where
  "returns_in P r \<longleftrightarrow> (\<exists>k. r = Done (Returns k) \<and> P k)"

lemma returns_ends: "returns_in P r \<Longrightarrow> ends_in P r"
  by (auto simp: returns_in_def ends_in_def)

lemma ends_in_followed:
  assumes "ends_in P r" and "\<And>k. P k \<Longrightarrow> ends_in P (f k)"
  shows "ends_in P (followed_by r f)"
proof -
  obtain e where e: "r = Done e" "P (kernel_of e)" using assms(1) by (auto simp: ends_in_def)
  show ?thesis
  proof (cases e)
    case (Returns k)
    then show ?thesis using e assms(2) by simp
  next
    case (Diverges k)
    then show ?thesis using e by (simp add: ends_in_def)
  qed
qed

lemma returns_in_followed:
  assumes "returns_in P r" and "\<And>k. P k \<Longrightarrow> returns_in Q (f k)"
  shows "returns_in Q (followed_by r f)"
  using assms by (auto simp: returns_in_def)

lemma returns_in_all_of:
  "(\<And>f k. f \<in> set fs \<Longrightarrow> P k \<Longrightarrow> returns_in P (f k)) \<Longrightarrow> P k \<Longrightarrow> returns_in P (all_of fs k)"
proof (induction fs arbitrary: k)
  case (Cons f fs)
  show ?case
    using returns_in_followed [of P "f k" P "all_of fs"] Cons by simp
qed (simp add: returns_in_def)

lemma returns_in_mono: "returns_in P r \<Longrightarrow> (\<And>k. P k \<Longrightarrow> Q k) \<Longrightarrow> returns_in Q r"
  by (auto simp: returns_in_def)

end
