(* ===== verification/Interrupts.thy ===== *)
theory Interrupts
  imports Machine
begin

text \<open>
  \<open>src/int.rs\<close> and \<open>src/pic.rs\<close>: the exception handlers, the interrupt table and the interrupt
  controllers. What the \<open>x86_64\<close> crate formats (stack frame, error code of a page fault, the
  accessed address) is text handed to the handlers. The keyboard handler, which runs the shell, is
  in \<open>Keyboard\<close>.
\<close>

section \<open>Exception handlers\<close>

text \<open>\<open>panic_loop\<close>, entered after the given lines went to the serial port: interrupts off, then spin.\<close>

definition panic_loop :: "kernel \<Rightarrow> run" where
  "panic_loop k = Done (Diverges (act [DisableInterrupts] k))"

text \<open>What the processor and the \<open>x86_64\<close> crate hand to a handler.\<close>

record exception_info =
  stack_frame :: string
  error_code :: nat
  accessed_address :: string
  page_error :: string

definition breakpoint_handler :: "string \<Rightarrow> kernel \<Rightarrow> run" where
  "breakpoint_handler frame k =
     all_of [say_color RED ''EXCEPTION: BREAKPOINT'', say_color RED frame]
       (serial_lines [''EXCEPTION: BREAKPOINT'', frame] k)"

definition debug_handler :: "string \<Rightarrow> kernel \<Rightarrow> run" where
  "debug_handler frame k = Done (Returns (serial_lines [''EXCEPTION: DEBUG'', frame] k))"

definition double_fault_handler :: "exception_info \<Rightarrow> kernel \<Rightarrow> run" where
  "double_fault_handler x k = panic_loop (serial_lines
     ['''', ''EXCEPTION: DOUBLE FAULT'',
      ''error code: '' @ hex (error_code x), stack_frame x] k)"

definition general_protection_fault_handler :: "exception_info \<Rightarrow> kernel \<Rightarrow> run" where
  "general_protection_fault_handler x k = panic_loop (serial_lines
     ['''', ''EXCEPTION: GENERAL PROTECTION FAULT'',
      ''error code: '' @ hex (error_code x), stack_frame x] k)"

definition invalid_opcode_handler :: "exception_info \<Rightarrow> kernel \<Rightarrow> run" where
  "invalid_opcode_handler x k = panic_loop (serial_lines
     ['''', ''EXCEPTION: INVALID OPCODE'', stack_frame x] k)"

definition page_fault_handler :: "exception_info \<Rightarrow> kernel \<Rightarrow> run" where
  "page_fault_handler x k = panic_loop (serial_lines
     ['''', ''EXCEPTION: PAGE FAULT'',
      ''accessed address: '' @ accessed_address x, ''error code: '' @ page_error x, stack_frame x] k)"

definition divide_error_handler :: "exception_info \<Rightarrow> kernel \<Rightarrow> run" where
  "divide_error_handler x k = panic_loop (serial_lines
     ['''', ''EXCEPTION: DIVIDE ERROR'', stack_frame x] k)"

definition invalid_tss_handler :: "exception_info \<Rightarrow> kernel \<Rightarrow> run" where
  "invalid_tss_handler x k = panic_loop (serial_lines
     ['''', ''EXCEPTION: INVALID TSS'',
      ''error code: '' @ hex (error_code x), stack_frame x] k)"

definition segment_not_present_handler :: "exception_info \<Rightarrow> kernel \<Rightarrow> run" where
  "segment_not_present_handler x k = panic_loop (serial_lines
     ['''', ''EXCEPTION: SEGMENT NOT PRESENT'',
      ''error code: '' @ hex (error_code x), stack_frame x] k)"

definition stack_segment_fault_handler :: "exception_info \<Rightarrow> kernel \<Rightarrow> run" where
  "stack_segment_fault_handler x k = panic_loop (serial_lines
     ['''', ''EXCEPTION: STACK SEGMENT FAULT'',
      ''error code: '' @ hex (error_code x), stack_frame x] k)"

definition alignment_check_handler :: "exception_info \<Rightarrow> kernel \<Rightarrow> run" where
  "alignment_check_handler x k = panic_loop (serial_lines
     ['''', ''EXCEPTION: ALIGNMENT CHECK'',
      ''error code: '' @ hex (error_code x), stack_frame x] k)"

definition x87_floating_point_handler :: "exception_info \<Rightarrow> kernel \<Rightarrow> run" where
  "x87_floating_point_handler x k = panic_loop (serial_lines
     [''EXCEPTION: x87 FLOATING POINT'', stack_frame x] k)"

definition simd_floating_point_handler :: "exception_info \<Rightarrow> kernel \<Rightarrow> run" where
  "simd_floating_point_handler x k = panic_loop (serial_lines
     [''EXCEPTION: SIMD FLOATING POINT'', stack_frame x] k)"

definition virtualization_handler :: "exception_info \<Rightarrow> kernel \<Rightarrow> run" where
  "virtualization_handler x k = panic_loop (serial_lines
     [''EXCEPTION: VIRTUALIZATION'', stack_frame x] k)"

definition device_not_available_handler :: "exception_info \<Rightarrow> kernel \<Rightarrow> run" where
  "device_not_available_handler x k = panic_loop (serial_lines
     [''EXCEPTION: DEVICE NOT AVAILABLE'', stack_frame x] k)"

definition overflow_handler :: "exception_info \<Rightarrow> kernel \<Rightarrow> run" where
  "overflow_handler x k = panic_loop (serial_lines
     [''EXCEPTION: OVERFLOW'', stack_frame x] k)"

definition bound_range_exceeded_handler :: "exception_info \<Rightarrow> kernel \<Rightarrow> run" where
  "bound_range_exceeded_handler x k = panic_loop (serial_lines
     [''EXCEPTION: BOUND RANGE EXCEEDED'', stack_frame x] k)"

definition non_maskable_interrupt_handler :: "exception_info \<Rightarrow> kernel \<Rightarrow> run" where
  "non_maskable_interrupt_handler x k = panic_loop (serial_lines
     [''EXCEPTION: NON-MASKABLE INTERRUPT'', stack_frame x] k)"

definition machine_check_handler :: "exception_info \<Rightarrow> kernel \<Rightarrow> run" where
  "machine_check_handler x k = panic_loop (serial_lines
     [''EXCEPTION: MACHINE CHECK'', stack_frame x] k)"

section \<open>The interrupt table\<close>

text \<open>The gates the code names, by field of the table or, for the interrupt lines, by number.\<close>

datatype exception =
    Breakpoint
  | DoubleFault
  | GeneralProtectionFault
  | InvalidOpcode
  | PageFault
  | DivideError
  | InvalidTss
  | SegmentNotPresent
  | StackSegmentFault
  | AlignmentCheck
  | X87FloatingPoint
  | SimdFloatingPoint
  | Virtualization
  | DeviceNotAvailable
  | Debug
  | Overflow
  | BoundRangeExceeded
  | NonMaskableInterrupt
  | MachineCheck

datatype gate = Exception exception | Vector nat

datatype handler = ExceptionHandler exception | TimerHandler | KeyboardHandler

abbreviation TIMER :: nat where "TIMER \<equiv> 32"

abbreviation KEYBOARD :: nat where "KEYBOARD \<equiv> 33"

definition DOUBLE_FAULT_IST_INDEX :: nat where "DOUBLE_FAULT_IST_INDEX = 0"

text \<open>Gate, handler, and the interrupt stack if one is set.\<close>

definition idt :: "(gate \<times> handler \<times> nat option) list" where
  "idt =
     [(Exception Breakpoint, ExceptionHandler Breakpoint, None),
      (Exception DoubleFault, ExceptionHandler DoubleFault, Some DOUBLE_FAULT_IST_INDEX),
      (Exception GeneralProtectionFault, ExceptionHandler GeneralProtectionFault, None),
      (Exception InvalidOpcode, ExceptionHandler InvalidOpcode, None),
      (Exception PageFault, ExceptionHandler PageFault, None),
      (Exception DivideError, ExceptionHandler DivideError, None),
      (Exception InvalidTss, ExceptionHandler InvalidTss, None),
      (Exception SegmentNotPresent, ExceptionHandler SegmentNotPresent, None),
      (Exception StackSegmentFault, ExceptionHandler StackSegmentFault, None),
      (Exception AlignmentCheck, ExceptionHandler AlignmentCheck, None),
      (Exception X87FloatingPoint, ExceptionHandler X87FloatingPoint, None),
      (Exception SimdFloatingPoint, ExceptionHandler SimdFloatingPoint, None),
      (Exception Virtualization, ExceptionHandler Virtualization, None),
      (Exception DeviceNotAvailable, ExceptionHandler DeviceNotAvailable, None),
      (Exception Debug, ExceptionHandler Debug, None),
      (Exception Overflow, ExceptionHandler Overflow, None),
      (Exception BoundRangeExceeded, ExceptionHandler BoundRangeExceeded, None),
      (Exception NonMaskableInterrupt, ExceptionHandler NonMaskableInterrupt, None),
      (Exception MachineCheck, ExceptionHandler MachineCheck, None),
      (Vector TIMER, TimerHandler, None),
      (Vector KEYBOARD, KeyboardHandler, None)]"

definition int_init :: "kernel \<Rightarrow> kernel" where
  "int_init k = act [LoadInterruptTable] k"

primrec run_exception :: "exception \<Rightarrow> exception_info \<Rightarrow> kernel \<Rightarrow> run" where
  "run_exception Breakpoint x k = breakpoint_handler (stack_frame x) k"
| "run_exception DoubleFault x k = double_fault_handler x k"
| "run_exception GeneralProtectionFault x k = general_protection_fault_handler x k"
| "run_exception InvalidOpcode x k = invalid_opcode_handler x k"
| "run_exception PageFault x k = page_fault_handler x k"
| "run_exception DivideError x k = divide_error_handler x k"
| "run_exception InvalidTss x k = invalid_tss_handler x k"
| "run_exception SegmentNotPresent x k = segment_not_present_handler x k"
| "run_exception StackSegmentFault x k = stack_segment_fault_handler x k"
| "run_exception AlignmentCheck x k = alignment_check_handler x k"
| "run_exception X87FloatingPoint x k = x87_floating_point_handler x k"
| "run_exception SimdFloatingPoint x k = simd_floating_point_handler x k"
| "run_exception Virtualization x k = virtualization_handler x k"
| "run_exception DeviceNotAvailable x k = device_not_available_handler x k"
| "run_exception Debug x k = debug_handler (stack_frame x) k"
| "run_exception Overflow x k = overflow_handler x k"
| "run_exception BoundRangeExceeded x k = bound_range_exceeded_handler x k"
| "run_exception NonMaskableInterrupt x k = non_maskable_interrupt_handler x k"
| "run_exception MachineCheck x k = machine_check_handler x k"

text \<open>An exception is delivered through the table.\<close>

definition deliver :: "exception \<Rightarrow> exception_info \<Rightarrow> kernel \<Rightarrow> run option" where
  "deliver g x k =
     (case map_of idt (Exception g) of
        Some (ExceptionHandler h, _) \<Rightarrow> Some (run_exception h x k)
      | _ \<Rightarrow> None)"

section \<open>Interrupt controllers\<close>

abbreviation PIC_1_OFFSET :: nat where "PIC_1_OFFSET \<equiv> 32"

abbreviation PIC_2_OFFSET :: nat where "PIC_2_OFFSET \<equiv> 40"

definition pic_init :: "kernel \<Rightarrow> kernel" where
  "pic_init k = act [PicInitialize PIC_1_OFFSET PIC_2_OFFSET, PicWriteMasks 0b11111100 0b11111111] k"

definition end_of_interrupt :: "nat \<Rightarrow> kernel \<Rightarrow> kernel" where
  "end_of_interrupt i k = act [PicEndOfInterrupt i] k"

definition timer_interrupt_handler :: "kernel \<Rightarrow> run" where
  "timer_interrupt_handler k = Done (Returns (end_of_interrupt TIMER k))"

end
