(* ===== verification/Grid.thy ===== *)
theory Grid
  imports Console_Correct
begin

text \<open>
  The console without its pixels. What a console operation does to the cells, the cursor and the line
  buffer does not depend on the framebuffer, on the size of the screen or on the colours already
  drawn: the operations on the grid alone below are total functions on consoles, and every operation
  of \<open>Console\<close> refines its counterpart on any framebuffer within its bounds. This holds for a console
  of any size up to that of the static cell buffer, also one larger than the screen.
\<close>

section \<open>The operations on the grid\<close>

text \<open>The cell buffer after a scroll, by index: the last row is blank, the visible part of every row
  above holds what was one row below.\<close>

definition grid_scrolled :: "nat \<Rightarrow> nat \<Rightarrow> (nat \<Rightarrow> cell) \<Rightarrow> nat \<Rightarrow> cell" where
  "grid_scrolled rs cols cs k =
     (if k div MAX_COLUMNS + 1 = rs then EMPTY
      else if k div MAX_COLUMNS + 1 < rs \<and> k mod MAX_COLUMNS < cols then cs (k + MAX_COLUMNS)
      else cs k)"

definition grid_newline :: "console \<Rightarrow> console" where
  "grid_newline con =
     (if rows con = 0 then con\<lparr>cursor_x := 0\<rparr>
      else if cursor_y con + 1 < rows con then con\<lparr>cursor_x := 0, cursor_y := cursor_y con + 1\<rparr>
      else con\<lparr>cells := grid_scrolled (rows con) (columns con) (cells con),
               cursor_x := 0, cursor_y := rows con - 1\<rparr>)"

definition grid_write :: "char \<Rightarrow> console \<Rightarrow> console" where
  "grid_write ch con =
     (if columns con = 0 \<or> rows con = 0 then con
      else
        let con1 = set_cell (cursor_y con) (cursor_x con)
              \<lparr>character = ch, cell_foreground = foreground con, cell_background = background con\<rparr> con
        in if columns con \<le> cursor_x con + 1 then grid_newline con1
           else con1\<lparr>cursor_x := cursor_x con + 1\<rparr>)"

definition grid_back :: "console \<Rightarrow> console" where
  "grid_back con =
     (if cursor_x con = 0 \<and> cursor_y con = 0 then con
      else
        let con1 = (if cursor_x con = 0
                    then con\<lparr>cursor_y := cursor_y con - 1, cursor_x := columns con - 1\<rparr>
                    else con\<lparr>cursor_x := cursor_x con - 1\<rparr>)
        in set_cell (cursor_y con1) (cursor_x con1) EMPTY con1)"

definition grid_put :: "char \<Rightarrow> console \<Rightarrow> console" where
  "grid_put ch con =
     (if ch = CHR 0x0A then grid_newline con
      else if ch = CHR 0x0D then con\<lparr>cursor_x := 0\<rparr>
      else if ch = CHR 0x09 then
        (let next_tab = (cursor_x con div 4 + 1) * 4 in
         if columns con \<le> next_tab then grid_newline con else con\<lparr>cursor_x := next_tab\<rparr>)
      else if ch = CHR 0x08 then grid_back con
      else if (of_char ch :: nat) \<in> {0x20..0x7e} then grid_write ch con
      else con)"

definition grid_clear :: "console \<Rightarrow> console" where
  "grid_clear con = con\<lparr>cells := fill_slice 0 (MAX_COLUMNS * MAX_ROWS) EMPTY (cells con),
     cursor_x := 0, cursor_y := 0, input_len := 0, line_ready := False\<rparr>"

definition grid_key :: "nat \<Rightarrow> console \<Rightarrow> console" where
  "grid_key key con =
     (if key = 0x0A \<or> key = 0x0D then (grid_put (CHR 0x0A) con)\<lparr>line_ready := True\<rparr>
      else if key = 0x08 \<or> key = 0x7f then
        (if 0 < input_len con \<and> 2 < cursor_x con
         then grid_put (CHR 0x08) (con\<lparr>input_len := input_len con - 1\<rparr>) else con)
      else if key < 128 \<and> \<not> (key < 32 \<or> key = 127) \<and> input_len con < INPUT_SIZE then
        grid_put (char_of key)
          (con\<lparr>input := (input con)[input_len con := char_of key], input_len := input_len con + 1\<rparr>)
      else con)"

section \<open>Refinement\<close>

definition same_grid :: "console \<Rightarrow> console \<Rightarrow> bool" where
  "same_grid con con' \<longleftrightarrow> columns con' = columns con \<and> rows con' = rows con \<and> con_font con' = con_font con"

definition fb_kept :: "info \<Rightarrow> framebuffer \<Rightarrow> framebuffer \<Rightarrow> bool" where
  "fb_kept i fb fb' \<longleftrightarrow> fb_inv i fb' \<and> (dirty_sound i fb \<longrightarrow> dirty_sound i fb')"

definition refines_grid :: "(tty \<Rightarrow> tty outcome) \<Rightarrow> (console \<Rightarrow> console) \<Rightarrow> bool" where
  "refines_grid f g \<longleftrightarrow> (\<forall>i con fb. grid_ok con \<longrightarrow> fb_inv i fb \<longrightarrow>
     grid_ok (g con) \<and> same_grid con (g con) \<and> (\<exists>fb'. f (con, fb) = Done (g con, fb') \<and> fb_kept i fb fb'))"

lemma refinesI:
  assumes "\<And>i con fb. grid_ok con \<Longrightarrow> fb_inv i fb \<Longrightarrow> grid_ok (g con) \<and> same_grid con (g con) \<and>
    (\<exists>fb'. f (con, fb) = Done (g con, fb') \<and> fb_kept i fb fb')"
  shows "refines_grid f g"
  using assms by (simp add: refines_grid_def)

lemma refinesD:
  assumes "refines_grid f g" and "grid_ok con" and "fb_inv i fb"
  obtains fb' where "f (con, fb) = Done (g con, fb')" and "fb_kept i fb fb'"
    and "grid_ok (g con)" and "same_grid con (g con)"
  using assms unfolding refines_grid_def by blast

lemma fb_kept_refl: "fb_inv i fb \<Longrightarrow> fb_kept i fb fb"
  by (simp add: fb_kept_def)

lemma fb_kept_inv: "fb_kept i fb fb' \<Longrightarrow> fb_inv i fb'"
  by (simp add: fb_kept_def)

lemma fb_kept_trans: "fb_kept i a b \<Longrightarrow> fb_kept i b c \<Longrightarrow> fb_kept i a c"
  by (simp add: fb_kept_def)

lemma drawn_kept: "drawn i A p fb fb' \<Longrightarrow> fb_kept i fb fb'"
  using drawn_dirty_sound [of i A p fb fb'] by (simp add: fb_kept_def) (simp add: drawn_def)

lemma same_grid_trans: "same_grid a b \<Longrightarrow> same_grid b c \<Longrightarrow> same_grid a c"
  by (simp add: same_grid_def)

text \<open>An operation that leaves the framebuffer alone.\<close>

lemma refines_pure:
  assumes "\<And>con. grid_ok con \<Longrightarrow> grid_ok (g con) \<and> same_grid con (g con)"
  shows "refines_grid (\<lambda>(con, fb). Done (g con, fb)) g"
  by (rule refinesI) (use assms in \<open>simp add: fb_kept_refl\<close>)

lemma refines_for_each:
  assumes "\<And>x. x \<in> set xs \<Longrightarrow> refines_grid (f x) (g x)"
  shows "refines_grid (for_each xs f) (fold g xs)"
  using assms
proof (induction xs)
  case Nil
  then show ?case by (intro refinesI) (simp add: same_grid_def fb_kept_refl)
next
  case (Cons x xs)
  show ?case
  proof (rule refinesI)
    fix i con fb assume ok: "grid_ok con" "fb_inv i fb"
    have x: "refines_grid (f x) (g x)" and xs: "refines_grid (for_each xs f) (fold g xs)"
      using Cons by simp_all
    obtain fb1 where fb1: "f x (con, fb) = Done (g x con, fb1)" "fb_kept i fb fb1"
      "grid_ok (g x con)" "same_grid con (g x con)" by (rule refinesD [OF x ok])
    obtain fb2 where "for_each xs f (g x con, fb1) = Done (fold g xs (g x con), fb2)" "fb_kept i fb1 fb2"
      "grid_ok (fold g xs (g x con))" "same_grid (g x con) (fold g xs (g x con))"
      by (rule refinesD [OF xs fb1(3) fb_kept_inv [OF fb1(2)]])
    then show "grid_ok (fold g (x # xs) con) \<and> same_grid con (fold g (x # xs) con) \<and>
      (\<exists>fb'. for_each (x # xs) f (con, fb) = Done (fold g (x # xs) con, fb') \<and> fb_kept i fb fb')"
      using fb1 fb_kept_trans same_grid_trans by auto
  qed
qed

section \<open>Each operation\<close>

lemma grid_scrolled_eq:
  assumes "cols \<le> 240" and "0 < rs" and "rs \<le> 67"
    and at: "\<And>r c. c < 240 \<Longrightarrow> cs' (cell_index r c) =
       (if r + 1 < rs \<and> c < cols then cs (cell_index (r + 1) c) else cs (cell_index r c))"
  shows "fill_slice (cell_index (rs - 1) 0) MAX_COLUMNS EMPTY cs' = grid_scrolled rs cols cs"
proof
  fix k :: nat
  have k: "cell_index (k div 240) (k mod 240) = k" by (simp add: cell_index_def)
  have k1: "cell_index (k div 240 + 1) (k mod 240) = k + 240" using k by (simp add: cell_index_def)
  have "cell_index (rs - 1) 0 \<le> k \<and> k < cell_index (rs - 1) 0 + 240 \<longleftrightarrow> k div 240 = rs - 1"
    by (simp add: cell_index_def) linarith
  moreover have "k div 240 = rs - 1 \<longleftrightarrow> k div 240 + 1 = rs" using assms(2) by linarith
  ultimately show "fill_slice (cell_index (rs - 1) 0) MAX_COLUMNS EMPTY cs' k = grid_scrolled rs cols cs k"
    using at [of "k mod 240" "k div 240"] unfolding k k1
    by (simp add: fill_slice_def grid_scrolled_def)
qed

lemma refines_newline: "refines_grid newline grid_newline"
proof (rule refinesI)
  fix i con fb assume con: "grid_ok con" and inv: "fb_inv i fb"
  have ok: "grid_ok (grid_newline con)" "same_grid con (grid_newline con)"
    using con by (auto simp: grid_newline_def grid_ok_def same_grid_def)
  have "\<exists>fb'. newline (con, fb) = Done (grid_newline con, fb') \<and> fb_kept i fb fb'"
  proof (cases "rows con = 0 \<or> cursor_y con + 1 < rows con")
    case True
    then show ?thesis using fb_kept_refl [OF inv] by (auto simp: newline_def grid_newline_def Let_def)
  next
    case False
    obtain fb' where fb': "scroll_up 16 (background con) fb = Done fb'"
      "drawn i (\<lambda>_ _. (0::nat) < 16) (scrolled i 16 (background con) fb) fb fb'"
      using scroll_up_drawn [OF inv] by blast
    have g: "columns con \<le> 240" "rows con \<le> 67" "1 \<le> rows con" using con False by (auto simp: grid_ok_def)
    obtain cs where cs: "for_each [1 ..< rows con] (copy_row_up (columns con)) (cells con) = Done cs"
      and at: "\<forall>r c. c < 240 \<longrightarrow> cs (cell_index r c) =
         (if r + 1 < rows con \<and> c < columns con then cells con (cell_index (r + 1) c) else cells con (cell_index r c))"
      using copy_rows_up [OF g(1,2,3) order_refl, of "cells con"] by blast
    have "fill_slice (cell_index (rows con - 1) 0) MAX_COLUMNS EMPTY cs =
        grid_scrolled (rows con) (columns con) (cells con)"
      by (rule grid_scrolled_eq) (use g at in auto)
    then have "newline (con, fb) = Done (grid_newline con, fb')"
      using False g(3) fb'(1) cs
      by (simp add: newline_def scroll_def clear_row_def grid_newline_def Let_def less_eq_Suc_le [symmetric])
    then show ?thesis using drawn_kept [OF fb'(2)] by blast
  qed
  with ok show "grid_ok (grid_newline con) \<and> same_grid con (grid_newline con) \<and>
      (\<exists>fb'. newline (con, fb) = Done (grid_newline con, fb') \<and> fb_kept i fb fb')" by blast
qed

lemma set_cell_ok: "grid_ok con \<Longrightarrow> grid_ok (set_cell r c v con)"
  by (simp add: grid_ok_def set_cell_def)

lemma set_cell_simps [simp]:
  "columns (set_cell r c v con) = columns con" "rows (set_cell r c v con) = rows con"
  "cursor_x (set_cell r c v con) = cursor_x con" "cursor_y (set_cell r c v con) = cursor_y con"
  "con_font (set_cell r c v con) = con_font con" "foreground (set_cell r c v con) = foreground con"
  "background (set_cell r c v con) = background con" "input (set_cell r c v con) = input con"
  "input_len (set_cell r c v con) = input_len con" "line_ready (set_cell r c v con) = line_ready con"
  by (simp_all add: set_cell_def)

lemma refines_write_cell: "refines_grid (write_cell ch) (grid_write ch)"
proof (rule refinesI)
  fix i con fb assume con: "grid_ok con" and inv: "fb_inv i fb"
  define c1 where "c1 = set_cell (cursor_y con) (cursor_x con)
      \<lparr>character = ch, cell_foreground = foreground con, cell_background = background con\<rparr> con"
  have c1: "grid_ok c1" "same_grid con c1" using set_cell_ok [OF con] by (simp_all add: c1_def same_grid_def)
  show "grid_ok (grid_write ch con) \<and> same_grid con (grid_write ch con) \<and>
      (\<exists>fb'. write_cell ch (con, fb) = Done (grid_write ch con, fb') \<and> fb_kept i fb fb')"
  proof (cases "columns con = 0 \<or> rows con = 0")
    case True
    then show ?thesis using con fb_kept_refl [OF inv] by (auto simp: write_cell_def grid_write_def same_grid_def)
  next
    case False
    then have at: "cursor_y con < rows con" "cursor_x con < columns con" using con by (auto simp: grid_ok_def)
    have at1: "cursor_y con < rows c1" "cursor_x con < columns c1" using at by (simp_all add: c1_def)
    obtain fb1 where fb1: "render_cell (cursor_y con) (cursor_x con) c1 fb = Done fb1" "fb_kept i fb fb1"
      using render_cell_drawn [OF c1(1) inv at1] drawn_kept by blast
    obtain fb2 where fb2: "newline (c1, fb1) = Done (grid_newline c1, fb2)" "fb_kept i fb1 fb2"
      "grid_ok (grid_newline c1)" "same_grid c1 (grid_newline c1)"
      by (rule refinesD [OF refines_newline c1(1) fb_kept_inv [OF fb1(2)]])
    have g: "grid_write ch con = (if columns con \<le> cursor_x con + 1 then grid_newline c1
        else c1\<lparr>cursor_x := cursor_x con + 1\<rparr>)"
      using False by (simp add: grid_write_def Let_def c1_def)
    have eq: "newline (c1\<lparr>cursor_x := n\<rparr>, fb1) = newline (c1, fb1)" for n by (simp add: newline_def)
    have w: "write_cell ch (con, fb) = (if columns con \<le> cursor_x con + 1 then newline (c1, fb1)
        else Done (c1\<lparr>cursor_x := cursor_x con + 1\<rparr>, fb1))"
      using False at fb1(1) by (simp add: write_cell_def Let_def c1_def [symmetric] eq) (simp add: c1_def)
    show ?thesis
    proof (cases "columns con \<le> cursor_x con + 1")
      case True
      then show ?thesis
        using g w fb2 same_grid_trans [OF c1(2)] fb_kept_trans [OF fb1(2)] by auto
    next
      case F2: False
      then have "grid_ok (c1\<lparr>cursor_x := cursor_x con + 1\<rparr>)"
        using c1(1) by (auto simp: grid_ok_def c1_def)
      then show ?thesis using F2 g w fb1(2) c1(2) by (simp add: same_grid_def)
    qed
  qed
qed

lemma refines_backspace: "refines_grid backspace grid_back"
proof (rule refinesI)
  fix i con fb assume con: "grid_ok con" and inv: "fb_inv i fb"
  show "grid_ok (grid_back con) \<and> same_grid con (grid_back con) \<and>
      (\<exists>fb'. backspace (con, fb) = Done (grid_back con, fb') \<and> fb_kept i fb fb')"
  proof (cases "cursor_x con = 0 \<and> cursor_y con = 0")
    case True
    then show ?thesis using con fb_kept_refl [OF inv] by (simp add: backspace_def grid_back_def same_grid_def)
  next
    case False
    define c1 where "c1 = (if cursor_x con = 0
      then con\<lparr>cursor_y := cursor_y con - 1, cursor_x := columns con - 1\<rparr>
      else con\<lparr>cursor_x := cursor_x con - 1\<rparr>)"
    let ?c2 = "set_cell (cursor_y c1) (cursor_x c1) EMPTY c1"
    have c1: "grid_ok c1" using con False by (auto simp: c1_def grid_ok_def max_def split: if_splits)
    have same: "same_grid con ?c2" by (simp add: c1_def same_grid_def)
    have run: "backspace (con, fb) = andthen (render_cell (cursor_y c1) (cursor_x c1) ?c2 fb) (\<lambda>fb'. Done (?c2, fb'))"
      using False unfolding backspace_def Let_def prod.case c1_def [symmetric] set_cell_simps
      by (simp only: if_False)
    have g: "grid_back con = ?c2" using False unfolding grid_back_def Let_def c1_def [symmetric] by (simp only: if_False)
    have "\<exists>fb'. render_cell (cursor_y c1) (cursor_x c1) ?c2 fb = Done fb' \<and> fb_kept i fb fb'"
    proof (cases "cursor_y c1 < rows ?c2 \<and> cursor_x c1 < columns ?c2")
      case True
      then show ?thesis using render_cell_drawn [OF set_cell_ok [OF c1] inv] drawn_kept by blast
    next
      case F2: False
      then show ?thesis using fb_kept_refl [OF inv] by (auto simp: render_cell_def)
    qed
    then show ?thesis using run g set_cell_ok [OF c1] same by auto
  qed
qed

lemma refines_put_char: "refines_grid (put_char ch) (grid_put ch)"
proof (rule refinesI)
  fix i con fb assume con: "grid_ok con" and inv: "fb_inv i fb"
  have cr: "grid_ok (con\<lparr>cursor_x := 0\<rparr>)" using con by (simp add: grid_ok_def)
  have tab: "grid_ok (con\<lparr>cursor_x := n\<rparr>)" if "\<not> columns con \<le> n" for n
    using con that by (simp add: grid_ok_def)
  obtain f1 f2 f3 where
    "newline (con, fb) = Done (grid_newline con, f1)" "fb_kept i fb f1" "grid_ok (grid_newline con)"
    "same_grid con (grid_newline con)"
    "backspace (con, fb) = Done (grid_back con, f2)" "fb_kept i fb f2" "grid_ok (grid_back con)"
    "same_grid con (grid_back con)"
    "write_cell ch (con, fb) = Done (grid_write ch con, f3)" "fb_kept i fb f3" "grid_ok (grid_write ch con)"
    "same_grid con (grid_write ch con)"
    by (metis con inv refinesD refines_newline refines_backspace refines_write_cell)
  then show "grid_ok (grid_put ch con) \<and> same_grid con (grid_put ch con) \<and>
      (\<exists>fb'. put_char ch (con, fb) = Done (grid_put ch con, fb') \<and> fb_kept i fb fb')"
    using con cr tab fb_kept_refl [OF inv]
    by (simp add: put_char_def grid_put_def Let_def same_grid_def)
qed

lemma refines_write_str: "refines_grid (write_str str) (fold grid_put str)"
  using refines_for_each [of str put_char grid_put] refines_put_char
  by (simp add: refines_grid_def write_str_def)

lemma refines_clear: "refines_grid clear_console grid_clear"
proof (rule refinesI)
  fix i con fb assume con: "grid_ok con" and inv: "fb_inv i fb"
  obtain fb' where fb': "clear (background con) fb = Done fb'"
    "drawn i (\<lambda>_ _. True) (\<lambda>_ _. pixel_of i (background con)) fb fb'" using clear_drawn [OF inv] by blast
  moreover have "grid_ok (grid_clear con)" using con by (auto simp: grid_ok_def grid_clear_def)
  ultimately show "grid_ok (grid_clear con) \<and> same_grid con (grid_clear con) \<and>
      (\<exists>fb'. clear_console (con, fb) = Done (grid_clear con, fb') \<and> fb_kept i fb fb')"
    using drawn_kept [OF fb'(2)] by (simp add: clear_console_def grid_clear_def same_grid_def)
qed

lemma refines_receive_key: "refines_grid (receive_key key) (grid_key key)"
proof (rule refinesI)
  fix i con fb assume con: "grid_ok con" and inv: "fb_inv i fb"
  obtain f1 where nl: "put_char (CHR 0x0A) (con, fb) = Done (grid_put (CHR 0x0A) con, f1)" "fb_kept i fb f1"
    "grid_ok (grid_put (CHR 0x0A) con)" "same_grid con (grid_put (CHR 0x0A) con)"
    by (rule refinesD [OF refines_put_char con inv])
  let ?del = "con\<lparr>input_len := input_len con - 1\<rparr>"
  have "grid_ok ?del" using con by (auto simp: grid_ok_def)
  then obtain f2 where del: "put_char (CHR 0x08) (?del, fb) = Done (grid_put (CHR 0x08) ?del, f2)" "fb_kept i fb f2"
    "grid_ok (grid_put (CHR 0x08) ?del)" "same_grid ?del (grid_put (CHR 0x08) ?del)"
    by (rule refinesD [OF refines_put_char _ inv])
  let ?add = "con\<lparr>input := (input con)[input_len con := char_of key], input_len := input_len con + 1\<rparr>"
  have add: "(\<exists>f3. put_char (char_of key) (?add, fb) = Done (grid_put (char_of key) ?add, f3) \<and> fb_kept i fb f3) \<and>
      grid_ok (grid_put (char_of key) ?add) \<and> same_grid con (grid_put (char_of key) ?add)"
    if "input_len con < INPUT_SIZE"
  proof -
    have "grid_ok ?add" using con that by (auto simp: grid_ok_def)
    then obtain f3 where "put_char (char_of key) (?add, fb) = Done (grid_put (char_of key) ?add, f3)"
      "fb_kept i fb f3" "grid_ok (grid_put (char_of key) ?add)" "same_grid ?add (grid_put (char_of key) ?add)"
      by (rule refinesD [OF refines_put_char _ inv])
    then show ?thesis by (auto simp: same_grid_def)
  qed
  have st: "store (input con) (input_len con) (char_of key) = Done ((input con)[input_len con := char_of key])"
    if "input_len con < INPUT_SIZE" using con that by (simp add: grid_ok_def)
  consider "key = 10 \<or> key = 13" | "key = 8 \<or> key = 127" "0 < input_len con \<and> 2 < cursor_x con"
    | "32 \<le> key" "key < 127" "input_len con < 256"
    | "\<not> (key = 10 \<or> key = 13)"
      "(key = 8 \<or> key = 127) \<and> \<not> (0 < input_len con \<and> 2 < cursor_x con) \<or>
       \<not> (key = 8 \<or> key = 127) \<and> \<not> (32 \<le> key \<and> key < 127 \<and> input_len con < 256)"
    by linarith
  then show "grid_ok (grid_key key con) \<and> same_grid con (grid_key key con) \<and>
      (\<exists>fb'. receive_key key (con, fb) = Done (grid_key key con, fb') \<and> fb_kept i fb fb')"
  proof cases
    case 1
    then show ?thesis using nl by (auto simp: receive_key_def grid_key_def grid_ok_def same_grid_def)
  next
    case 2
    then show ?thesis using del by (auto simp: receive_key_def grid_key_def same_grid_def)
  next
    case 3
    then show ?thesis using add st by (simp add: receive_key_def grid_key_def)
  next
    case 4
    then have "receive_key key (con, fb) = Done (con, fb)" "grid_key key con = con"
      by (auto simp: receive_key_def grid_key_def)
    then show ?thesis using con fb_kept_refl [OF inv] by (simp add: same_grid_def)
  qed
qed

end
