(* ===== verification/Console_Safe.thy ===== *)
theory Console_Safe
  imports Terminal Grid Console_Props
begin

text \<open>
  The console on any background colour. \<open>Console_Correct\<close> relates the screen to the cells as long
  as the background is the default one; here is what holds without that condition: every operation
  returns and keeps the bounds of the console, the framebuffer and the dirty rectangle.
\<close>

text \<open>With \<open>d\<close> the dirty rectangle is required to cover what the screen does not show yet; the kernel's
  framebuffer tests, which reset it by hand, leave only the other bounds.\<close>

definition safe_tty :: "bool \<Rightarrow> info \<Rightarrow> tty \<Rightarrow> bool" where
  "safe_tty d i t \<longleftrightarrow> con_inv i (fst t) \<and> fb_inv i (snd t) \<and> (d \<longrightarrow> dirty_sound i (snd t))"

definition stays :: "info \<Rightarrow> (tty \<Rightarrow> tty outcome) \<Rightarrow> bool" where
  "stays i f \<longleftrightarrow> (\<forall>d t. safe_tty d i t \<longrightarrow> (\<exists>t'. f t = Done t' \<and> safe_tty d i t'))"

lemma staysD: "stays i f \<Longrightarrow> safe_tty d i t \<Longrightarrow> \<exists>t'. f t = Done t' \<and> safe_tty d i t'"
  unfolding stays_def by blast

text \<open>What refines an operation on the grid, whatever the framebuffer, stays within bounds.\<close>

lemma same_grid_con_inv: "con_inv i con \<Longrightarrow> same_grid con con' \<Longrightarrow> grid_ok con' \<Longrightarrow> con_inv i con'"
  by (simp add: con_inv_def same_grid_def grid_ok_def)

lemma stays_refines:
  assumes "refines_grid f g"
  shows "stays i f"
  unfolding stays_def
proof (intro allI impI)
  fix d t assume s: "safe_tty d i t"
  then have t: "con_inv i (fst t)" "fb_inv i (snd t)" by (simp_all add: safe_tty_def)
  obtain fb' where "f (fst t, snd t) = Done (g (fst t), fb')" "fb_kept i (snd t) fb'"
    "grid_ok (g (fst t))" "same_grid (fst t) (g (fst t))"
    by (rule refinesD [OF assms con_inv_grid_ok [OF t(1) fb_inv_ok [OF t(2)]] t(2)])
  then show "\<exists>t'. f t = Done t' \<and> safe_tty d i t'"
    using s t same_grid_con_inv by (auto simp: safe_tty_def fb_kept_def)
qed

lemmas stays_put_char = stays_refines [OF refines_put_char]

lemmas stays_write_str = stays_refines [OF refines_write_str]

lemmas stays_clear = stays_refines [OF refines_clear]

lemmas stays_receive_key = stays_refines [OF refines_receive_key]

lemma stays_console:
  assumes "\<And>con. con_inv i con \<Longrightarrow> con_inv i (g con)"
  shows "stays i (\<lambda>(con, fb). Done (g con, fb))"
  using assms by (auto simp: stays_def safe_tty_def)

section \<open>The terminal\<close>

definition ui_bounded :: "bool \<Rightarrow> info \<Rightarrow> ui \<Rightarrow> bool" where
  "ui_bounded d i u \<longleftrightarrow> (\<exists>con. ui_console u = Some con \<and> safe_tty d i (con, ui_fb u))"

abbreviation ui_safe :: "info \<Rightarrow> ui \<Rightarrow> bool" where
  "ui_safe \<equiv> ui_bounded True"

lemma ui_ok_safe: "ui_ok i u \<Longrightarrow> ui_safe i u"
  by (auto simp: ui_ok_def ui_bounded_def safe_tty_def synced_def all_shown_sound)

definition ui_stays :: "info \<Rightarrow> (ui \<Rightarrow> ui outcome) \<Rightarrow> bool" where
  "ui_stays i f \<longleftrightarrow> (\<forall>d u. ui_bounded d i u \<longrightarrow> (\<exists>u'. f u = Done u' \<and> ui_bounded d i u' \<and>
     serial_mirror u' = serial_mirror u \<and> serial_out u' = serial_out u))"

lemma ui_staysD: "ui_stays i f \<Longrightarrow> ui_bounded d i u \<Longrightarrow> \<exists>u'. f u = Done u' \<and> ui_bounded d i u' \<and>
     serial_mirror u' = serial_mirror u \<and> serial_out u' = serial_out u"
  by (simp add: ui_stays_def)

lemma ui_stays_with_console:
  assumes "stays i f"
  shows "ui_stays i (with_console f)"
  unfolding ui_stays_def
proof (intro allI impI)
  fix d u assume "ui_bounded d i u"
  then obtain con where con: "ui_console u = Some con" "safe_tty d i (con, ui_fb u)" by (auto simp: ui_bounded_def)
  obtain con' fb' where "f (con, ui_fb u) = Done (con', fb')" "safe_tty d i (con', fb')"
    using staysD [OF assms con(2)] by auto
  then show "\<exists>u'. with_console f u = Done u' \<and> ui_bounded d i u' \<and>
     serial_mirror u' = serial_mirror u \<and> serial_out u' = serial_out u"
    using con(1) by (auto simp: with_console_def ui_bounded_def)
qed

lemma ui_stays_present: "ui_stays i present_ui"
  unfolding ui_stays_def
proof (intro allI impI)
  fix d u assume "ui_bounded d i u"
  then obtain con where con: "ui_console u = Some con" "con_inv i con" "fb_inv i (ui_fb u)"
      "d \<longrightarrow> dirty_sound i (ui_fb u)" by (auto simp: ui_bounded_def safe_tty_def)
  have "shows_picture i (pixel_at i (ui_fb u)) (ui_fb u)" by (simp add: shows_picture_def)
  then obtain fb' where "present (ui_fb u) = Done fb'" "fb_inv i fb'" "d \<longrightarrow> dirty_sound i fb'"
    using present_paints [OF con(3)] con(4) unfolding paints_def by blast
  then show "\<exists>u'. present_ui u = Done u' \<and> ui_bounded d i u' \<and>
     serial_mirror u' = serial_mirror u \<and> serial_out u' = serial_out u"
    using con(1,2) by (auto simp: present_ui_def ui_bounded_def safe_tty_def)
qed

lemma ui_stays_andthen:
  assumes "ui_stays i f" and "ui_stays i g"
  shows "ui_stays i (\<lambda>u. andthen (f u) g)"
  unfolding ui_stays_def
proof (intro allI impI)
  fix d u assume "ui_bounded d i u"
  then obtain u1 where u1: "f u = Done u1" "ui_bounded d i u1" "serial_mirror u1 = serial_mirror u"
    "serial_out u1 = serial_out u" using ui_staysD [OF assms(1)] by blast
  then show "\<exists>u'. andthen (f u) g = Done u' \<and> ui_bounded d i u' \<and>
     serial_mirror u' = serial_mirror u \<and> serial_out u' = serial_out u"
    using ui_staysD [OF assms(2) u1(2)] by auto
qed

lemma ui_stays_write_fmt: "ui_stays i (write_fmt str)"
  using ui_stays_andthen [OF ui_stays_with_console [OF stays_write_str] ui_stays_present]
  by (simp add: write_fmt_def [abs_def])

lemma ui_stays_set_foreground: "ui_stays i (with_console (\<lambda>(con, fb). Done (con\<lparr>foreground := c\<rparr>, fb)))"
  by (rule ui_stays_with_console, rule stays_console) (auto simp: con_inv_def)

lemma ui_stays_write_fmt_color: "ui_stays i (write_fmt_color c str)"
  unfolding ui_stays_def
proof (intro allI impI)
  fix d u assume s: "ui_bounded d i u"
  then obtain con where con: "ui_console u = Some con" by (auto simp: ui_bounded_def)
  have "ui_stays i (\<lambda>u. andthen (with_console (\<lambda>(con, fb). Done (con\<lparr>foreground := c\<rparr>, fb)) u)
     (\<lambda>u. andthen (write_fmt str u)
     (\<lambda>u. andthen (with_console (\<lambda>(con', fb). Done (con'\<lparr>foreground := foreground con\<rparr>, fb)) u) present_ui)))"
    by (intro ui_stays_andthen ui_stays_set_foreground ui_stays_write_fmt ui_stays_present)
  from ui_staysD [OF this s] show "\<exists>u'. write_fmt_color c str u = Done u' \<and> ui_bounded d i u' \<and>
     serial_mirror u' = serial_mirror u \<and> serial_out u' = serial_out u"
    using con by (simp add: write_fmt_color_def)
qed

lemmas ui_stays_clear = ui_stays_andthen [OF ui_stays_with_console [OF stays_clear] ui_stays_present]

lemmas ui_stays_key = ui_stays_andthen [OF ui_stays_with_console [OF stays_receive_key] ui_stays_present]

section \<open>The console as a grid\<close>

text \<open>
  C19. The console implements its grid of cells: on any framebuffer within its bounds, and whatever the
  size and the colours of the console, printing, clearing and a key return, change the cells, the cursor
  and the line buffer exactly as the operations on the grid alone do, keep the size of the grid, and
  leave a framebuffer within its bounds whose dirty rectangle misses nothing if it did not before.
\<close>

theorem console_refines_grid:
  assumes "grid_ok con" and "fb_inv i fb"
  shows "\<forall>(f, g) \<in> {(put_char ch, grid_put ch), (write_str str, fold grid_put str), (clear_console, grid_clear),
      (receive_key key, grid_key key)}.
    grid_ok (g con) \<and> same_grid con (g con) \<and>
    (\<exists>fb'. f (con, fb) = Done (g con, fb') \<and> fb_inv i fb' \<and> (dirty_sound i fb \<longrightarrow> dirty_sound i fb'))"
proof -
  have "grid_ok (g con) \<and> same_grid con (g con) \<and>
    (\<exists>fb'. f (con, fb) = Done (g con, fb') \<and> fb_inv i fb' \<and> (dirty_sound i fb \<longrightarrow> dirty_sound i fb'))"
    if "refines_grid f g" for f g
    using that assms unfolding refines_grid_def fb_kept_def by blast
  then show ?thesis using refines_put_char refines_write_str refines_clear refines_receive_key by blast
qed

theorem console_refines_grid_witness:
  "\<exists>con fb fb'. con_inv (info_of small_screen) con \<and> write_str ''ok'' (con, fb) = Done (fold grid_put ''ok'' con, fb')"
proof -
  obtain u where "ui_ok (info_of small_screen) u" by (rule started_ui)
  then obtain con where con: "con_inv (info_of small_screen) con" "fb_inv (info_of small_screen) (ui_fb u)"
    by (auto dest!: ui_ok_safe simp: ui_bounded_def safe_tty_def)
  from console_refines_grid [OF con_inv_grid_ok [OF con(1) fb_inv_ok [OF con(2)]] con(2), of "CHR ''x''" "''ok''" 8]
  have "\<exists>fb'. write_str ''ok'' (con, ui_fb u) = Done (fold grid_put ''ok'' con, fb')" by blast
  with con(1) show ?thesis by blast
qed

end
