(* ===== verification/Kernel_Print.thy ===== *)
theory Kernel_Print
  imports Machine Console_Props Console_Safe
begin

text \<open>
  What a piece of kernel code prints: \<open>prints J out f\<close> says that \<open>f\<close>, run on a terminal that
  satisfies \<open>J\<close>, returns, keeps \<open>J\<close>, changes nothing but the terminal, and sends exactly \<open>out\<close>
  to the serial port if mirroring is on. The rules compose along the code; the shell's and the
  handlers' properties rest on them. They are proved once, in the locale \<open>terminal\<close>, for every
  condition \<open>J\<close> that the terminal's calls keep, and used for two: \<open>ui_ok i\<close> (the screen shows the
  cells, on the default background) and \<open>ui_bounded d i\<close> (the bounds hold, on any background).
\<close>

definition printed :: "(ui \<Rightarrow> bool) \<Rightarrow> kernel \<Rightarrow> string \<Rightarrow> kernel \<Rightarrow> bool" where
  "printed J k out k' \<longleftrightarrow> J (k_ui k') \<and> k' = k\<lparr>k_ui := k_ui k'\<rparr> \<and>
     serial_mirror (k_ui k') = serial_mirror (k_ui k) \<and>
     serial_out (k_ui k') = serial_out (k_ui k) @ (if serial_mirror (k_ui k) then out else [])"

definition prints :: "(ui \<Rightarrow> bool) \<Rightarrow> string \<Rightarrow> (kernel \<Rightarrow> run) \<Rightarrow> bool" where
  "prints J out f \<longleftrightarrow> (\<forall>k. J (k_ui k) \<longrightarrow> returns_in (printed J k out) (f k))"

lemma printsD: "prints J out f \<Longrightarrow> J (k_ui k) \<Longrightarrow> returns_in (printed J k out) (f k)"
  by (simp add: prints_def)

lemma printed_refl: "J (k_ui k) \<Longrightarrow> printed J k [] k"
  by (simp add: printed_def)

lemma printed_trans:
  assumes "printed J k a k'" and "printed J k' b k''"
  shows "printed J k (a @ b) k''"
proof -
  have "k'' = k'\<lparr>k_ui := k_ui k''\<rparr>" "k' = k\<lparr>k_ui := k_ui k'\<rparr>"
    using assms by (simp_all add: printed_def)
  then have "k'' = k\<lparr>k_ui := k_ui k''\<rparr>" by (metis kernel.update_convs(1) kernel.surjective)
  with assms show ?thesis by (simp add: printed_def)
qed

lemma prints_nothing: "prints J [] (\<lambda>k. Done (Returns k))"
  by (simp add: prints_def returns_in_def printed_refl)

lemma prints_followed:
  assumes "prints J a f" and "prints J b g"
  shows "prints J (a @ b) (\<lambda>k. followed_by (f k) g)"
  unfolding prints_def
proof (intro allI impI)
  fix k :: kernel assume ok: "J (k_ui k)"
  obtain k1 where k1: "f k = Done (Returns k1)" "printed J k a k1"
    using printsD [OF assms(1) ok] by (auto simp: returns_in_def)
  then obtain k2 where "g k1 = Done (Returns k2)" "printed J k1 b k2"
    using printsD [OF assms(2), of k1] by (auto simp: returns_in_def printed_def)
  with k1 show "returns_in (printed J k (a @ b)) (followed_by (f k) g)"
    using printed_trans by (auto simp: returns_in_def)
qed

lemma prints_all_of_Nil: "prints J [] (all_of [])"
  by (simp add: prints_nothing)

lemma prints_all_of_Cons:
  "prints J a f \<Longrightarrow> prints J b (all_of fs) \<Longrightarrow> prints J (a @ b) (all_of (f # fs))"
  using prints_followed [of J a f b "all_of fs"] by (simp add: prints_def)

lemma prints_all_of_map:
  assumes "\<And>x. x \<in> set xs \<Longrightarrow> prints J (txt x) (f x)"
  shows "prints J (concat (map txt xs)) (all_of (map f xs))"
  using assms by (induction xs) (auto intro: prints_nothing prints_all_of_Cons)

text \<open>Lines, each with its newline.\<close>

definition lines :: "string list \<Rightarrow> string" where
  "lines ls = concat (map (\<lambda>l. l @ [CHR 0x0A]) ls)"

lemma lines_simps [simp]: "lines [] = []" "lines (l # ls) = (l @ [CHR 0x0A]) @ lines ls"
  by (simp_all add: lines_def)

lemma prints_out: "prints J out f \<Longrightarrow> out = out' \<Longrightarrow> prints J out' f"
  by simp

lemma prints_cong: "prints J out f \<Longrightarrow> (\<And>k. f k = g k) \<Longrightarrow> out = out' \<Longrightarrow> prints J out' g"
  by (simp add: prints_def)

section \<open>The serial log\<close>

lemma fold_serial_println:
  "fold serial_println ls u = u\<lparr>serial_out := serial_out u @ lines ls\<rparr>"
  by (induction ls arbitrary: u) (simp_all add: serial_println_def serial_write_fmt_def)

lemma serial_lines_eq:
  "serial_lines ls k = k\<lparr>k_ui := (k_ui k)\<lparr>serial_out := serial_out (k_ui k) @ lines ls\<rparr>\<rparr>"
  by (simp add: serial_lines_def fold_serial_println)

text \<open>The contract of the terminal's calls for a condition they keep.\<close>

locale terminal =
  fixes J :: "ui \<Rightarrow> bool"
  assumes exec: "J u \<Longrightarrow> \<exists>u'. ui_exec call u = Done u' \<and> J u' \<and>
      (serial_mirror u', serial_out u') = spec_serial call (serial_mirror u, serial_out u)"
    and serial: "J (u\<lparr>serial_out := s\<rparr>) = J u"
begin

lemma prints_ui_call:
  assumes "spec_serial call = (\<lambda>m. (fst m, snd m @ (if fst m then out else [])))"
  shows "prints J out (with_ui (ui_exec call))"
  unfolding prints_def
proof (intro allI impI)
  fix k :: kernel assume "J (k_ui k)"
  then obtain u where "ui_exec call (k_ui k) = Done u" "J u"
    "(serial_mirror u, serial_out u) = spec_serial call (serial_mirror (k_ui k), serial_out (k_ui k))"
    using exec by blast
  then show "returns_in (printed J k out) (with_ui (ui_exec call) k)"
    using assms by (simp add: with_ui_def returns_in_def printed_def)
qed

lemma prints_say: "prints J (str @ [CHR 0x0A]) (say str)"
  using prints_ui_call [of "Println str" "str @ [CHR 0x0A]"]
  by (simp add: say_def fun_eq_iff prints_def with_ui_def)

lemma prints_line: "prints J (lines [str]) (say str)"
  by (rule prints_out, rule prints_say) simp

lemma prints_say_color: "prints J (str @ [CHR 0x0A]) (say_color c str)"
  using prints_ui_call [of "PrintlnColor c str" "str @ [CHR 0x0A]"]
  by (simp add: say_color_def fun_eq_iff prints_def with_ui_def)

lemma prints_say_part: "prints J str (say_part str)"
  using prints_ui_call [of "Print str" str]
  by (simp add: say_part_def fun_eq_iff prints_def with_ui_def)

lemmas rules = prints_all_of_Nil prints_all_of_Cons prints_say prints_say_color prints_say_part prints_nothing

lemma prints_says: "prints J (lines ls) (all_of (map say ls))"
  unfolding lines_def by (rule prints_all_of_map) (rule prints_say)

lemma serial_lines_keep: "J (k_ui (serial_lines ls k)) = J (k_ui k)"
  by (simp add: serial_lines_eq serial)

end

interpretation screen: terminal "ui_ok i" for i
  by unfold_locales (rule ui_exec_ok, assumption, simp add: ui_ok_def)

lemma ui_exec_safe:
  assumes "ui_bounded d i u"
  shows "\<exists>u'. ui_exec call u = Done u' \<and> ui_bounded d i u' \<and>
    (serial_mirror u', serial_out u') = spec_serial call (serial_mirror u, serial_out u)"
proof -
  have m: "\<exists>u'. andthen (f u) (mirrored str) = Done u' \<and> ui_bounded d i u' \<and>
      (serial_mirror u', serial_out u') = (serial_mirror u, serial_out u @ (if serial_mirror u then str else []))"
    if "ui_stays i f" for f str
    using ui_staysD [OF that assms]
    by (auto simp: mirrored_def serial_mirror_enabled_def serial_write_fmt_def ui_bounded_def)
  show ?thesis
  proof (cases call)
    case (Print str)
    then show ?thesis using m [OF ui_stays_write_fmt, of str str] by (simp add: console_print_def)
  next
    case (Println str)
    then show ?thesis
      using m [OF ui_stays_write_fmt, of "str @ [CHR 0x0A]" "str @ [CHR 0x0A]"]
      by (simp add: console_println_def)
  next
    case (PrintColor c str)
    then show ?thesis
      using m [OF ui_stays_write_fmt_color, of c str str] by (simp add: console_print_color_def)
  next
    case (PrintlnColor c str)
    then show ?thesis
      using m [OF ui_stays_write_fmt_color, of c "str @ [CHR 0x0A]" "str @ [CHR 0x0A]"]
      by (simp add: console_println_color_def)
  next
    case ClearScreen
    then show ?thesis using ui_staysD [OF ui_stays_clear assms] by (auto simp: global_clear_def)
  next
    case (Key n)
    then show ?thesis using ui_staysD [OF ui_stays_key assms] by (auto simp: receive_char_def)
  next
    case (SetMirror b)
    then show ?thesis using assms by (auto simp: set_serial_mirror_def ui_bounded_def)
  qed
qed

interpretation safe: terminal "ui_bounded d i" for d i
  by unfold_locales (rule ui_exec_safe, assumption, simp add: ui_bounded_def)

text \<open>A booted kernel for the witnesses.\<close>

definition sample_kernel :: "ui \<Rightarrow> kernel" where
  "sample_kernel u = \<lparr>k_ui = u, k_reset = None, k_fs = tmpfs_new, k_heap = buddy_new (\<lambda>_. 0), k_actions = [],
     kinit_called = False\<rparr>"

lemma started_kernel:
  obtains u where "ui_ok (info_of small_screen) (k_ui (sample_kernel u))" and "serial_out u = []"
    and "serial_mirror u = False"
  by (rule started_ui) (simp add: sample_kernel_def)

end
