(* ===== verification/Interrupts_Props.thy ===== *)
theory Interrupts_Props
  imports Interrupts Kernel_Print
begin

text \<open>
  Properties of the interrupt table and the handlers: what every exception does, and that the
  interrupt lines left open are the ones that are handled.
\<close>

lemmas fatal_handlers = double_fault_handler_def general_protection_fault_handler_def
  invalid_opcode_handler_def page_fault_handler_def divide_error_handler_def invalid_tss_handler_def
  segment_not_present_handler_def stack_segment_fault_handler_def alignment_check_handler_def
  x87_floating_point_handler_def simd_floating_point_handler_def virtualization_handler_def
  device_not_available_handler_def overflow_handler_def bound_range_exceeded_handler_def
  non_maskable_interrupt_handler_def machine_check_handler_def

lemma deliver_run: "deliver g x k = Some (run_exception g x k)"
  by (cases g) (simp_all add: deliver_def idt_def)

definition resumable :: "exception \<Rightarrow> bool" where
  "resumable g \<longleftrightarrow> g = Breakpoint \<or> g = Debug"

definition reports_and_stops :: "exception_info \<Rightarrow> kernel \<Rightarrow> run \<Rightarrow> bool" where
  "reports_and_stops x k r \<longleftrightarrow> (\<exists>ls. ls \<noteq> [] \<and> last ls = stack_frame x \<and>
     r = Done (Diverges (act [DisableInterrupts] (serial_lines ls k))))"

lemma panic_loop_reports:
  "ls \<noteq> [] \<Longrightarrow> last ls = stack_frame x \<Longrightarrow> reports_and_stops x k (panic_loop (serial_lines ls k))"
  by (auto simp: reports_and_stops_def panic_loop_def)

lemma run_exception_fatal: "\<not> resumable g \<Longrightarrow> reports_and_stops x k (run_exception g x k)"
  by (cases g)
    (simp_all only: resumable_def fatal_handlers run_exception.simps panic_loop_reports list.distinct
      last.simps if_False if_True simp_thms exception.distinct)

lemma run_exception_resumes:
  assumes "resumable g" and "ui_ok i (k_ui k)"
  shows "returns_in (\<lambda>k'. ui_ok i (k_ui k') \<and> k' = k\<lparr>k_ui := k_ui k'\<rparr>) (run_exception g x k)"
proof (cases "g = Debug")
  case True
  then show ?thesis
    using assms
    by (simp add: debug_handler_def returns_in_def serial_lines_eq screen.serial)
next
  case False
  then have g: "g = Breakpoint" using assms(1) by (simp add: resumable_def)
  let ?k = "serial_lines [''EXCEPTION: BREAKPOINT'', stack_frame x] k"
  have "prints (ui_ok i) (lines [''EXCEPTION: BREAKPOINT'', stack_frame x])
      (all_of [say_color RED ''EXCEPTION: BREAKPOINT'', say_color RED (stack_frame x)])"
    by (rule prints_out, (rule screen.rules)+) simp
  from printsD [OF this, of ?k] have
    "returns_in (printed (ui_ok i) ?k (lines [''EXCEPTION: BREAKPOINT'', stack_frame x])) (breakpoint_handler (stack_frame x) k)"
    using assms(2) by (simp only: screen.serial_lines_keep breakpoint_handler_def)
  then show ?thesis
    unfolding g run_exception.simps
    by (rule returns_in_mono) (auto simp: printed_def serial_lines_eq)
qed



section \<open>Interrupt lines\<close>

text \<open>The line \<open>j\<close> of a controller is open when its bit of the mask is clear.\<close>

definition line_open :: "nat \<Rightarrow> nat \<Rightarrow> bool" where
  "line_open mk j \<longleftrightarrow> \<not> bit mk j"

definition irq_handler :: "nat \<Rightarrow> handler option" where
  "irq_handler v = map_option fst (map_of idt (Vector v))"

text \<open>
  The interrupt lines \<open>pic::init\<close> leaves open are exactly the ones the table handles: with the
  first controller remapped to vectors 32 to 39 and the second to 40 to 47, a line reaches the
  processor if and only if its vector has a gate, these gates are above the processor's own
  exceptions, and the timer's handler acknowledges its own vector, once.
\<close>

theorem open_lines_handled:
  assumes "k_actions (pic_init k) = k_actions k @ [PicInitialize o1 o2, PicWriteMasks m1 m2]"
    and "j < 8"
  shows "(line_open m1 j \<longleftrightarrow> irq_handler (o1 + j) \<noteq> None) \<and>
    (line_open m2 j \<longleftrightarrow> irq_handler (o2 + j) \<noteq> None) \<and>
    32 \<le> o1 + j \<and> o1 + 8 \<le> o2 \<and>
    (irq_handler (o1 + j) = Some TimerHandler \<longrightarrow>
       timer_interrupt_handler k = Done (Returns (act [PicEndOfInterrupt (o1 + j)] k)))"
proof -
  have m: "o1 = 32" "o2 = 40" "m1 = 252" "m2 = 255"
    using assms(1) by (simp_all add: pic_init_def act_def)
  have j: "j \<in> {0, 1, 2, 3, 4, 5, 6, 7}" using assms(2) by auto
  show ?thesis
    using j unfolding m
    by (elim insertE emptyE)
      (simp_all add: line_open_def irq_handler_def idt_def bit_iff_odd timer_interrupt_handler_def
        end_of_interrupt_def)
qed

theorem open_lines_handled_witness:
  "line_open 252 1 \<and> irq_handler 33 = Some KeyboardHandler \<and> irq_handler 34 = None"
  using open_lines_handled [of "sample_kernel (ui_static (fb_static (\<lambda>_. 7)))" 32 40 252 255 1]
    open_lines_handled [of "sample_kernel (ui_static (fb_static (\<lambda>_. 7)))" 32 40 252 255 2]
  by (simp add: pic_init_def act_def irq_handler_def idt_def line_open_def bit_iff_odd)

end
