(* ===== verification/Shell.thy ===== *)
theory Shell
  imports Interrupts Tmpfs Kernel_Heap
begin

text \<open>
  The shell of \<open>src/shell.rs\<close>: \<open>execute\<close> splits a line at white space and dispatches on its first
  word; every command is a definition of its own over the words that follow. The commands act on the
  kernel's state: the console, the file system, the global allocator, the saved reset information,
  and the hardware. The memory the kernel's own collections take from the heap (path strings, the
  listing) is not modelled: \<open>k_heap\<close> changes by \<open>alloc!\<close> and \<open>dealloc!\<close> only.
\<close>

section \<open>Leaving the machine\<close>

text \<open>\<open>test::exit_qemu\<close>\<close>

definition exit_qemu :: "bool \<Rightarrow> kernel \<Rightarrow> run" where
  "exit_qemu success k = Done (Diverges (act [WritePort32 0xF4 (if success then 0x10 else 0x11)] k))"

definition reboot_machine :: "env \<Rightarrow> kernel \<Rightarrow> run" where
  "reboot_machine e k =
     (case acpi_reboot (env_status e) (k_ui k, k_reset k) of
        (actions, u) \<Rightarrow> Done (Diverges (act actions (k\<lparr>k_ui := u\<rparr>))))"

section \<open>Commands\<close>

definition help_lines :: "string list" where
  "help_lines =
     [''Available commands:'',
      ''  help       - Show this help'',
      ''  clear      - Clear the screen'',
      ''  echo       - Print text'',
      ''  info       - Show system information'',
      ''  panic      - Intentionally throws a kernel panic'',
      ''  bp         - Sets and steps over a breakpoint'',
      ''  reboot     - Reboots the machine.'',
      ''  shutdown   - Shuts the computer down.'',
      ''  exit       - Shuts the computer down.'',
      ''  setbg      - Sets the background color.'',
      ''  setfg      - Sets the foreground color.'',
      ''  tg-serial  - Toggles priting kTerm output to serial.'',
      ''  alloc!     - Allocate N bytes, prints a pointer'',
      ''  dealloc!   - Free a pointer previously returned by alloc'',
      ''  ls         - List directory contents'',
      ''  mkdir      - Create a directory'',
      ''  touch      - Create an empty file'']"

definition help_cmd :: "kernel \<Rightarrow> run" where
  "help_cmd = all_of (map say help_lines)"

definition quoted :: "string \<Rightarrow> string" where
  "quoted s = CHR 0x27 # s @ [CHR 0x27]"

primrec name_of :: "entry \<Rightarrow> string" where
  "name_of (File name) = name"
| "name_of (Dir name) = name"

primrec say_entry :: "entry \<Rightarrow> kernel \<Rightarrow> run" where
  "say_entry (Dir name) = say_color BLUE (name @ ''/'')"
| "say_entry (File name) = say name"

definition ls_cmd :: "string list \<Rightarrow> kernel \<Rightarrow> run" where
  "ls_cmd args k =
     (let path = (case args of [] \<Rightarrow> ''/'' | p # _ \<Rightarrow> p)
      in case list_entries (k_fs k) path of
           Inr entries \<Rightarrow>
             if entries = [] then Done (Returns k)
             else all_of (map say_entry (sort_key name_of entries)) k
         | Inl _ \<Rightarrow> say (''ls: cannot access '' @ quoted path @ '': No such directory'') k)"

definition mkdir_cmd :: "string list \<Rightarrow> kernel \<Rightarrow> run" where
  "mkdir_cmd args k =
     (case args of
        [] \<Rightarrow> say ''Usage: mkdir <path>'' k
      | path # _ \<Rightarrow>
          (case mkdir path (k_fs k) of
             (Inr _, fs) \<Rightarrow> Done (Returns (k\<lparr>k_fs := fs\<rparr>))
           | (Inl _, fs) \<Rightarrow>
               say (''mkdir: cannot create directory '' @ quoted path @ '': already exists or parent missing'')
                 (k\<lparr>k_fs := fs\<rparr>)))"

definition touch_cmd :: "string list \<Rightarrow> kernel \<Rightarrow> run" where
  "touch_cmd args k =
     (case args of
        [] \<Rightarrow> say ''Usage: touch <path>'' k
      | path # _ \<Rightarrow>
          (case touch path (k_fs k) of
             (Inr _, fs) \<Rightarrow> Done (Returns (k\<lparr>k_fs := fs\<rparr>))
           | (Inl _, fs) \<Rightarrow>
               say (''touch: cannot create '' @ quoted path @ '': is a directory or parent missing'')
                 (k\<lparr>k_fs := fs\<rparr>)))"

definition clearterm :: "kernel \<Rightarrow> run" where
  "clearterm = with_ui global_clear"

primrec echo_args :: "bool \<Rightarrow> string list \<Rightarrow> (kernel \<Rightarrow> run) list" where
  "echo_args first [] = []"
| "echo_args first (arg # args) =
     (if first then [say_part arg] else [say_part '' '', say_part arg]) @ echo_args False args"

definition echo :: "string list \<Rightarrow> kernel \<Rightarrow> run" where
  "echo args = all_of (echo_args True args @ [say []])"

definition toggle_serial :: "kernel \<Rightarrow> run" where
  "toggle_serial k =
     (let state = serial_mirror_enabled (k_ui k)
      in say_color GREEN ''Toggled serial mirroring''
           (k\<lparr>k_ui := set_serial_mirror (\<not> state) (k_ui k)\<rparr>))"

definition info_cmd :: "kernel \<Rightarrow> run" where
  "info_cmd k =
     followed_by (all_of [say ''SillOS'', say ''Architecture: x86_64'', say ''Bootloader: Limine''] k) (\<lambda>k.
       andthen (fb_width (ui_fb (k_ui k))) (\<lambda>w.
       andthen (fb_height (ui_fb (k_ui k))) (\<lambda>h.
         say (''Framebuffer: '' @ dec w @ ''x'' @ dec h) k)))"

definition panic_cmd :: "kernel \<Rightarrow> run" where
  "panic_cmd k = Panic (Explicit ''Intentional debug panic'')"

definition bp :: "env \<Rightarrow> kernel \<Rightarrow> run" where
  "bp e k = breakpoint_handler (env_frame e) k"

definition sven :: "env \<Rightarrow> kernel \<Rightarrow> run" where
  "sven e k =
     followed_by (all_of [say ''This command is dedicated to my friend bunny, sven!'',
         say ''Say bye bye to your pc :)''] k) (reboot_machine e)"

definition reboot_cmd :: "env \<Rightarrow> kernel \<Rightarrow> run" where
  "reboot_cmd e k = reboot_machine e k"

definition shutdown :: "kernel \<Rightarrow> run" where
  "shutdown k =
     followed_by (all_of [say ''There currently is no support for acpi shutdown.'',
         say ''However, qemu will close normally.''] k) (exit_qemu True)"

definition color_cmd :: "(color \<Rightarrow> console \<Rightarrow> console) \<Rightarrow> string \<Rightarrow> string list \<Rightarrow> kernel \<Rightarrow> run" where
  "color_cmd setter usage args k =
     (case args of
        [] \<Rightarrow> all_of [say ''Incorrect usage!'', say usage] k
      | color_name # _ \<Rightarrow>
          (case color_from_name color_name of
             None \<Rightarrow> say (''Unknown color: '' @ color_name) k
           | Some c \<Rightarrow>
               all_of [with_ui (with_console (\<lambda>(con, fb). Done (setter c con, fb))),
                       with_ui (with_console clear_console)] k))"

definition setbg :: "string list \<Rightarrow> kernel \<Rightarrow> run" where
  "setbg = color_cmd set_background ''Usage: setbg <color>''"

definition setfg :: "string list \<Rightarrow> kernel \<Rightarrow> run" where
  "setfg = color_cmd set_foreground ''Usage: setfg <color>''"

definition mem_analyze_cmd :: "env \<Rightarrow> kernel \<Rightarrow> run" where
  "mem_analyze_cmd e = with_ui (mem_analyze (env_kinds e) (env_boot e))"

section \<open>The allocator by hand\<close>

text \<open>The alignment argument: \<open>None\<close> when it is there but no power of two.\<close>

definition align_arg :: "string list \<Rightarrow> nat option" where
  "align_arg args =
     (case args of
        [] \<Rightarrow> Some 8
      | a # _ \<Rightarrow>
          (case parse_usize a of
             Some align \<Rightarrow> if power_of_two align then Some align else None
           | None \<Rightarrow> None))"

definition bad_align :: "string list \<Rightarrow> string" where
  "bad_align args = ''Invalid alignment: '' @ hd args @ '' (must be a power of two)''"

definition alloc_cmd :: "string list \<Rightarrow> kernel \<Rightarrow> run" where
  "alloc_cmd args k =
     (case args of
        [] \<Rightarrow> all_of [say ''Incorrect usage!'', say ''Usage: alloc <size> [align]''] k
      | size_str # rest \<Rightarrow>
          (case parse_usize size_str of
             None \<Rightarrow> say (''Invalid size: '' @ size_str) k
           | Some sz \<Rightarrow>
               if sz = 0 then say ''Size must be greater than 0'' k
               else
                 (case align_arg rest of
                    None \<Rightarrow> say (bad_align rest) k
                  | Some al \<Rightarrow>
                      (case from_size_align sz al of
                         None \<Rightarrow> say (''Invalid layout: size='' @ dec sz @ '' align='' @ dec al) k
                       | Some layout \<Rightarrow>
                           andthen (buddy_alloc layout (k_heap k)) (\<lambda>(ptr, heap).
                             let k1 = k\<lparr>k_heap := heap\<rparr>
                             in if ptr = 0 then say_color RED ''Allocation failed: out of memory'' k1
                                else all_of
                                  [say_color GREEN (''Allocated '' @ dec sz @ '' bytes (align '' @ dec al @
                                     '') at '' @ hex ptr),
                                   say (''To free: dealloc '' @ hex ptr @ '' '' @ dec sz @ '' '' @ dec al)] k1)))))"

definition dealloc_cmd :: "string list \<Rightarrow> kernel \<Rightarrow> run" where
  "dealloc_cmd args k =
     (case args of
        ptr_str # size_str # rest \<Rightarrow>
          (case from_str_radix 16 (trim_start_matches ''0X'' (trim_start_matches ''0x'' ptr_str)) of
             None \<Rightarrow> say (''Invalid pointer: '' @ ptr_str) k
           | Some addr \<Rightarrow>
               (case parse_usize size_str of
                  None \<Rightarrow> say (''Invalid size: '' @ size_str) k
                | Some sz \<Rightarrow>
                    (case align_arg rest of
                       None \<Rightarrow> say (bad_align rest) k
                     | Some al \<Rightarrow>
                         (case from_size_align sz al of
                            None \<Rightarrow> say (''Invalid layout: size='' @ dec sz @ '' align='' @ dec al) k
                          | Some layout \<Rightarrow>
                              if addr = 0 then say ''Cannot deallocate a null pointer'' k
                              else andthen (buddy_dealloc addr layout (k_heap k)) (\<lambda>heap.
                                say_color GREEN (''Deallocated '' @ hex addr) (k\<lparr>k_heap := heap\<rparr>))))))
      | _ \<Rightarrow> all_of [say ''Incorrect usage!'', say ''Usage: dealloc <ptr> <size> [align]''] k)"

section \<open>Dispatch\<close>

definition run_command :: "env \<Rightarrow> string \<Rightarrow> string list \<Rightarrow> kernel \<Rightarrow> run" where
  "run_command e command args =
     (if command = ''help'' then help_cmd
      else if command = ''clear'' then clearterm
      else if command = ''echo'' then echo args
      else if command = ''info'' then info_cmd
      else if command = ''panic'' then panic_cmd
      else if command = ''bp'' then bp e
      else if command = ''sven'' then sven e
      else if command = ''reboot'' then reboot_cmd e
      else if command = ''shutdown'' then shutdown
      else if command = ''exit'' then shutdown
      else if command = ''setbg'' then setbg args
      else if command = ''setfg'' then setfg args
      else if command = ''mem-analyze'' then mem_analyze_cmd e
      else if command = ''tg-serial'' then toggle_serial
      else if command = ''alloc!'' then alloc_cmd args
      else if command = ''dealloc!'' then dealloc_cmd args
      else if command = ''ls'' then ls_cmd args
      else if command = ''mkdir'' then mkdir_cmd args
      else if command = ''touch'' then touch_cmd args
      else all_of [say (''Unknown command: '' @ command),
                   say (''Type '' @ quoted ''help'' @ '' for a list of commands.'')])"

definition execute :: "env \<Rightarrow> string \<Rightarrow> kernel \<Rightarrow> run" where
  "execute e line k =
     (case split_whitespace line of
        [] \<Rightarrow> Done (Returns k)
      | command # args \<Rightarrow> run_command e command args k)"

end
