(* ===== verification/Shell_Props.thy ===== *)
theory Shell_Props
  imports Shell Kernel_Print Kmem_Props "HOL-Library.Multiset"
begin

text \<open>
  Properties of the shell: no sequence of lines makes it panic, except \<open>panic\<close> and wrong uses of
  \<open>dealloc!\<close>; what \<open>alloc!\<close> prints can be handed back to \<open>dealloc!\<close>; the commands the help names are
  the ones there are.
\<close>

section \<open>A well-formed kernel\<close>

definition kernel_ok :: "info \<Rightarrow> kernel \<Rightarrow> bool" where
  "kernel_ok i k \<longleftrightarrow> ui_safe i (k_ui k) \<and> tmpfs_ok (k_fs k) \<and> rooted (k_fs k) \<and>
     (\<exists>L. buddy_live kernel_heap 18 (k_heap k) L)"

lemma kernel_ok_ui: "kernel_ok i k \<Longrightarrow> ui_safe i (k_ui k)"
  by (simp add: kernel_ok_def)

lemma kernel_ok_same:
  assumes "kernel_ok i k" and "ui_safe i (k_ui k')" and "k_fs k' = k_fs k" and "k_heap k' = k_heap k"
  shows "kernel_ok i k'"
  using assms by (simp add: kernel_ok_def)

lemma printed_same: "printed J k out k' \<Longrightarrow> k_fs k' = k_fs k \<and> k_heap k' = k_heap k"
  unfolding printed_def by (metis kernel.select_convs(3,4) kernel.surjective kernel.update_convs(1))

lemma prints_kernel_ok:
  assumes "prints (ui_safe i) out f" and "kernel_ok i k"
  shows "returns_in (kernel_ok i) (f k)"
proof (rule returns_in_mono)
  show "returns_in (printed (ui_safe i) k out) (f k)"
    using assms by (intro printsD kernel_ok_ui)
  show "kernel_ok i k'" if "printed (ui_safe i) k out k'" for k'
    using kernel_ok_same [OF assms(2)] that printed_same [OF that] by (simp add: printed_def)
qed

lemma with_ui_kernel_ok:
  assumes "ui_stays i f" and "kernel_ok i k"
  shows "returns_in (kernel_ok i) (with_ui f k)"
proof -
  obtain u where "f (k_ui k) = Done u" "ui_safe i u"
    using ui_staysD [OF assms(1) kernel_ok_ui [OF assms(2)]] by blast
  then show ?thesis
    using kernel_ok_same [OF assms(2), of "k\<lparr>k_ui := u\<rparr>"] by (simp add: with_ui_def returns_in_def)
qed

lemma kernel_ok_act: "kernel_ok i k \<Longrightarrow> kernel_ok i (act as k)"
  by (simp add: kernel_ok_def act_def)

lemma kernel_ok_serial: "kernel_ok i (serial_lines ls k) = kernel_ok i k"
  using safe.serial_lines_keep [of True i ls k] by (simp add: kernel_ok_def serial_lines_eq)

lemma kernel_ok_fs:
  "kernel_ok i k \<Longrightarrow> tmpfs_ok fs \<Longrightarrow> rooted fs \<Longrightarrow> kernel_ok i (k\<lparr>k_fs := fs\<rparr>)"
  by (simp add: kernel_ok_def)

lemmas says_ok = prints_kernel_ok [OF safe.prints_say] prints_kernel_ok [OF safe.prints_say_color]
  prints_kernel_ok [OF safe.prints_say_part]

section \<open>Each command\<close>

lemma all_says_ok: "kernel_ok i k \<Longrightarrow> returns_in (kernel_ok i) (all_of (map say ls) k)"
  by (rule prints_kernel_ok [OF safe.prints_says])

lemma two_says_ok: "kernel_ok i k \<Longrightarrow> returns_in (kernel_ok i) (all_of [say a, say b] k)"
  using all_says_ok [of i k "[a, b]"] by simp

lemma ls_cmd_ok: "kernel_ok i k \<Longrightarrow> returns_in (kernel_ok i) (ls_cmd args k)"
proof -
  assume k: "kernel_ok i k"
  have "returns_in (kernel_ok i) (say_entry x k)" if "kernel_ok i k" for x k
    using that says_ok by (cases x) simp_all
  then have "returns_in (kernel_ok i) (all_of (map say_entry xs) k)" for xs
    using k by (intro returns_in_all_of) auto
  then show ?thesis using k says_ok(1) by (simp add: ls_cmd_def Let_def returns_in_def split: sum.split)
qed

lemma mkdir_cmd_ok: "kernel_ok i k \<Longrightarrow> returns_in (kernel_ok i) (mkdir_cmd args k)"
proof (cases args)
  case (Cons path rest)
  assume k: "kernel_ok i k"
  obtain r fs where m: "mkdir path (k_fs k) = (r, fs)" by fastforce
  then have "tmpfs_ok fs" "rooted fs"
    using k mkdir_ok [of "k_fs k" path r fs] mkdir_rooted [of "k_fs k" path r fs] by (auto simp: kernel_ok_def)
  then show ?thesis
    using Cons m says_ok(1) kernel_ok_fs [OF k] by (cases r) (auto simp: mkdir_cmd_def returns_in_def)
qed (simp add: mkdir_cmd_def says_ok)

lemma touch_cmd_ok: "kernel_ok i k \<Longrightarrow> returns_in (kernel_ok i) (touch_cmd args k)"
proof (cases args)
  case (Cons path rest)
  assume k: "kernel_ok i k"
  obtain r fs where m: "touch path (k_fs k) = (r, fs)" by fastforce
  then have "tmpfs_ok fs" "rooted fs"
    using k touch_ok [of "k_fs k" path r fs] touch_rooted [of "k_fs k" path r fs] by (auto simp: kernel_ok_def)
  then show ?thesis
    using Cons m says_ok(1) kernel_ok_fs [OF k] by (cases r) (auto simp: touch_cmd_def returns_in_def)
qed (simp add: touch_cmd_def says_ok)

lemma echo_ok: "kernel_ok i k \<Longrightarrow> returns_in (kernel_ok i) (echo args k)"
proof -
  assume k: "kernel_ok i k"
  have "f \<in> set (echo_args first args) \<Longrightarrow> \<exists>str. f = say_part str" for f first
    by (induction args arbitrary: first) (auto split: if_splits)
  then show ?thesis
    unfolding echo_def using k says_ok by (intro returns_in_all_of) fastforce+
qed

lemma info_ok: "kernel_ok i k \<Longrightarrow> returns_in (kernel_ok i) (info_cmd k)"
  unfolding info_cmd_def
proof (rule returns_in_followed)
  show "returns_in (kernel_ok i) (all_of [say ''SillOS'', say ''Architecture: x86_64'', say ''Bootloader: Limine''] k)"
    if "kernel_ok i k" using all_says_ok [OF that, of "[''SillOS'', ''Architecture: x86_64'', ''Bootloader: Limine'']"] by simp
  show "returns_in (kernel_ok i) (andthen (fb_width (ui_fb (k_ui k))) (\<lambda>w.
      andthen (fb_height (ui_fb (k_ui k))) (\<lambda>h. say (''Framebuffer: '' @ dec w @ ''x'' @ dec h) k)))"
    if "kernel_ok i k" for k
  proof -
    have "fb_inv i (ui_fb (k_ui k))" using that by (auto simp: kernel_ok_def ui_bounded_def safe_tty_def)
    then show ?thesis using says_ok(1) [OF that] by (simp add: fb_width_def fb_height_def get_info_inv)
  qed
qed

lemma color_cmd_ok:
  assumes "\<And>c con. con_inv i con \<Longrightarrow> con_inv i (setter c con)" and "kernel_ok i k"
  shows "returns_in (kernel_ok i) (color_cmd setter usage args k)"
proof -
  have s: "ui_stays i (with_console (\<lambda>(con, fb). Done (setter c con, fb)))" for c
    by (rule ui_stays_with_console, rule stays_console) (rule assms(1))
  have "returns_in (kernel_ok i) (all_of [with_ui (with_console (\<lambda>(con, fb). Done (setter c con, fb))),
                       with_ui (with_console clear_console)] k)" for c
    using assms(2) with_ui_kernel_ok [OF s] with_ui_kernel_ok [OF ui_stays_with_console [OF stays_clear]]
    by (intro returns_in_all_of) auto
  then show ?thesis
    using two_says_ok [OF assms(2)] says_ok(1) [OF assms(2)]
    by (auto simp: color_cmd_def split: list.split option.split)
qed

lemma setter_inv: "con_inv i con \<Longrightarrow> con_inv i (set_background c con)"
    "con_inv i con \<Longrightarrow> con_inv i (set_foreground c con)"
  by (auto simp: con_inv_def set_background_def set_foreground_def)

lemma mem_analyze_ok: "kernel_ok i k \<Longrightarrow> returns_in (kernel_ok i) (mem_analyze_cmd e k)"
proof -
  assume k: "kernel_ok i k"
  have "with_ui (for_each ls (console_println_color c)) k = all_of (map (say_color c) ls) k" for ls c k
  proof (induction ls arbitrary: k)
    case (Cons l ls)
    show ?case
      by (cases "console_println_color c l (k_ui k)")
        (simp_all add: say_color_def with_ui_def Cons [unfolded with_ui_def, of "k\<lparr>k_ui := x\<rparr>" for x, simplified])
  qed (simp add: with_ui_def)
  then show ?thesis
    using k says_ok(2) by (auto simp: mem_analyze_cmd_def mem_analyze_def [abs_def] intro!: returns_in_all_of)
qed

lemma alloc_cmd_ok: "kernel_ok i k \<Longrightarrow> returns_in (kernel_ok i) (alloc_cmd args k)"
proof -
  assume k: "kernel_ok i k"
  have heap: "\<exists>p heap. buddy_alloc l (k_heap k) = Done (p, heap) \<and> kernel_ok i (k\<lparr>k_heap := heap\<rparr>)" for l
  proof -
    obtain L where L: "buddy_live kernel_heap 18 (k_heap k) L" using k by (auto simp: kernel_ok_def)
    obtain p heap where "buddy_alloc l (k_heap k) = Done (p, heap)"
      using buddy_heap.alloc_returns [OF L] by blast
    moreover from this have "\<exists>L'. buddy_live kernel_heap 18 heap L'"
      using buddy_heap.alloc_null [OF L] buddy_heap.alloc_block [OF L] by (cases "p = 0") blast+
    ultimately show ?thesis using k by (auto simp: kernel_ok_def)
  qed
  have two: "returns_in (kernel_ok i) (all_of [say_color GREEN a, say b] k)" if "kernel_ok i k" for a b k
    using that says_ok by (intro returns_in_all_of) auto
  show ?thesis
  proof (cases args)
    case (Cons a rest)
    have "returns_in (kernel_ok i) (andthen (buddy_alloc l (k_heap k)) (\<lambda>(ptr, heap).
         let k1 = k\<lparr>k_heap := heap\<rparr>
         in if ptr = 0 then say_color RED ''Allocation failed: out of memory'' k1
            else all_of [say_color GREEN (x ptr), say (y ptr)] k1))" for l x y
      using heap [of l] two says_ok(2) by (auto simp: Let_def)
    then show ?thesis
      using Cons says_ok(1) [OF k] by (simp add: alloc_cmd_def split: option.split)
  qed (simp add: alloc_cmd_def two_says_ok [OF k] del: all_of.simps)
qed

lemma toggle_ok: "kernel_ok i k \<Longrightarrow> returns_in (kernel_ok i) (toggle_serial k)"
proof -
  assume k: "kernel_ok i k"
  have "ui_safe i (set_serial_mirror b (k_ui k))" for b
    using kernel_ok_ui [OF k] by (simp add: ui_bounded_def set_serial_mirror_def)
  then show ?thesis
    using kernel_ok_same [OF k] says_ok(2) by (simp add: toggle_serial_def Let_def)
qed

lemma bp_ok: "kernel_ok i k \<Longrightarrow> returns_in (kernel_ok i) (bp e k)"
  unfolding bp_def breakpoint_handler_def
  by (rule returns_in_all_of) (auto simp: kernel_ok_serial intro: says_ok(2))

lemma and_fallback_out: "snd (and_fallback status as (fold serial_println ls u)) =
    fold serial_println (ls @ [''ACPI: attempting fallback reboot...'']) u"
  by (simp add: and_fallback_def fallback_reboot_def)

lemma acpi_reboot_out: "\<exists>ls. snd (acpi_reboot status (u, r)) = fold serial_println ls u"
proof -
  have log: "snd (and_fallback status as (serial_println b (serial_println a u))) =
      fold serial_println ([a, b] @ [''ACPI: attempting fallback reboot...'']) u" for as a b
    using and_fallback_out [of status as "[a, b]" u] by simp
  show ?thesis
    unfolding acpi_reboot_def Let_def fst_conv snd_conv
    by (cases r) (auto simp only: option.case log split: if_split)
qed

lemma reboot_ends_ok: "kernel_ok i k \<Longrightarrow> ends_in (kernel_ok i) (reboot_machine e k)"
proof -
  assume k: "kernel_ok i k"
  obtain ls where "snd (acpi_reboot (env_status e) (k_ui k, k_reset k)) = fold serial_println ls (k_ui k)"
    using acpi_reboot_out by blast
  then obtain as where "acpi_reboot (env_status e) (k_ui k, k_reset k) = (as, fold serial_println ls (k_ui k))"
    by (metis prod.collapse)
  then have "reboot_machine e k = Done (Diverges (act as (serial_lines ls k)))"
    by (simp add: reboot_machine_def serial_lines_def)
  then show ?thesis using k kernel_ok_act kernel_ok_serial by (simp add: ends_in_def)
qed

lemma sven_ok: "kernel_ok i k \<Longrightarrow> ends_in (kernel_ok i) (sven e k)"
  unfolding sven_def by (intro ends_in_followed returns_ends two_says_ok reboot_ends_ok)

lemma shutdown_ok: "kernel_ok i k \<Longrightarrow> ends_in (kernel_ok i) (shutdown k)"
  unfolding shutdown_def
proof (rule ends_in_followed)
  show "ends_in (kernel_ok i) (exit_qemu True k)" if "kernel_ok i k" for k
    using kernel_ok_act [OF that] by (simp add: exit_qemu_def ends_in_def)
qed (intro returns_ends two_says_ok)

lemmas command_ok = ls_cmd_ok mkdir_cmd_ok touch_cmd_ok echo_ok info_ok mem_analyze_ok alloc_cmd_ok
  toggle_ok bp_ok

lemma if_run: "(c \<Longrightarrow> ends_in P (f k)) \<Longrightarrow> (\<not> c \<Longrightarrow> ends_in P (g k)) \<Longrightarrow> ends_in P ((if c then f else g) k)"
  by simp

lemma run_command_ok:
  assumes "kernel_ok i k" and "command \<noteq> ''panic''" and "command \<noteq> ''dealloc!''"
  shows "ends_in (kernel_ok i) (run_command e command args k)"
proof -
  note k = assms(1)
  note returns = command_ok [THEN returns_ends, OF k]
  have colors: "ends_in (kernel_ok i) (setbg args k)" "ends_in (kernel_ok i) (setfg args k)"
    unfolding setbg_def setfg_def by (intro returns_ends color_cmd_ok k setter_inv; assumption)+
  have clear: "ends_in (kernel_ok i) (clearterm k)"
    using with_ui_kernel_ok [OF ui_stays_clear k] by (simp add: clearterm_def global_clear_def [abs_def] returns_ends)
  have h: "ends_in (kernel_ok i) (help_cmd k)" unfolding help_cmd_def by (intro returns_ends all_says_ok k)
  have r: "ends_in (kernel_ok i) (reboot_cmd e k)" using reboot_ends_ok [OF k] by (simp add: reboot_cmd_def)
  have u: "ends_in (kernel_ok i) (all_of [say a, say b] k)" for a b by (intro returns_ends two_says_ok k)
  show ?thesis
    unfolding run_command_def
    by (intro if_run colors clear h r u sven_ok [OF k] shutdown_ok [OF k] returns)
      (use assms(2,3) in simp_all)
qed

definition command_of :: "string \<Rightarrow> string option" where
  "command_of line = (case split_whitespace line of [] \<Rightarrow> None | w # _ \<Rightarrow> Some w)"

lemma execute_ok:
  assumes "kernel_ok i k" and "command_of line \<noteq> Some ''panic''" and "command_of line \<noteq> Some ''dealloc!''"
  shows "ends_in (kernel_ok i) (execute e line k)"
  using assms run_command_ok [OF assms(1)]
  by (auto simp: execute_def command_of_def ends_in_def split: list.splits)


lemma started_kernel_ok:
  obtains k where "kernel_ok (info_of small_screen) k" and "buddy_live kernel_heap 18 (k_heap k) Map.empty"
    and "k_fs k = tmpfs_new" and "serial_mirror (k_ui k) = False"
proof -
  obtain u where u: "ui_ok (info_of small_screen) u" "serial_mirror u = False" by (rule started_ui)
  obtain heap where heap: "buddy_live kernel_heap 18 heap Map.empty"
    using kernel_heap_init [of "buddy_new (\<lambda>_. 0)"] by blast
  let ?k = "(sample_kernel u)\<lparr>k_heap := heap\<rparr>"
  have "kernel_ok (info_of small_screen) ?k"
    using heap ui_ok_safe [OF u(1)] tmpfs_ok_new rooted_new by (auto simp: kernel_ok_def sample_kernel_def)
  then show thesis using that [of ?k] heap u(2) by (simp add: sample_kernel_def)
qed

definition sample_env :: env where
  "sample_env = \<lparr>env_kinds = sample_kinds,
     env_boot = \<lparr>hhdm_response = None, memmap_response = None, cr3_physical = 8192, cr3_flags = []\<rparr>,
     env_status = (\<lambda>_. 0), env_frame = ''frame''\<rparr>"

lemma sample_words: "split_whitespace ''setbg blue'' = [''setbg'', ''blue'']"
    "split_whitespace ''ls'' = [''ls'']" "split_whitespace ''alloc! 100'' = [''alloc!'', ''100'']"
  by (simp_all add: split_whitespace_def is_whitespace_def)


section \<open>Allocating by hand\<close>

lemma line_words:
  assumes "word w" and "word a" and "word b" and "word c"
  shows "split_whitespace (w @ '' '' @ a @ '' '' @ b) = [w, a, b]"
    and "split_whitespace (w @ '' '' @ a @ '' '' @ b @ '' '' @ c) = [w, a, b, c]"
  using assms by (simp_all add: split_whitespace_Cons split_whitespace_word)

lemma command_words: "word ''alloc!''" "word ''dealloc!''" "word ''dealloc''"
  by (simp_all add: word_def is_whitespace_def)

lemma from_size_align_bounds:
  assumes "from_size_align sz al = Some l" and "0 < sz"
  shows "sz < usize_lim" and "al < usize_lim" and "power_of_two al"
  using assms by (auto simp: from_size_align_def split: if_splits)

lemma execute_alloc:
  assumes "from_size_align sz al = Some l" and "0 < sz"
    and "buddy_alloc l (k_heap k) = Done (p, heap)" and "p \<noteq> 0"
  shows "execute e (''alloc!'' @ '' '' @ dec sz @ '' '' @ dec al) k =
    all_of [say_color GREEN (''Allocated '' @ dec sz @ '' bytes (align '' @ dec al @ '') at '' @ hex p),
      say (''To free: dealloc '' @ hex p @ '' '' @ dec sz @ '' '' @ dec al)] (k\<lparr>k_heap := heap\<rparr>)"
  unfolding execute_def line_words(1) [OF command_words(1) word_dec word_dec word_dec]
  using assms from_size_align_bounds [OF assms(1,2)]
  by (simp add: run_command_def alloc_cmd_def align_arg_def parse_dec Let_def del: all_of.simps)

lemma execute_dealloc:
  assumes "from_size_align sz al = Some l" and "0 < sz" and "p < usize_lim" and "p \<noteq> 0"
  shows "execute e (''dealloc!'' @ '' '' @ hex p @ '' '' @ dec sz @ '' '' @ dec al) k =
    andthen (buddy_dealloc p l (k_heap k)) (\<lambda>heap.
      say_color GREEN (''Deallocated '' @ hex p) (k\<lparr>k_heap := heap\<rparr>))"
  unfolding execute_def line_words(2) [OF command_words(2) word_hex word_dec word_dec]
  using assms from_size_align_bounds [OF assms(1,2)]
  by (simp add: run_command_def dealloc_cmd_def align_arg_def parse_dec parse_hex)

definition unknown_lines :: "string \<Rightarrow> string list" where
  "unknown_lines w = [''Unknown command: '' @ w, ''Type '' @ quoted ''help'' @ '' for a list of commands.'']"

lemma execute_hint:
  "execute e (''dealloc'' @ '' '' @ hex p @ '' '' @ dec sz @ '' '' @ dec al) k = all_of (map say (unknown_lines ''dealloc'')) k"
  unfolding execute_def line_words(2) [OF command_words(3) word_hex word_dec word_dec]
  by (simp add: run_command_def unknown_lines_def del: all_of.simps)

lemma live_address:
  assumes "buddy_live kernel_heap 18 s L" and "L p = Some l" and "0 < lsize l"
  shows "p < usize_lim"
proof -
  have "p \<in> footprint p l" using assms(3) by (simp add: footprint_def)
  then have "p \<in> kernel_heap" using buddy_live_inside [OF assms(1,2)] by blast
  then show ?thesis by (simp add: kernel_heap_def)
qed

text \<open>
  C14. \<open>alloc!\<close> and \<open>dealloc!\<close> are inverse: on a live heap, \<open>alloc! <size> <align>\<close> with a valid layout
  either is refused or prints a pointer, and \<open>dealloc! <pointer> <size> <align>\<close> with exactly the text
  that was printed frees that block, whatever was done in between but to the heap: the live blocks
  are those of before. But the line the user is told to type, \<open>dealloc ...\<close> without the exclamation
  mark, is an unknown command and frees nothing.
\<close>

theorem alloc_then_dealloc:
  assumes "kernel_ok i k" and "buddy_live kernel_heap 18 (k_heap k) L"
    and "from_size_align sz al = Some l" and "0 < sz"
  shows "\<exists>p heap. buddy_alloc l (k_heap k) = Done (p, heap) \<and> (p \<noteq> 0 \<longrightarrow>
    returns_in (printed (ui_safe i) (k\<lparr>k_heap := heap\<rparr>)
        (lines [''Allocated '' @ dec sz @ '' bytes (align '' @ dec al @ '') at '' @ hex p,
                ''To free: dealloc '' @ hex p @ '' '' @ dec sz @ '' '' @ dec al]))
      (execute e (''alloc!'' @ '' '' @ dec sz @ '' '' @ dec al) k) \<and>
    (\<forall>k'. ui_safe i (k_ui k') \<and> k_heap k' = heap \<longrightarrow>
      returns_in (\<lambda>k2. buddy_live kernel_heap 18 (k_heap k2) L)
        (execute e (''dealloc!'' @ '' '' @ hex p @ '' '' @ dec sz @ '' '' @ dec al) k') \<and>
      returns_in (printed (ui_safe i) k' (lines (unknown_lines ''dealloc'')))
        (execute e (''dealloc'' @ '' '' @ hex p @ '' '' @ dec sz @ '' '' @ dec al) k')))"
proof -
  obtain p heap where a: "buddy_alloc l (k_heap k) = Done (p, heap)"
    using buddy_heap.alloc_returns [OF assms(2)] by blast
  have out: "prints (ui_safe i) (lines [x, y]) (all_of [say_color GREEN x, say y])" for x y
    by (rule prints_out, (rule safe.rules)+) simp
  have "returns_in (printed (ui_safe i) (k\<lparr>k_heap := heap\<rparr>)
        (lines [''Allocated '' @ dec sz @ '' bytes (align '' @ dec al @ '') at '' @ hex p,
                ''To free: dealloc '' @ hex p @ '' '' @ dec sz @ '' '' @ dec al]))
      (execute e (''alloc!'' @ '' '' @ dec sz @ '' '' @ dec al) k)" if "p \<noteq> 0"
    unfolding execute_alloc [OF assms(3,4) a that]
    by (rule printsD [OF out]) (use kernel_ok_ui [OF assms(1)] in simp)
  moreover have "returns_in (\<lambda>k2. buddy_live kernel_heap 18 (k_heap k2) L)
        (execute e (''dealloc!'' @ '' '' @ hex p @ '' '' @ dec sz @ '' '' @ dec al) k')"
    if p: "p \<noteq> 0" and k': "ui_safe i (k_ui k') \<and> k_heap k' = heap" for k'
  proof -
    have live: "L p = None" "buddy_live kernel_heap 18 heap (L(p \<mapsto> l))"
      using buddy_heap.alloc_block [OF assms(2) _ a p] by simp_all
    have "lsize l = sz" using assms(3) by (auto simp: from_size_align_def split: if_splits)
    then have lim: "p < usize_lim" using live_address [OF live(2), of p l] assms(4) by simp
    obtain heap2 where d: "buddy_dealloc p l heap = Done heap2"
      "buddy_live kernel_heap 18 heap2 ((L(p \<mapsto> l))(p := None))"
      using buddy_heap.dealloc_block [OF live(2), of p l] by auto
    have "(L(p \<mapsto> l))(p := None) = L" using live(1) by auto
    moreover have "returns_in (printed (ui_safe i) (k'\<lparr>k_heap := heap2\<rparr>) ((''Deallocated '' @ hex p) @ [CHR 0x0A]))
        (say_color GREEN (''Deallocated '' @ hex p) (k'\<lparr>k_heap := heap2\<rparr>))"
      by (rule printsD [OF safe.prints_say_color]) (use k' in simp)
    ultimately show ?thesis
      unfolding execute_dealloc [OF assms(3,4) lim p]
      using d k' printed_same by (fastforce simp: returns_in_def)
  qed
  moreover have "returns_in (printed (ui_safe i) k' (lines (unknown_lines ''dealloc'')))
        (execute e (''dealloc'' @ '' '' @ hex p @ '' '' @ dec sz @ '' '' @ dec al) k')"
    if "ui_safe i (k_ui k')" for k'
    unfolding execute_hint by (rule printsD [OF safe.prints_says that])
  ultimately show ?thesis using a by blast
qed

theorem alloc_then_dealloc_witness:
  "\<exists>k p heap. kernel_ok (info_of small_screen) k \<and>
     buddy_alloc \<lparr>lsize = 100, lalign = 64\<rparr> (k_heap k) = Done (p, heap) \<and>
     (p \<noteq> 0 \<longrightarrow> returns_in (\<lambda>k2. buddy_live kernel_heap 18 (k_heap k2) Map.empty)
        (execute sample_env (''dealloc!'' @ '' '' @ hex p @ '' '' @ dec 100 @ '' '' @ dec 64) (k\<lparr>k_heap := heap\<rparr>)))"
proof -
  obtain k where k: "kernel_ok (info_of small_screen) k" "buddy_live kernel_heap 18 (k_heap k) Map.empty"
    by (rule started_kernel_ok)
  have "power_of_two 64" using count_ones_power [of 6] by (simp add: power_of_two_def)
  then have l: "from_size_align 100 64 = Some \<lparr>lsize = 100, lalign = 64\<rparr>" by (simp add: from_size_align_def)
  obtain p heap where "buddy_alloc \<lparr>lsize = 100, lalign = 64\<rparr> (k_heap k) = Done (p, heap)"
    "p \<noteq> 0 \<longrightarrow> (\<forall>k'. ui_safe (info_of small_screen) (k_ui k') \<and> k_heap k' = heap \<longrightarrow>
      returns_in (\<lambda>k2. buddy_live kernel_heap 18 (k_heap k2) Map.empty)
        (execute sample_env (''dealloc!'' @ '' '' @ hex p @ '' '' @ dec 100 @ '' '' @ dec 64) k'))"
    using alloc_then_dealloc [OF k l, of sample_env] by auto
  with k kernel_ok_ui [OF k(1)] show ?thesis
    by (intro exI [of _ k] exI [of _ p] exI [of _ heap]) simp
qed

section \<open>Listings\<close>

primrec entry_line :: "entry \<Rightarrow> string" where
  "entry_line (Dir name) = name @ ''/''"
| "entry_line (File name) = name"

lemma prints_say_entry: "prints (ui_safe i) (entry_line x @ [CHR 0x0A]) (say_entry x)"
proof (cases x)
  case (Dir name)
  then show ?thesis using safe.prints_say_color [of True i "name @ ''/''" BLUE] by simp
qed (simp add: safe.prints_say)

text \<open>
  C27. \<open>ls\<close> prints the entries of the directory, each on its line, directories with a slash, sorted by
  name and none left out or repeated, and changes nothing but the terminal; on a path that is no
  directory it says so.
\<close>

theorem ls_lists_sorted:
  assumes "ui_safe i (k_ui k)"
  shows "(list_entries (k_fs k) path = Inl NotFound \<longrightarrow>
      returns_in (printed (ui_safe i) k
        (lines [''ls: cannot access '' @ quoted path @ '': No such directory''])) (ls_cmd [path] k)) \<and>
    (list_entries (k_fs k) path = Inr entries \<longrightarrow>
      (\<exists>es. returns_in (printed (ui_safe i) k (lines (map entry_line es))) (ls_cmd [path] k) \<and>
        sorted (map name_of es) \<and> mset es = mset entries))"
proof -
  have "prints (ui_safe i) (lines (map entry_line es)) (all_of (map say_entry es))" for es
    using prints_all_of_map [of es "ui_safe i" "\<lambda>x. entry_line x @ [CHR 0x0A]" say_entry] prints_say_entry
    by (simp add: lines_def o_def)
  note out = printsD [OF this assms]
  have "returns_in (printed (ui_safe i) k (lines (map entry_line (sort_key name_of entries)))) (ls_cmd [path] k)"
    if "list_entries (k_fs k) path = Inr entries"
    using that out [of "sort_key name_of entries"] by (cases "entries = []") (simp_all add: ls_cmd_def)
  moreover have "returns_in (printed (ui_safe i) k
        (lines [''ls: cannot access '' @ quoted path @ '': No such directory''])) (ls_cmd [path] k)"
    if "list_entries (k_fs k) path = Inl NotFound"
    using that printsD [OF safe.prints_line assms] by (simp add: ls_cmd_def del: lines_simps)
  moreover have "sorted (map name_of (sort_key name_of entries))" by simp
  moreover have "mset (sort_key name_of entries) = mset entries" by simp
  ultimately show ?thesis by blast
qed

theorem ls_lists_sorted_witness:
  "\<exists>k. ui_safe (info_of small_screen) (k_ui k) \<and>
     returns_in (printed (ui_safe (info_of small_screen)) k (lines [''a.txt''])) (ls_cmd [''/d''] k)"
proof -
  obtain u where u: "ui_ok (info_of small_screen) u" by (rule started_ui)
  let ?k = "(sample_kernel u)\<lparr>k_fs := sample_fs\<rparr>"
  have s: "ui_safe (info_of small_screen) (k_ui ?k)" using ui_ok_safe [OF u] by (simp add: sample_kernel_def)
  have l: "list_entries (k_fs ?k) ''/d'' = Inr [File ''a.txt'']"
    by (simp add: list_entries_def sample_fs_def is_dir_def parent_of_def last_segment_def trim_end_matches_def
        btree_keys_def)
  obtain es where "returns_in (printed (ui_safe (info_of small_screen)) ?k (lines (map entry_line es))) (ls_cmd [''/d''] ?k)"
    and ms: "mset es = mset [File ''a.txt'']"
    using ls_lists_sorted [OF s, of "''/d''" "[File ''a.txt'']"] l by blast
  moreover have "length es = 1" using arg_cong [OF ms, of size] by simp
  with ms have "es = [File ''a.txt'']" by (cases es) simp_all
  ultimately show ?thesis using s by (intro exI [of _ ?k]) simp
qed

end
