(* ===== verification/Keyboard.thy ===== *)
theory Keyboard
  imports Shell
begin

text \<open>
  From a scancode to a command: \<open>console::receive_key\<close>, which hands a finished line to the shell,
  and the keyboard interrupt handler of \<open>src/int.rs\<close>. The decoder belongs to the \<open>pc_keyboard\<close>
  crate: \<open>add_byte\<close> and \<open>process_keyevent\<close> over its state are parameters. The locks the handler
  takes are not modelled; it runs with interrupts off.
\<close>

text \<open>\<open>core::str::from_utf8\<close> succeeds on ASCII bytes, the only ones the line editor stores; on any
  other byte this model refuses.\<close>

definition from_utf8 :: "string \<Rightarrow> string option" where
  "from_utf8 s = (if \<forall>c \<in> set s. (of_char c :: nat) < 128 then Some s else None)"

definition run_line :: "env \<Rightarrow> string \<Rightarrow> kernel \<Rightarrow> run" where
  "run_line e bytes k =
     followed_by
       (case from_utf8 bytes of Some command \<Rightarrow> execute e command k | None \<Rightarrow> Done (Returns k))
       (with_ui (with_console prompt))"

definition console_receive_key :: "env \<Rightarrow> nat \<Rightarrow> kernel \<Rightarrow> run" where
  "console_receive_key e key k =
     (if key = 0x0A \<or> key = 0x0D then
        (case ui_console (k_ui k) of
           None \<Rightarrow> Panic (Explicit ''console used before console::init()'')
         | Some con \<Rightarrow>
             andthen (receive_key key (con, ui_fb (k_ui k))) (\<lambda>(con1, fb1).
             andthen (read_line (replicate INPUT_SIZE (CHR 0x00)) con1) (\<lambda>(len, buffer, con2).
               let k1 = k\<lparr>k_ui := (k_ui k)\<lparr>ui_console := Some con2, ui_fb := fb1\<rparr>\<rparr>
               in followed_by
                    (case len of Some n \<Rightarrow> run_line e (take n buffer) k1 | None \<Rightarrow> Done (Returns k1))
                    (with_ui present_ui))))
      else with_ui (receive_char key) k)"

datatype decoded_key = Unicode nat | RawKey nat

definition keyboard_interrupt_handler ::
    "(8 word \<Rightarrow> 'kb \<Rightarrow> (unit + 'event option) \<times> 'kb) \<Rightarrow>
     ('event \<Rightarrow> 'kb \<Rightarrow> decoded_key option \<times> 'kb) \<Rightarrow> env \<Rightarrow> 8 word \<Rightarrow> 'kb \<Rightarrow> kernel \<Rightarrow> 'kb \<times> run" where
  "keyboard_interrupt_handler add_byte process_keyevent e scancode kb k =
     (let (kb', handled) =
        (case add_byte scancode kb of
           (Inr (Some key_event), kb1) \<Rightarrow>
             (case process_keyevent key_event kb1 of
                (Some (Unicode ch), kb2) \<Rightarrow> (kb2, console_receive_key e ch k)
              | (_, kb2) \<Rightarrow> (kb2, Done (Returns k)))
         | (_, kb1) \<Rightarrow> (kb1, Done (Returns k)))
      in (kb', followed_by handled (\<lambda>k. Done (Returns (end_of_interrupt KEYBOARD k)))))"

end
