(* ===== verification/Keyboard_Props.thy ===== *)
theory Keyboard_Props
  imports Keyboard Shell_Props
begin

text \<open>
  Properties of the path from the keyboard to the shell: the line that was typed is the line that is
  executed, and every keyboard interrupt that returns is acknowledged exactly once.
\<close>

section \<open>The typed line reaches the shell\<close>

lemma line_edit_ascii:
  "\<forall>c \<in> set line. (of_char c :: nat) < 128 \<Longrightarrow> \<forall>c \<in> set (line_edit key line). (of_char c :: nat) < 128"
  by (auto simp: line_edit_def of_char_of dest: in_set_butlastD)

lemma fold_line_edit_ascii: "from_utf8 (fold line_edit keys []) = Some (fold line_edit keys [])"
proof -
  have "\<forall>c \<in> set (fold line_edit keys line). (of_char c :: nat) < 128"
    if "\<forall>c \<in> set line. (of_char c :: nat) < 128" for line
    using that
  proof (induction keys arbitrary: line)
    case (Cons key keys)
    then show ?case unfolding fold_simps comp_def using line_edit_ascii by blast
  qed simp
  from this [of "[]"] show ?thesis by (simp add: from_utf8_def)
qed

definition ready_for_input :: "info \<Rightarrow> ui \<Rightarrow> console \<Rightarrow> bool" where
  "ready_for_input i u con \<longleftrightarrow> ui_ok i u \<and> ui_console u = Some con \<and> at_prompt con \<and> 0 < rows con"

lemma receive_char_edit:
  assumes "ready_for_input i u con" and "cursor_x con + 1 < columns con" and "key \<noteq> 0x0A \<and> key \<noteq> 0x0D"
  shows "\<exists>u' con'. receive_char key u = Done u' \<and> ready_for_input i u' con' \<and>
    typed con' = line_edit key (typed con) \<and> columns con' = columns con \<and> cursor_x con' \<le> cursor_x con + 1"
proof -
  have con: "ui_console u = Some con" "synced i (con, ui_fb u)" "dirty_sound i (ui_fb u)" "at_prompt con" "0 < rows con"
    using assms(1) by (auto simp: ready_for_input_def ui_ok_def all_shown_sound)
  obtain con' fb' where t: "receive_key key (con, ui_fb u) = Done (con', fb')" "at_prompt con'"
    "typed con' = line_edit key (typed con)" "columns con' = columns con" "rows con' = rows con"
    "cursor_x con' \<le> cursor_x con + 1"
    using receive_key_edit [OF con(2,4,5) assms(2,3)] by blast
  have st: "tty_step i (con, ui_fb u) (con', fb')"
    using keepsD [OF keeps_receive_key con(2), of key] t(1) by simp
  let ?u1 = "u\<lparr>ui_console := Some con', ui_fb := fb'\<rparr>"
  have "ui_mid i ?u1" using st con(3) by (simp add: ui_mid_def tty_step_def)
  from present_ui_ok [OF this] obtain u' where "present_ui ?u1 = Done u'" "ui_ok i u'" "ui_console u' = Some con'"
    by auto
  then show ?thesis
    using con t by (intro exI [of _ u'] exI [of _ con'])
      (simp add: receive_char_def with_console_def ready_for_input_def)
qed

lemma typing_keys:
  assumes "ready_for_input i (k_ui k) con" and "cursor_x con + length keys < columns con"
    and "\<forall>key \<in> set keys. key \<noteq> 0x0A \<and> key \<noteq> 0x0D"
  shows "\<exists>k' con'. all_of (map (console_receive_key e) keys) k = Done (Returns k') \<and>
    ready_for_input i (k_ui k') con' \<and> k' = k\<lparr>k_ui := k_ui k'\<rparr> \<and> typed con' = fold line_edit keys (typed con)"
  using assms
proof (induction keys arbitrary: k con)
  case (Cons key keys)
  obtain u1 con1 where u1: "receive_char key (k_ui k) = Done u1" "ready_for_input i u1 con1"
    "typed con1 = line_edit key (typed con)" "columns con1 = columns con" "cursor_x con1 \<le> cursor_x con + 1"
    using receive_char_edit [OF Cons.prems(1), of key] Cons.prems(2,3) by auto
  let ?k1 = "k\<lparr>k_ui := u1\<rparr>"
  have step: "console_receive_key e key k = Done (Returns ?k1)"
    using u1(1) Cons.prems(3) by (simp add: console_receive_key_def with_ui_def)
  obtain k' con' where k': "all_of (map (console_receive_key e) keys) ?k1 = Done (Returns k')"
    "ready_for_input i (k_ui k') con'" "k' = ?k1\<lparr>k_ui := k_ui k'\<rparr>" "typed con' = fold line_edit keys (typed con1)"
    using Cons.IH [of ?k1 con1] u1(2,4,5) Cons.prems(2,3) by auto
  then show ?case using step u1(3) by (intro exI [of _ k'] exI [of _ con']) simp
next
  case Nil
  then show ?case by auto
qed

lemma enter_runs_line:
  assumes "ready_for_input i (k_ui k) con" and "from_utf8 (typed con) = Some (typed con)"
  shows "\<exists>k1. console_receive_key e 0x0A k =
      followed_by (followed_by (execute e (typed con) k1) (with_ui (with_console prompt))) (with_ui present_ui) \<and>
    k1 = k\<lparr>k_ui := k_ui k1\<rparr> \<and> ui_mid i (k_ui k1) \<and>
    (\<exists>con1. ui_console (k_ui k1) = Some con1 \<and> input_len con1 = 0 \<and> \<not> line_ready con1)"
proof -
  have con: "ui_console (k_ui k) = Some con" "synced i (con, ui_fb (k_ui k))" "dirty_sound i (ui_fb (k_ui k))"
    using assms(1) by (auto simp: ready_for_input_def ui_ok_def all_shown_sound)
  obtain c2 f2 where t2: "newline (con, ui_fb (k_ui k)) = Done (c2, f2)" "tty_step i (con, ui_fb (k_ui k)) (c2, f2)"
    using keepsD [OF keeps_newline con(2)] by auto
  let ?c = "c2\<lparr>line_ready := True\<rparr>" and ?c3 = "c2\<lparr>input_len := 0, line_ready := False\<rparr>"
  have key: "receive_key 0x0A (con, ui_fb (k_ui k)) = Done (?c, f2)"
    using t2(1) by (simp add: receive_key_def put_char_def)
  have c2: "con_inv i c2" "synced i (c2, f2)" using tty_step_synced [OF t2(2)] by (simp_all add: synced_def)
  have ci: "con_inv i ?c" using c2 by (auto simp: con_inv_def)
  have line: "take (input_len c2) (input c2) = typed con"
    using newline_typed [OF t2(1)] by (simp add: typed_def)
  have len: "input_len c2 \<le> length (input c2)" using c2(1) by (simp add: con_inv_def)
  let ?buf = "typed con @ drop (input_len c2) (replicate INPUT_SIZE (CHR 0x00))"
  have rd: "read_line (replicate INPUT_SIZE (CHR 0x00)) ?c = Done (Some (input_len c2), ?buf, ?c3)"
    using read_line_Done [OF ci, of "replicate INPUT_SIZE (CHR 0x00)"] line by simp
  have tk: "take (input_len c2) ?buf = typed con" using line len by (metis append_eq_conv_conj length_take min_absorb2)
  let ?k1 = "k\<lparr>k_ui := (k_ui k)\<lparr>ui_console := Some ?c3, ui_fb := f2\<rparr>\<rparr>"
  have "tty_step i (c2, f2) (?c3, f2)"
    by (rule synced_same_cells [OF c2(2)]) (use c2 in \<open>auto simp: con_inv_def\<close>)
  then have "synced i (?c3, f2)" "dirty_sound i f2" using t2(2) con(3) by (auto simp: tty_step_def)
  then have "ui_mid i (k_ui ?k1)" by (simp add: ui_mid_def)
  moreover have "console_receive_key e 0x0A k =
      followed_by (followed_by (execute e (typed con) ?k1) (with_ui (with_console prompt))) (with_ui present_ui)"
    using con(1) key rd tk assms(2) by (simp add: console_receive_key_def run_line_def Let_def)
  ultimately show ?thesis by (intro exI [of _ ?k1]) simp
qed


lemma write_cell_dirty:
  assumes "synced i (con, fb)" and "dirty_sound i fb" and "write_cell ch (con, fb) = Done (con', fb')"
  shows "dirty_sound i fb'"
  using keepsD [OF keeps_write_cell assms(1), of ch] assms(2,3) by (simp add: tty_step_def)

lemma started_prompt:
  obtains u con where "ready_for_input (info_of wide_screen) u con" and "typed con = []"
    and "cursor_x con = 2" and "columns con = 10"
proof -
  let ?i = "info_of wide_screen"
  obtain con0 fb0 where c0: "synced ?i (con0, fb0)" "rows con0 = 4" "columns con0 = 10"
    by (rule started_console)
  then have s0: "con_inv ?i con0" "fb_inv ?i fb0" "background con0 = BLACK" by (simp_all add: synced_def)
  obtain c1 f1 where t1: "clear_console (con0, fb0) = Done (c1, f1)" "synced ?i (c1, f1)"
    "\<forall>x y. on_screen ?i x y \<longrightarrow> in_dirty f1 x y"
    using clear_console_step [OF s0] tty_step_synced by fastforce
  have d1: "dirty_sound ?i f1" using t1(3) by (simp add: dirty_sound_def)
  have c1: "cursor_x c1 = 0" "cursor_y c1 = 0" "input_len c1 = 0" "rows c1 = 4" "columns c1 = 10"
    using t1(1) c0 by (auto simp: clear_console_def andthen_Done_iff)
  obtain c2 f2 where t2: "write_cell (CHR ''>'') (c1, f1) = Done (c2, f2)" "synced ?i (c2, f2)"
    and c2: "cursor_x c2 = 1" "cursor_y c2 = 0" "input_len c2 = 0" "rows c2 = 4" "columns c2 = 10"
    using write_cell_effect [OF t1(2), of "CHR ''>''"] c1 by auto
  note d2 = write_cell_dirty [OF t1(2) d1 t2(1)]
  obtain c3 f3 where t3: "write_cell (CHR '' '') (c2, f2) = Done (c3, f3)" "synced ?i (c3, f3)"
    and c3: "cursor_x c3 = 2" "cursor_y c3 = 0" "input_len c3 = 0" "rows c3 = 4" "columns c3 = 10"
    using write_cell_effect [OF t2(2), of "CHR '' ''"] c2 by auto
  note d3 = write_cell_dirty [OF t2(2) d2 t3(1)]
  have "ui_mid ?i \<lparr>ui_console = Some c3, ui_fb = f3, serial_mirror = False, serial_out = []\<rparr>"
    using t3(2) d3 by (simp add: ui_mid_def)
  from present_ui_ok [OF this] obtain u where "ui_ok ?i u" "ui_console u = Some c3" by auto
  then have "ready_for_input ?i u c3" using c3 by (simp add: ready_for_input_def at_prompt_def)
  then show thesis using that [of u c3] c3 by (simp add: typed_def)
qed


section \<open>Acknowledging the interrupt\<close>

lemma keyboard_interrupt_acknowledges:
  assumes "keyboard_interrupt_handler add_byte process_keyevent e scancode kb k = (kb', Done (Returns k'))"
  shows "\<exists>k1. k' = act [PicEndOfInterrupt 33] k1"
  using assms
  by (auto simp: keyboard_interrupt_handler_def Let_def followed_by_def andthen_Done_iff on_return_def
      end_of_interrupt_def split: prod.splits ending.splits)

lemma keyboard_interrupt_no_key:
  assumes "add_byte scancode kb = (r, kb1)" and "\<forall>ev. r \<noteq> Inr (Some ev)"
  shows "keyboard_interrupt_handler add_byte process_keyevent e scancode kb k =
    (kb1, Done (Returns (act [PicEndOfInterrupt 33] k)))"
  using assms
  by (cases r; cases "projr r") (auto simp: keyboard_interrupt_handler_def end_of_interrupt_def)

end
