(* ===== verification/Test_Runner.thy ===== *)
theory Test_Runner
  imports Shell
begin

text \<open>
  The kernel's test harness, \<open>src/test.rs\<close>: the runner walks the table of registered tests that the
  linker script lays out between two symbols (here: the list of them), reports on the serial port and
  leaves QEMU with the verdict.
\<close>

datatype test_result = Pass | Fail string

primrec passed :: "test_result \<Rightarrow> bool" where
  "passed Pass = True"
| "passed (Fail reason) = False"

record test =
  test_name :: string
  test_function :: "kernel \<Rightarrow> (test_result \<times> kernel) outcome"

record tally =
  tests_total :: nat
  passes :: nat
  failures :: nat

definition run_test :: "test \<Rightarrow> tally \<times> kernel \<Rightarrow> (tally \<times> kernel) outcome" where
  "run_test t = (\<lambda>(c, k).
     let c1 = c\<lparr>tests_total := tests_total c + 1\<rparr>;
         k1 = serial_text (''test '' @ test_name t @ '' ... '') k
     in andthen (test_function t k1) (\<lambda>(result, k2).
          case result of
            Pass \<Rightarrow> Done (c1\<lparr>passes := passes c1 + 1\<rparr>, serial_lines [''PASS''] k2)
          | Fail reason \<Rightarrow>
              Done (c1\<lparr>failures := failures c1 + 1\<rparr>, serial_lines [''FAIL'', ''    '' @ reason] k2)))"

definition test_banner :: string where
  "test_banner = replicate 40 (CHR ''='')"

definition run_tests :: "test list \<Rightarrow> kernel \<Rightarrow> run" where
  "run_tests tests k =
     andthen (for_each tests run_test (\<lparr>tests_total = 0, passes = 0, failures = 0\<rparr>,
         serial_lines ['''', test_banner, ''       SILLOS KERNEL TEST SUITE'', test_banner, ''''] k)) (\<lambda>(c, k1).
       let k2 = serial_lines ['''', test_banner,
             ''Tests: '' @ dec (tests_total c) @ '' total, '' @ dec (passes c) @ '' passed, '' @
               dec (failures c) @ '' failed'',
             test_banner] k1
       in if failures c = 0 then exit_qemu True (serial_lines [''ALL TESTS PASSED''] k2)
          else exit_qemu False (serial_lines [''TESTS FAILED''] k2))"

section \<open>The verdict\<close>

definition tests_return :: "(string \<Rightarrow> test_result) \<Rightarrow> test list \<Rightarrow> bool" where
  "tests_return verdict tests \<longleftrightarrow>
     (\<forall>t \<in> set tests. \<forall>k. \<exists>k'. test_function t k = Done (verdict (test_name t), k'))"

lemma run_test_counts:
  assumes "\<forall>k. \<exists>k'. test_function t k = Done (verdict (test_name t), k')"
  shows "\<exists>k'. run_test t (c, k) =
    Done (\<lparr>tests_total = tests_total c + 1, passes = passes c + (if passed (verdict (test_name t)) then 1 else 0),
      failures = failures c + (if passed (verdict (test_name t)) then 0 else 1)\<rparr>, k')"
proof -
  obtain k' where "test_function t (serial_text (''test '' @ test_name t @ '' ... '') k) =
      Done (verdict (test_name t), k')"
    using assms by blast
  then show ?thesis by (cases "verdict (test_name t)") (simp_all add: run_test_def Let_def)
qed

lemma run_tests_count:
  assumes "tests_return verdict tests"
  shows "\<exists>k'. for_each tests run_test (c, k) =
    Done (\<lparr>tests_total = tests_total c + length tests,
      passes = passes c + length (filter (\<lambda>t. passed (verdict (test_name t))) tests),
      failures = failures c + length (filter (\<lambda>t. \<not> passed (verdict (test_name t))) tests)\<rparr>, k')"
  using assms
proof (induction tests arbitrary: c k)
  case (Cons t tests)
  have t: "\<forall>k. \<exists>k'. test_function t k = Done (verdict (test_name t), k')" and ts: "tests_return verdict tests"
    using Cons.prems by (simp_all add: tests_return_def)
  obtain k1 where k1: "run_test t (c, k) =
    Done (\<lparr>tests_total = tests_total c + 1, passes = passes c + (if passed (verdict (test_name t)) then 1 else 0),
      failures = failures c + (if passed (verdict (test_name t)) then 0 else 1)\<rparr>, k1)"
    using run_test_counts [where verdict = verdict, OF t] by blast
  show ?case
    using Cons.IH [OF ts, of _ k1] k1
    by (cases "passed (verdict (test_name t))") (simp_all, (metis (no_types, lifting) tally.select_convs add_Suc)+)
qed simp


definition sample_tests :: "test list" where
  "sample_tests = [\<lparr>test_name = ''a'', test_function = (\<lambda>k. Done (Pass, k))\<rparr>,
     \<lparr>test_name = ''b'', test_function = (\<lambda>k. Done (Fail ''no'', k))\<rparr>]"


end
