(* ===== verification/Kernel_Main.thy ===== *)
theory Kernel_Main
  imports Test_Runner Boot Acpi
begin

text \<open>
  \<open>src/main.rs\<close> and \<open>src/gdt.rs\<close>: the start-up sequence \<open>kinit\<close>, the kernel proper, the entry
  point and the panic handler. What the boot loader and the third-party crates provide is the record
  \<open>platform\<close>: the framebuffer and RSDP responses, the embedded font file, the bytes of memory, the
  address, page and frame types of the \<open>x86_64\<close> crate and its mapper, and the address of the static
  stack for double faults and the selectors of appended segments. A table is the list of its
  segments; the statics \<open>TSS\<close>, \<open>GDT\<close> and \<open>IDT\<close> are built once, as \<open>kinit\<close> runs once.
\<close>

record ('page, 'mp, 'e) platform =
  framebuffer_response :: "limine_framebuffer list option"
  font_file :: "8 word list"
  physical_memory :: memory
  rsdp_response :: "nat option"
  virt_new :: "nat \<Rightarrow> nat outcome"
  virt_add :: "nat \<Rightarrow> nat \<Rightarrow> nat outcome"
  page_table_at :: "nat \<Rightarrow> nat \<Rightarrow> 'mp"
  page_at :: "nat \<Rightarrow> 'page outcome"
  page_range :: "'page \<Rightarrow> 'page \<Rightarrow> 'page list"
  frame_at :: "nat \<Rightarrow> nat outcome"
  map_to :: "'page \<Rightarrow> nat \<Rightarrow> page_flag set \<Rightarrow> frame_allocator \<Rightarrow> 'mp \<Rightarrow> (('e + unit) \<times> frame_allocator \<times> 'mp) outcome"
  double_fault_stack :: nat
  selector_of :: "segment list \<Rightarrow> nat"

section \<open>Segments\<close>

abbreviation DOUBLE_FAULT_STACK_SIZE :: nat where
  "DOUBLE_FAULT_STACK_SIZE \<equiv> 4096 * 5"

text \<open>\<open>append\<close> adds a segment to the table; the crate's \<open>selector_of\<close> is the selector of the segment
  appended last.\<close>

definition append_segment ::
    "('page, 'mp, 'e) platform \<Rightarrow> segment \<Rightarrow> segment list \<Rightarrow> nat \<times> segment list" where
  "append_segment p seg gdt = (selector_of p (gdt @ [seg]), gdt @ [seg])"

definition gdt_init :: "('page, 'mp, 'e) platform \<Rightarrow> kernel \<Rightarrow> run" where
  "gdt_init p k =
     andthen (virt_add p (double_fault_stack p) DOUBLE_FAULT_STACK_SIZE) (\<lambda>stack_end.
       let tss = [(DOUBLE_FAULT_IST_INDEX, stack_end)];
           (code_selector, gdt1) = append_segment p KernelCodeSegment [];
           (data_selector, gdt2) = append_segment p KernelDataSegment gdt1;
           (tss_selector, gdt3) = append_segment p (TssSegment tss) gdt2
       in Done (Returns (act
            [LoadGdt gdt3, SetCs code_selector, SetSs data_selector, LoadTss tss_selector] k)))"

section \<open>Start-up\<close>

definition step :: "(kernel \<Rightarrow> kernel) \<Rightarrow> kernel \<Rightarrow> run" where
  "step f k = Done (Returns (f k))"

definition start_framebuffer :: "('page, 'mp, 'e) platform \<Rightarrow> kernel \<Rightarrow> run" where
  "start_framebuffer p = with_ui (\<lambda>u.
     andthen (fb_init (framebuffer_response p) (ui_fb u)) (\<lambda>fb1.
     andthen (clear BLACK fb1) (\<lambda>fb2. Done (u\<lparr>ui_fb := fb2\<rparr>))))"

definition start_acpi :: "('page, 'mp, 'e) platform \<Rightarrow> kernel \<Rightarrow> kernel" where
  "start_acpi p k =
     (case acpi_init (physical_memory p) (rsdp_response p) (k_ui k, k_reset k) of
        (u, r) \<Rightarrow> k\<lparr>k_ui := u, k_reset := r\<rparr>)"

definition start_memory :: "('page, 'mp, 'e) platform \<Rightarrow> env \<Rightarrow> kernel \<Rightarrow> run" where
  "start_memory p e k =
     andthen (kmem_init (virt_new p) (virt_add p) (page_table_at p) (env_boot e)) (\<lambda>(mapper, frame_allocator).
     andthen (init_heap (page_at p) (page_range p) (allocate_frame (MEMMAP_USABLE (env_kinds e)) (frame_at p))
         (map_to p) frame_allocator mapper (k_heap k)) (\<lambda>(result, _, _, heap).
       case result of
         Inl _ \<Rightarrow> Panic (Expect ''failed to init heap'')
       | Inr _ \<Rightarrow> Done (Returns (k\<lparr>k_heap := heap\<rparr>))))"

text \<open>A step announced on the console, or, while there is none, on the serial port.\<close>

definition startup :: "string \<Rightarrow> (kernel \<Rightarrow> run) \<Rightarrow> kernel \<Rightarrow> run" where
  "startup name f = all_of [say_part (''[STARTUP] '' @ name @ ''...''), f, say_color GREEN ''[OK]'']"

definition serial_startup :: "string \<Rightarrow> (kernel \<Rightarrow> run) \<Rightarrow> kernel \<Rightarrow> run" where
  "serial_startup name f =
     all_of [step (serial_text (''[STARTUP] '' @ name @ ''...'')), f, step (serial_lines [''[OK]''])]"

definition kinit :: "('page, 'mp, 'e) platform \<Rightarrow> env \<Rightarrow> kernel \<Rightarrow> run" where
  "kinit p e k =
     (if kinit_called k then Panic (Explicit ''KINIT CANNOT BE CALLED MORE THAN ONCE'')
      else all_of
        [serial_startup ''initializing framebuf'' (start_framebuffer p),
         serial_startup ''initializing console'' (with_ui (console_init (font_file p))),
         startup ''Initializing GDT'' (gdt_init p),
         startup ''Initializing IDT'' (step int_init),
         startup ''Initializing PIC'' (step pic_init),
         startup ''Enabling interrupts'' (step (act [EnableInterrupts])),
         startup ''initializing acpi'' (step (start_acpi p)),
         startup ''initializing kmem'' (start_memory p e),
         say [],
         say ''[INFO] Kernel is running.'',
         say ''[INFO] Timer interrupts should now arrive.'',
         say ''[INFO] Press keys to test keyboard IRQs.'',
         say []] (k\<lparr>kinit_called := True\<rparr>))"

section \<open>The kernel\<close>

text \<open>The banner, with its backslashes written as percent signs.\<close>

definition backslashes :: "string \<Rightarrow> string" where
  "backslashes = map (\<lambda>c. if c = CHR ''%'' then CHR 0x5C else c)"

definition banner :: "string list" where
  "banner = map backslashes
     [''  _________.__.__  .__   ________    _________'',
      '' /   _____/|__|  | |  |  %_____  %  /   _____/'',
      '' %_____  % |  |  | |  |   /   |   % %_____  % '',
      '' /        %|  |  |_|  |__/    |    %/        %'',
      ''/_______  /|__|____/____/%_______  /_______  /'',
      ''        %/                       %/        %/'']"

definition joined :: "string list \<Rightarrow> string" where
  "joined ls = butlast (concat (map (\<lambda>l. l @ [CHR 0x0A]) ls))"

definition kernel_main :: "kernel \<Rightarrow> run" where
  "kernel_main = all_of
     [with_ui global_clear,
      say ''Welcome to...'',
      say (joined banner),
      with_ui present_ui,
      say_part ''> '',
      with_ui present_ui]"

text \<open>The entry point; \<open>feature_test\<close> holds the registered tests when the kernel is built with the
  feature \<open>test\<close>. What follows is an endless loop of \<open>hlt\<close>.\<close>

definition kmain :: "test list option \<Rightarrow> ('page, 'mp, 'e) platform \<Rightarrow> env \<Rightarrow> kernel \<Rightarrow> run" where
  "kmain feature_test p e k =
     followed_by (all_of
       [step (serial_lines [''SillOS starting.'']),
        kinit p e,
        (case feature_test of Some tests \<Rightarrow> run_tests tests | None \<Rightarrow> kernel_main)] k)
       (\<lambda>k1. Done (Diverges k1))"

text \<open>The panic handler, for the panic's text, in the state it leaves.\<close>

definition panic_handler :: "string \<Rightarrow> kernel \<Rightarrow> run" where
  "panic_handler info k =
     followed_by (all_of
       [say_color RED (''KERNEL PANIC: '' @ info),
        step (serial_lines [''KERNEL PANIC: '' @ info]),
        with_ui present_ui] k)
       (\<lambda>k1. Done (Diverges k1))"

end
