(* ===== verification/Kernel_Main_Props.thy ===== *)
theory Kernel_Main_Props
  imports Kernel_Main Shell_Props
begin

text \<open>
  Properties of the start-up: on a platform with a usable framebuffer and enough memory the kernel
  boots, once, in the order the processor needs; a panic before the console is there is never seen.
\<close>

section \<open>What the platform provides\<close>

definition platform_ok :: "('page, 'mp, 'e) platform \<Rightarrow> env \<Rightarrow> limine_framebuffer \<Rightarrow> bool" where
  "platform_ok p e lf \<longleftrightarrow>
     (\<exists>rest. framebuffer_response p = Some (lf # rest)) \<and> lf_ok lf \<and>
     (\<exists>f. font_new (font_file p) = Done f \<and> font_ok f) \<and>
     (\<forall>a. \<exists>v. virt_new p a = Done v) \<and> (\<forall>v n. \<exists>w. virt_add p v n = Done w)"

definition memory_ok :: "('page, 'mp, 'e) platform \<Rightarrow> env \<Rightarrow> bool" where
  "memory_ok p e \<longleftrightarrow> (\<exists>hhdm m. hhdm_response (env_boot e) = Some hhdm \<and>
     memmap_response (env_boot e) = Some m \<and>
     map_fits (MEMMAP_USABLE (env_kinds e)) m \<and>
     frames_valid (frame_at p) (MEMMAP_USABLE (env_kinds e)) m \<and>
     4 * HEAP_PAGES \<le> length (map_frames (MEMMAP_USABLE (env_kinds e)) m) \<and>
     mapper_ok (MEMMAP_USABLE (env_kinds e)) (frame_at p) (map_to p) \<and>
     pages_ok (page_at p) (page_range p))"

section \<open>ACPI only logs\<close>

definition logs :: "acpi_state \<Rightarrow> acpi_state \<Rightarrow> bool" where
  "logs st st' \<longleftrightarrow> (\<exists>txt. fst st' = (fst st)\<lparr>serial_out := serial_out (fst st) @ txt\<rparr>)"

lemma logs_refl [simp]: "logs st st"
  by (auto simp: logs_def intro: exI [of _ "[]"])

lemma logs_acpi_log [simp]: "logs st0 st \<Longrightarrow> logs st0 (acpi_log msg st)"
  by (fastforce simp: logs_def acpi_log_def serial_println_def serial_write_fmt_def)

lemma logs_snd [simp]: "logs st0 (fst st, r) = logs st0 st"
  by (simp add: logs_def)

lemma logs_parse_fadt [simp]: "logs st0 st \<Longrightarrow> logs st0 (parse_fadt m a st)"
  by (simp add: parse_fadt_def Let_def)

lemma logs_scan_tables [simp]: "logs st0 st \<Longrightarrow> logs st0 (scan_tables m xsdt is st)"
  by (induction "is" arbitrary: st) (simp_all add: Let_def)

lemma logs_acpi_init: "logs st (acpi_init m response st)"
  by (simp add: acpi_init_def find_fadt_def Let_def split: option.split)

section \<open>Stages of the start-up\<close>

text \<open>The kernel at a stage: the screen in step, and the rest of the state given.\<close>

definition stage :: "info \<Rightarrow> kernel \<Rightarrow> kernel \<Rightarrow> bool" where
  "stage i s k \<longleftrightarrow> ui_ok i (k_ui k) \<and> k = s\<lparr>k_ui := k_ui k\<rparr>"

lemma stage_ui [simp]: "stage i (s\<lparr>k_ui := u\<rparr>) k = stage i s k"
  by (simp add: stage_def)

lemma stage_fields:
  assumes "stage i s k"
  shows "k_reset k = k_reset s" "k_heap k = k_heap s" "k_fs k = k_fs s" "k_actions k = k_actions s"
    "kinit_called k = kinit_called s"
  using assms by (cases k; cases s; simp add: stage_def)+

lemma stage_set: "stage i s k \<Longrightarrow> k\<lparr>k_ui := u\<rparr> = s\<lparr>k_ui := u\<rparr>"
  unfolding stage_def by (metis kernel.surjective kernel.update_convs(1))

lemma stage_heap: "stage i s k \<Longrightarrow> stage i (s\<lparr>k_heap := h\<rparr>) (k\<lparr>k_heap := h\<rparr>)"
  by (cases k; cases s) (simp add: stage_def)

lemma stage_printed: "stage i s k \<Longrightarrow> printed (ui_ok i) k out k' \<Longrightarrow> stage i s k'"
  unfolding stage_def printed_def by (metis kernel.surjective kernel.update_convs(1))

lemma stage_prints: "prints (ui_ok i) out f \<Longrightarrow> stage i s k \<Longrightarrow> returns_in (stage i s) (f k)"
  using printsD [of "ui_ok i" out f k] stage_printed [of i s k out]
  by (auto simp: stage_def intro: returns_in_mono)

lemmas stage_says = stage_prints [OF screen.prints_say] stage_prints [OF screen.prints_say_part]
  stage_prints [OF screen.prints_say_color]

lemma all_of_step:
  "returns_in P (f k) \<Longrightarrow> (\<And>k. P k \<Longrightarrow> returns_in Q (all_of fs k)) \<Longrightarrow> returns_in Q (all_of (f # fs) k)"
  using returns_in_followed [of P "f k" Q "all_of fs"] by simp

lemma all_of_done: "Q k \<Longrightarrow> returns_in Q (all_of [] k)"
  by (simp add: returns_in_def)

lemma stage_startup:
  assumes "stage i s k" and "\<And>k. stage i s k \<Longrightarrow> returns_in (stage i s') (f k)"
  shows "returns_in (stage i s') (startup name f k)"
  unfolding startup_def
  by (rule all_of_step, rule stage_says, rule assms, rule all_of_step, rule assms, assumption,
      rule all_of_step, rule stage_says, assumption, rule all_of_done, assumption)

lemma stage_act: "stage i s k \<Longrightarrow> returns_in (stage i (act as s)) (step (act as) k)"
  by (cases k; cases s) (simp add: stage_def step_def returns_in_def act_def)

lemma stage_acpi:
  assumes "stage i s k"
  shows "returns_in (stage i (s\<lparr>k_reset := snd (acpi_init (physical_memory p) (rsdp_response p) (u, k_reset s))\<rparr>))
    (step (start_acpi p) k)"
proof -
  obtain u' r where a: "acpi_init (physical_memory p) (rsdp_response p) (k_ui k, k_reset k) = (u', r)"
    by fastforce
  have k: "ui_ok i (k_ui k)" "k_reset k = k_reset s"
    using assms by (simp_all add: stage_fields) (simp add: stage_def)
  obtain out where "u' = (k_ui k)\<lparr>serial_out := serial_out (k_ui k) @ out\<rparr>"
    using logs_acpi_init [of "(k_ui k, k_reset k)" "physical_memory p" "rsdp_response p"] a
    by (auto simp: logs_def)
  then have ui: "ui_ok i u'" using k(1) screen.serial by simp
  have r: "r = snd (acpi_init (physical_memory p) (rsdp_response p) (u, k_reset s))"
    using arg_cong [OF a, of snd] k(2) by (auto simp: snd_acpi_init split: option.splits)
  have "start_acpi p k = k\<lparr>k_ui := u'\<rparr>\<lparr>k_reset := r\<rparr>" by (simp add: start_acpi_def a)
  also have "\<dots> = s\<lparr>k_reset := r, k_ui := u'\<rparr>" using stage_set [OF assms, of u'] by simp
  finally show ?thesis using ui r by (simp add: step_def returns_in_def stage_def)
qed

lemma stage_memory:
  assumes "stage i s k" and "platform_ok p e lf" and "memory_ok p e"
    and "buddy_init HEAP_START HEAP_SIZE (k_heap s) = Done heap"
  shows "returns_in (stage i (s\<lparr>k_heap := heap\<rparr>)) (start_memory p e k)"
proof -
  let ?usable = "MEMMAP_USABLE (env_kinds e)"
  obtain hhdm m where b: "hhdm_response (env_boot e) = Some hhdm" "memmap_response (env_boot e) = Some m"
    and m: "map_fits ?usable m" "frames_valid (frame_at p) ?usable m"
      "4 * HEAP_PAGES \<le> length (map_frames ?usable m)"
      "mapper_ok ?usable (frame_at p) (map_to p)" "pages_ok (page_at p) (page_range p)"
    using assms(3) by (auto simp: memory_ok_def)
  obtain off l4 where v: "virt_new p hhdm = Done off" "virt_add p off (cr3_physical (env_boot e)) = Done l4"
    using assms(2) unfolding platform_ok_def by metis
  obtain a z where az: "page_at p HEAP_START = Done a" "page_at p (HEAP_START + HEAP_SIZE - 1) = Done z"
    "length (page_range p a z) = HEAP_PAGES" using m(5) by (auto simp: pages_ok_def)
  obtain fa mp where map: "map_heap_pages (allocate_frame ?usable (frame_at p)) (map_to p) (page_range p a z)
      (frame_new m) (page_table_at p l4 off) = Done (Inr (), fa, mp)"
    using map_heap_pages_enough [OF m(4) frames_ok_new [OF m(1,2)], of "page_range p a z" "page_table_at p l4 off"]
      m(3) az(3) by (auto simp: frames_left_def remaining_new)
  note k = stage_fields [OF assms(1)]
  have "start_memory p e k = Done (Returns (k\<lparr>k_heap := heap\<rparr>))"
    using az(1,2) map b v assms(4) k(2)
    by (simp add: start_memory_def kmem_init_def init_mapper_def expect_def init_heap_def)
  with stage_heap [OF assms(1), of heap] show ?thesis by (simp add: returns_in_def)
qed

lemma stage_with_ui:
  assumes "stage i s k" and "\<And>u. ui_ok i u \<Longrightarrow> \<exists>u'. f u = Done u' \<and> ui_ok i u'"
  shows "returns_in (stage i s) (with_ui f k)"
proof -
  obtain u' where "f (k_ui k) = Done u'" "ui_ok i u'" using assms by (auto simp: stage_def)
  with stage_set [OF assms(1), of u'] show ?thesis by (simp add: with_ui_def returns_in_def stage_def)
qed

lemma stage_present: "stage i s k \<Longrightarrow> returns_in (stage i s) (with_ui present_ui k)"
  by (rule stage_with_ui, assumption) (use present_ui_ok ui_ok_mid in blast)

lemma stage_clear: "stage i s k \<Longrightarrow> returns_in (stage i s) (with_ui global_clear k)"
  by (rule stage_with_ui, assumption) (use global_clear_ok ui_ok_mid in blast)

lemma stage_kernel_main: "stage i s k \<Longrightarrow> returns_in (stage i s) (kernel_main k)"
  unfolding kernel_main_def
  by (rule all_of_step, rule stage_clear, assumption, rule all_of_step, rule stage_says, assumption,
      rule all_of_step, rule stage_says, assumption, rule all_of_step, rule stage_present, assumption,
      rule all_of_step, rule stage_says, assumption, rule all_of_step, rule stage_present, assumption,
      rule all_of_done, assumption)

text \<open>Before there is a console: the framebuffer is ready, or nothing is.\<close>

definition early :: "(framebuffer \<Rightarrow> bool) \<Rightarrow> kernel \<Rightarrow> kernel \<Rightarrow> bool" where
  "early F s k \<longleftrightarrow> F (ui_fb (k_ui k)) \<and> k = s\<lparr>k_ui := k_ui k\<rparr>"

lemma early_serial: "early F s k \<Longrightarrow> early F s (serial_text txt k)" "early F s k \<Longrightarrow> early F s (serial_lines ls k)"
  unfolding early_def serial_text_def serial_lines_eq serial_write_fmt_def
  by (metis (no_types, lifting) kernel.select_convs(1) kernel.surjective kernel.update_convs(1) ui.select_convs(2)
      ui.surjective ui.update_convs(4))+

lemma stage_serial: "stage i s k \<Longrightarrow> stage i s (serial_lines ls k)"
  unfolding stage_def using screen.serial_lines_keep [of i ls k]
  by (metis (no_types, lifting) serial_lines_eq kernel.surjective kernel.update_convs(1))

lemma start_framebuffer_ready:
  assumes "platform_ok p e lf" and "early F s k"
  shows "returns_in (early (fb_inv (info_of lf)) s) (start_framebuffer p k)"
proof -
  obtain rest where r: "framebuffer_response p = Some (lf # rest)" "lf_ok lf"
    using assms(1) by (auto simp: platform_ok_def)
  obtain f1 where f1: "fb_init (Some (lf # rest)) (ui_fb (k_ui k)) = Done f1" "fb_inv (info_of lf) f1"
    using fb_init_step [OF r(2), of rest "ui_fb (k_ui k)"] by (auto simp: fb_step_ok_def)
  obtain f2 where "clear BLACK f1 = Done f2" "fb_inv (info_of lf) f2"
    using clear_drawn [OF f1(2), of BLACK] by (auto simp: drawn_def)
  moreover have "k\<lparr>k_ui := u\<rparr> = s\<lparr>k_ui := u\<rparr>" for u
    using assms(2) unfolding early_def by (metis kernel.surjective kernel.update_convs(1))
  ultimately show ?thesis
    using f1(1) r(1) by (simp add: start_framebuffer_def with_ui_def returns_in_def early_def)
qed

lemma start_console_ready:
  assumes "platform_ok p e lf" and "early (fb_inv (info_of lf)) s k"
  shows "returns_in (stage (info_of lf) s) (with_ui (console_init (font_file p)) k)"
proof -
  obtain f where f: "font_new (font_file p) = Done f" "font_ok f" using assms(1) by (auto simp: platform_ok_def)
  obtain u where "console_init (font_file p) (k_ui k) = Done u" "ui_ok (info_of lf) u"
    using console_init_ok [OF f, of "info_of lf" "k_ui k"] assms(2) by (auto simp: early_def)
  moreover have "k\<lparr>k_ui := u\<rparr> = s\<lparr>k_ui := u\<rparr>" for u
    using assms(2) unfolding early_def by (metis kernel.surjective kernel.update_convs(1))
  ultimately show ?thesis by (simp add: with_ui_def returns_in_def stage_def)
qed

lemma serial_startup_step:
  assumes "P k" and "\<And>k txt. P k \<Longrightarrow> P (serial_text txt k)" and "\<And>k. P k \<Longrightarrow> returns_in Q (f k)"
    and "\<And>k ls. Q k \<Longrightarrow> Q (serial_lines ls k)"
  shows "returns_in Q (serial_startup name f k)"
  unfolding serial_startup_def step_def
  by (rule all_of_step, simp only: returns_in_def ending.inject outcome.inject ex_simps, rule exI, rule conjI,
      rule refl, rule assms(2), rule assms(1), rule all_of_step, rule assms(3), assumption, rule all_of_step,
      simp only: returns_in_def ending.inject outcome.inject ex_simps, rule exI, rule conjI,
      rule refl, rule assms(4), assumption, rule all_of_done, assumption)

definition gdt_actions :: "('page, 'mp, 'e) platform \<Rightarrow> nat \<Rightarrow> machine_action list" where
  "gdt_actions p ist =
     (let tss = TssSegment [(DOUBLE_FAULT_IST_INDEX, ist)]
      in [LoadGdt [KernelCodeSegment, KernelDataSegment, tss],
          SetCs (selector_of p [KernelCodeSegment]),
          SetSs (selector_of p [KernelCodeSegment, KernelDataSegment]),
          LoadTss (selector_of p [KernelCodeSegment, KernelDataSegment, tss])])"

lemma stage_gdt:
  assumes "stage i s k" and "virt_add p (double_fault_stack p) DOUBLE_FAULT_STACK_SIZE = Done ist"
  shows "returns_in (stage i (act (gdt_actions p ist) s)) (gdt_init p k)"
  using stage_act [OF assms(1)] assms(2) by (simp add: gdt_init_def step_def append_segment_def gdt_actions_def Let_def)

text \<open>What the start-up leaves, apart from the screen.\<close>

definition booted :: "('page, 'mp, 'e) platform \<Rightarrow> nat \<Rightarrow> buddy \<Rightarrow> kernel \<Rightarrow> kernel" where
  "booted p ist heap k =
     (act [EnableInterrupts] (pic_init (int_init
        (act (gdt_actions p ist) (k\<lparr>kinit_called := True\<rparr>)))))
       \<lparr>k_reset := snd (acpi_init (physical_memory p) (rsdp_response p) (k_ui k, k_reset k)), k_heap := heap\<rparr>"

lemma kinit_boots:
  assumes p: "platform_ok p e lf" and m: "memory_ok p e" and "\<not> kinit_called k"
    and ist: "virt_add p (double_fault_stack p) DOUBLE_FAULT_STACK_SIZE = Done ist"
    and heap: "buddy_init HEAP_START HEAP_SIZE (k_heap k) = Done heap"
  shows "returns_in (stage (info_of lf) (booted p ist heap k)) (kinit p e k)"
proof -
  let ?i = "info_of lf" and ?s0 = "k\<lparr>kinit_called := True\<rparr>"
  let ?s1 = "act (gdt_actions p ist) ?s0"
  let ?s4 = "act [EnableInterrupts] (pic_init (int_init ?s1))"
  let ?s5 = "?s4\<lparr>k_reset := snd (acpi_init (physical_memory p) (rsdp_response p) (k_ui k, k_reset ?s4))\<rparr>"
  have early: "early (\<lambda>_. True) ?s0 ?s0" by (simp add: early_def)
  have heap5: "buddy_init HEAP_START HEAP_SIZE (k_heap ?s5) = Done heap"
    using heap by (simp add: act_def int_init_def pic_init_def)
  have fin: "booted p ist heap k = ?s5\<lparr>k_heap := heap\<rparr>"
    by (simp add: booted_def act_def int_init_def pic_init_def)
  have "returns_in (stage ?i (booted p ist heap k)) (kinit p e k)"
    unfolding fin kinit_def if_not_P [OF assms(3)]
    apply (rule all_of_step)
     apply (rule serial_startup_step [where P = "early (\<lambda>_. True) ?s0", OF early])
       apply (erule early_serial)
      apply (erule start_framebuffer_ready [OF p])
     apply (erule early_serial)
    apply (rule all_of_step)
     apply (rule serial_startup_step [where P = "early (fb_inv ?i) ?s0"], assumption)
       apply (erule early_serial)
      apply (erule start_console_ready [OF p])
     apply (erule stage_serial)
    apply (rule all_of_step, rule stage_startup, assumption, erule stage_gdt [OF _ ist])
    apply (rule all_of_step, rule stage_startup, assumption, unfold int_init_def, erule stage_act)
    apply (rule all_of_step, rule stage_startup, assumption, unfold pic_init_def, erule stage_act)
    apply (rule all_of_step, rule stage_startup, assumption, erule stage_act)
    apply (rule all_of_step, rule stage_startup, assumption, rule stage_acpi, assumption)
    apply (rule all_of_step, rule stage_startup, assumption, erule stage_memory [OF _ p m])
     apply (rule heap5 [unfolded int_init_def pic_init_def])
    by (rule all_of_step, rule stage_says, assumption, rule all_of_step, rule stage_says, assumption,
        rule all_of_step, rule stage_says, assumption, rule all_of_step, rule stage_says, assumption,
        rule all_of_step, rule stage_says, assumption, rule all_of_done, assumption)
  then show ?thesis .
qed

lemma stage_final:
  "returns_in (stage i s) r \<Longrightarrow> \<exists>k. followed_by r (\<lambda>k. Done (Diverges k)) = Done (Diverges k) \<and> stage i s k"
  by (auto simp: returns_in_def)

lemma kmain_boots:
  assumes "platform_ok p e lf" and "memory_ok p e" and "\<not> kinit_called k"
    and "virt_add p (double_fault_stack p) DOUBLE_FAULT_STACK_SIZE = Done ist"
    and "buddy_init HEAP_START HEAP_SIZE (k_heap k) = Done heap"
  shows "\<exists>k'. kmain None p e k = Done (Diverges k') \<and> stage (info_of lf) (booted p ist heap k) k'"
proof -
  let ?k1 = "serial_lines [''SillOS starting.''] k"
  have k1: "\<not> kinit_called ?k1" "k_heap ?k1 = k_heap k" "k_reset ?k1 = k_reset k"
    "\<And>u. (booted p ist heap ?k1)\<lparr>k_ui := u\<rparr> = (booted p ist heap k)\<lparr>k_ui := u\<rparr>"
    using assms(3)
    by (simp_all add: serial_lines_eq booted_def act_def int_init_def pic_init_def snd_acpi_init split: option.split)
  have st: "stage (info_of lf) (booted p ist heap ?k1) = stage (info_of lf) (booted p ist heap k)"
    by (rule ext) (simp add: stage_def k1)
  have "returns_in (stage (info_of lf) (booted p ist heap k)) (kinit p e ?k1)"
    using kinit_boots [OF assms(1,2) k1(1) assms(4)] assms(5) by (simp add: k1(2) st)
  then have "returns_in (stage (info_of lf) (booted p ist heap k)) (all_of [kinit p e, kernel_main] ?k1)"
    by (rule all_of_step) (rule all_of_step, rule stage_kernel_main, assumption, rule all_of_done, assumption)
  from stage_final [OF this] show ?thesis by (simp add: kmain_def step_def)
qed


definition sample_platform :: "(nat, (nat \<times> nat) list, unit) platform" where
  "sample_platform = \<lparr>framebuffer_response = Some [small_screen], font_file = solid_font,
     physical_memory = (\<lambda>_. 0), rsdp_response = None, virt_new = Done, virt_add = (\<lambda>a n. Done (a + n)),
     page_table_at = (\<lambda>_ _. []), page_at = (\<lambda>a. Done (a div 4096)), page_range = (\<lambda>p q. [p ..< q + 1]),
     frame_at = Done, map_to = sample_map_to, double_fault_stack = 4096,
     selector_of = (\<lambda>segs. 8 * length segs)\<rparr>"

definition roomy_env :: env where
  "roomy_env = \<lparr>env_kinds = sample_kinds,
     env_boot = \<lparr>hhdm_response = Some 0,
       memmap_response = Some [\<lparr>entry_base = 1048576, entry_length = 536870912, entry_type = 0\<rparr>],
       cr3_physical = 0, cr3_flags = ''''\<rparr>,
     env_status = (\<lambda>_. 0), env_frame = ''''\<rparr>"

lemma sample_memory_ok: "memory_ok sample_platform roomy_env"
proof -
  let ?m = "[\<lparr>entry_base = 1048576, entry_length = 536870912, entry_type = 0\<rparr>]"
  have usable: "MEMMAP_USABLE (env_kinds roomy_env) = 0" by (simp add: roomy_env_def sample_kinds_def)
  have len: "4 * HEAP_PAGES \<le> length (map_frames 0 ?m)"
    by (simp add: map_frames_def region_frames_def frames_between_def first_frame_def end_frame_def
        del: upt_rec_numeral)
  have fits: "map_fits 0 ?m" by (simp add: map_fits_def entry_fits_def)
  have valid: "frames_valid Done 0 ?m" by (simp add: frames_valid_def)
  have pages: "pages_ok (\<lambda>a. Done (a div 4096)) (\<lambda>p q. [p ..< q + 1])"
    by (simp add: pages_ok_def del: upt_rec_numeral)
  show ?thesis
    unfolding memory_ok_def usable
    using len fits valid pages sample_mapper_ok
    by (simp add: roomy_env_def sample_platform_def)
qed

lemma sample_platform_ok: "platform_ok sample_platform e small_screen"
  using small_screen_ok solid_font_loads by (auto simp: platform_ok_def sample_platform_def)


section \<open>A panic before the console\<close>



text \<open>Once there is a console, a panic is reported on the screen and the serial port, and the kernel
  stops.\<close>

lemma panic_reported:
  assumes "ui_safe i (k_ui k)" and "serial_mirror (k_ui k) = False"
  shows "\<exists>k'. panic_handler info k = Done (Diverges k') \<and> ui_safe i (k_ui k') \<and>
    serial_out (k_ui k') = serial_out (k_ui k) @ lines [''KERNEL PANIC: '' @ info]"
proof -
  obtain k1 where k1: "say_color RED (''KERNEL PANIC: '' @ info) k = Done (Returns k1)"
    "printed (ui_safe i) k ((''KERNEL PANIC: '' @ info) @ [CHR 0x0A]) k1"
    using printsD [OF safe.prints_say_color assms(1)] unfolding returns_in_def by blast
  let ?k2 = "serial_lines [''KERNEL PANIC: '' @ info] k1"
  have "ui_safe i (k_ui ?k2)" using k1(2) safe.serial_lines_keep by (simp add: printed_def)
  then obtain u where u: "present_ui (k_ui ?k2) = Done u" "ui_safe i u" "serial_out u = serial_out (k_ui ?k2)"
    using ui_staysD [OF ui_stays_present] by blast
  then have "panic_handler info k = Done (Diverges (?k2\<lparr>k_ui := u\<rparr>))"
    using k1(1) by (simp add: panic_handler_def step_def with_ui_def)
  then show ?thesis using u k1(2) assms(2) by (auto simp: printed_def serial_lines_eq)
qed

end
