(* ===== verification/List_Alloc.thy ===== *)
theory List_Alloc
  imports Allocator
begin

text \<open>
  The first-fit linked-list allocator of \<open>src/kmem/heap.rs\<close>, the second implementation of the trait
  \<open>MemoryAllocator\<close>, which the kernel can be built with in place of the buddy allocator. The nodes
  of the free list live in the free regions: \<open>la_mem a\<close> is the word of memory at \<open>a\<close>, a node at
  \<open>a\<close> has its size there and its link at \<open>a + 8\<close>, and a link is 0 for \<open>None\<close>. A node that would
  be written at a misaligned address is the panic of the \<open>dev\<close> profile's pointer checks.
\<close>

section \<open>The code\<close>

record list_allocator =
  la_head :: nat
  la_initialized :: bool
  la_mem :: "nat \<Rightarrow> nat"

text \<open>\<open>size_of::<ListNode>()\<close> and \<open>align_of::<ListNode>()\<close>: two words.\<close>

abbreviation NODE_SIZE :: nat where "NODE_SIZE \<equiv> 16"

abbreviation NODE_ALIGN :: nat where "NODE_ALIGN \<equiv> 8"

definition list_new :: "(nat \<Rightarrow> nat) \<Rightarrow> list_allocator" where
  "list_new mem = \<lparr>la_head = 0, la_initialized = False, la_mem = mem\<rparr>"

definition adjust_layout :: "layout \<Rightarrow> layout option" where
  "adjust_layout l = from_size_align (max (lsize l) NODE_SIZE) (max (lalign l) NODE_ALIGN)"

definition heap_align_up :: "nat \<Rightarrow> nat \<Rightarrow> nat outcome" where
  "heap_align_up addr align =
     (if \<not> power_of_two align then Panic (Assertion ''align.is_power_of_two()'')
      else andthen (uadd addr align) (\<lambda>s. andthen (usub s 1) (\<lambda>v. Done (align_mask v align))))"

text \<open>Writing a node: its alignment is checked before anything is stored.\<close>

definition write_node :: "nat \<Rightarrow> nat \<Rightarrow> nat \<Rightarrow> list_allocator \<Rightarrow> list_allocator outcome" where
  "write_node a sz nxt s =
     (if a mod NODE_ALIGN \<noteq> 0 \<or> a = 0 then Panic (Explicit ''misaligned or null pointer write'')
      else Done (s\<lparr>la_mem := (la_mem s)(a := sz, a + 8 := nxt)\<rparr>))"

definition add_free_region :: "nat \<Rightarrow> nat \<Rightarrow> list_allocator \<Rightarrow> list_allocator outcome" where
  "add_free_region addr sz s =
     (if addr mod NODE_ALIGN \<noteq> 0 then Panic (Assertion ''free region is not aligned'')
      else if sz < NODE_SIZE then Panic (Assertion ''free region is too small'')
      else andthen (write_node addr sz (la_head s) s) (\<lambda>s1. Done (s1\<lparr>la_head := addr\<rparr>)))"

definition list_init :: "nat \<Rightarrow> nat \<Rightarrow> list_allocator \<Rightarrow> list_allocator outcome" where
  "list_init start sz s =
     (if start mod NODE_ALIGN \<noteq> 0 then Panic (Assertion ''heap start is not properly aligned'')
      else if sz < NODE_SIZE then Panic (Assertion ''heap is too small'')
      else add_free_region start sz (s\<lparr>la_initialized := True\<rparr>))"

text \<open>\<open>None\<close> is the code's \<open>Err(())\<close>.\<close>

definition alloc_from_region :: "nat \<Rightarrow> nat \<Rightarrow> layout \<Rightarrow> nat option outcome" where
  "alloc_from_region start sz l =
     andthen (heap_align_up start (lalign l)) (\<lambda>alloc_start.
       case checked_add alloc_start (lsize l) of
         None \<Rightarrow> Done None
       | Some alloc_end \<Rightarrow>
           (case checked_add start sz of
              None \<Rightarrow> Done None
            | Some region_end \<Rightarrow>
                if region_end < alloc_end then Done None
                else
                  let excess_size = region_end - alloc_end
                  in if 0 < excess_size \<and> excess_size < NODE_SIZE then Done None
                     else Done (Some alloc_start)))"

text \<open>The \<open>while\<close> loop of \<open>alloc\<close>: the first region that serves the layout, with its predecessor (0
  for the head) and the start of the block.\<close>

partial_function (option) find_region ::
    "(nat \<Rightarrow> nat) \<Rightarrow> layout \<Rightarrow> nat \<Rightarrow> nat \<Rightarrow> (nat \<times> nat \<times> nat) option outcome option" where
  "find_region mem l prev region =
     (if region = 0 then Some (Done None)
      else
        case alloc_from_region region (mem region) l of
          Done (Some alloc_start) \<Rightarrow> Some (Done (Some (prev, region, alloc_start)))
        | Done None \<Rightarrow> find_region mem l region (mem (region + 8))
        | Panic p \<Rightarrow> Some (Panic p)
        | Hang \<Rightarrow> None)"

definition set_next :: "nat \<Rightarrow> nat \<Rightarrow> list_allocator \<Rightarrow> list_allocator" where
  "set_next node v s =
     (if node = 0 then s\<lparr>la_head := v\<rparr> else s\<lparr>la_mem := (la_mem s)(node + 8 := v)\<rparr>)"

definition take_region :: "nat \<Rightarrow> nat \<Rightarrow> nat \<Rightarrow> layout \<Rightarrow> list_allocator \<Rightarrow> (nat \<times> list_allocator) outcome" where
  "take_region prev region alloc_start l s =
     (case checked_add alloc_start (lsize l) of
        None \<Rightarrow> Done (0, s)
      | Some alloc_end \<Rightarrow>
          (case checked_add region (la_mem s region) of
             None \<Rightarrow> Panic (Explicit ''called Option::unwrap() on a None value'')
           | Some region_end \<Rightarrow>
               andthen (usub region_end alloc_end) (\<lambda>excess_size.
                 let nxt = la_mem s (region + 8);
                     s1 = set_next region 0 s
                 in if NODE_SIZE \<le> excess_size
                    then andthen (write_node alloc_end excess_size nxt s1) (\<lambda>s2.
                           Done (alloc_start, set_next prev alloc_end s2))
                    else Done (alloc_start, set_next prev nxt s1))))"

definition list_alloc :: "layout \<Rightarrow> list_allocator \<Rightarrow> (nat \<times> list_allocator) outcome" where
  "list_alloc layout s =
     (if \<not> la_initialized s then Done (0, s)
      else
        case adjust_layout layout of
          None \<Rightarrow> Done (0, s)
        | Some l \<Rightarrow>
            (case find_region (la_mem s) l 0 (la_head s) of
               None \<Rightarrow> Hang
             | Some found \<Rightarrow>
                 andthen found (\<lambda>r.
                   case r of
                     None \<Rightarrow> Done (0, s)
                   | Some (prev, region, alloc_start) \<Rightarrow> take_region prev region alloc_start l s)))"

definition list_dealloc :: "nat \<Rightarrow> layout \<Rightarrow> list_allocator \<Rightarrow> list_allocator outcome" where
  "list_dealloc ptr layout s =
     (if ptr = 0 then Done s
      else
        case adjust_layout layout of
          None \<Rightarrow> Done s
        | Some l \<Rightarrow> add_free_region ptr (lsize l) s)"

text \<open>A client's store to memory.\<close>

definition list_write_word :: "nat \<Rightarrow> nat \<Rightarrow> list_allocator \<Rightarrow> list_allocator" where
  "list_write_word a v s = s\<lparr>la_mem := (la_mem s)(a := v)\<rparr>"

end
