(* ===== verification/List_Alloc_Props.thy ===== *)
theory List_Alloc_Props
  imports List_Alloc Kernel_Heap
begin

text \<open>
  The linked-list allocator keeps the contract of the trait for requests of whole words, and breaks
  it for others: the invariant, the interpretation of \<open>memory_allocator\<close>, and the two defects.
\<close>

section \<open>The free list\<close>

type_synonym region = "nat \<times> nat"

fun span :: "region \<Rightarrow> nat set" where
  "span (a, n) = {a ..< a + n}"

fun region_seg :: "(nat \<Rightarrow> nat) \<Rightarrow> nat \<Rightarrow> region list \<Rightarrow> nat \<Rightarrow> bool" where
  "region_seg mem h [] z \<longleftrightarrow> h = z"
| "region_seg mem h ((a, n) # rs) z \<longleftrightarrow> h = a \<and> a \<noteq> 0 \<and> mem a = n \<and> region_seg mem (mem (a + 8)) rs z"

abbreviation region_chain :: "(nat \<Rightarrow> nat) \<Rightarrow> nat \<Rightarrow> region list \<Rightarrow> bool" where
  "region_chain mem h rs \<equiv> region_seg mem h rs 0"

definition cells_of :: "region list \<Rightarrow> nat set" where
  "cells_of rs = (\<Union>(a, n)\<in>set rs. {a, a + 8})"

lemma cells_of_simps [simp]: "cells_of [] = {}" "cells_of ((a, n) # rs) = {a, a + 8} \<union> cells_of rs"
  "cells_of (rs @ qs) = cells_of rs \<union> cells_of qs"
  by (auto simp: cells_of_def)

lemma region_seg_append:
  "region_seg mem h (as @ bs) z \<longleftrightarrow> (\<exists>m. region_seg mem h as m \<and> region_seg mem m bs z)"
  by (induction mem h as z rule: region_seg.induct) auto

lemma region_seg_cong:
  "region_seg mem h rs z \<Longrightarrow> (\<And>a. a \<in> cells_of rs \<Longrightarrow> mem' a = mem a) \<Longrightarrow> region_seg mem' h rs z"
  by (induction mem h rs z rule: region_seg.induct) auto

text \<open>Disjoint regions large enough for a node.\<close>

definition apart :: "region set \<Rightarrow> bool" where
  "apart B \<longleftrightarrow> (\<forall>x\<in>B. \<forall>y\<in>B. x \<noteq> y \<longrightarrow> span x \<inter> span y = {})"

lemma apartD: "apart B \<Longrightarrow> x \<in> B \<Longrightarrow> y \<in> B \<Longrightarrow> x \<noteq> y \<Longrightarrow> span x \<inter> span y = {}"
  by (simp add: apart_def)

lemma apart_subset: "apart B \<Longrightarrow> C \<subseteq> B \<Longrightarrow> apart C"
  unfolding apart_def by blast

lemma apart_replace:
  assumes "apart (insert r B)" and "r \<notin> B" and "apart D" and "\<And>d. d \<in> D \<Longrightarrow> span d \<subseteq> span r"
  shows "apart (D \<union> B)"
proof -
  have "span d \<inter> span b = {}" if "d \<in> D" "b \<in> B" for d b
  proof -
    have "span r \<inter> span b = {}" using assms(1,2) that by (intro apartD [OF assms(1)]) auto
    then show ?thesis using assms(4) [OF that(1)] by blast
  qed
  then show ?thesis using assms(1,3) unfolding apart_def by (metis Int_commute Un_iff insertCI)
qed

definition wide :: "region \<Rightarrow> bool" where
  "wide r \<longleftrightarrow> fst r mod NODE_ALIGN = 0 \<and> snd r mod NODE_ALIGN = 0 \<and> NODE_SIZE \<le> snd r"

lemma cells_in_span: "wide (a, n) \<Longrightarrow> {a, a + 8} \<subseteq> span (a, n)"
  by (auto simp: wide_def)

lemma cells_of_spans: "\<forall>r\<in>set rs. wide r \<Longrightarrow> x \<in> cells_of rs \<Longrightarrow> \<exists>r\<in>set rs. x \<in> span r"
proof -
  assume w: "\<forall>r\<in>set rs. wide r" and "x \<in> cells_of rs"
  then obtain a n where "(a, n) \<in> set rs" "x \<in> {a, a + 8}" by (auto simp: cells_of_def)
  then show ?thesis using cells_in_span [of a n] w by blast
qed

text \<open>A write inside a block that is apart from the free regions leaves their nodes alone.\<close>

lemma cells_other:
  assumes "\<forall>r\<in>set rs. wide r" and "\<And>r. r \<in> set rs \<Longrightarrow> span r \<inter> X = {}" and "x \<in> X"
  shows "x \<notin> cells_of rs"
  using cells_of_spans [OF assms(1)] assms(2,3) by blast

section \<open>The invariant\<close>

text \<open>What a layout takes, and the requests the allocator can serve: whole words.\<close>

definition asize :: "layout \<Rightarrow> nat" where
  "asize l = max (lsize l) NODE_SIZE"

definition word_layout :: "layout \<Rightarrow> bool" where
  "word_layout l \<longleftrightarrow> lsize l mod 8 = 0 \<and>
     from_size_align (asize l) (max (lalign l) 8) = Some \<lparr>lsize = asize l, lalign = max (lalign l) 8\<rparr> \<and>
     power_of_two (lalign l)"

definition live_regions :: "live_map \<Rightarrow> region set" where
  "live_regions L = {(p, asize l) |p l. L p = Some l}"

definition list_inv :: "nat set \<Rightarrow> list_allocator \<Rightarrow> live_map \<Rightarrow> bool" where
  "list_inv H s L \<longleftrightarrow> la_initialized s \<and> (\<forall>p l. L p = Some l \<longrightarrow> word_layout l) \<and>
     (\<exists>rs. region_chain (la_mem s) (la_head s) rs \<and> distinct rs \<and> set rs \<inter> live_regions L = {} \<and>
        apart (set rs \<union> live_regions L) \<and> (\<forall>r \<in> set rs \<union> live_regions L. wide r \<and> span r \<subseteq> H))"

lemma list_invE:
  assumes "list_inv H s L"
  obtains rs where "la_initialized s" "\<And>p l. L p = Some l \<Longrightarrow> word_layout l"
    "region_chain (la_mem s) (la_head s) rs" "distinct rs" "set rs \<inter> live_regions L = {}"
    "apart (set rs \<union> live_regions L)" "\<And>r. r \<in> set rs \<union> live_regions L \<Longrightarrow> wide r \<and> span r \<subseteq> H"
  using assms unfolding list_inv_def by blast

lemma list_invI:
  "la_initialized s \<Longrightarrow> (\<And>p l. L p = Some l \<Longrightarrow> word_layout l) \<Longrightarrow>
   region_chain (la_mem s) (la_head s) rs \<Longrightarrow> distinct rs \<Longrightarrow> set rs \<inter> live_regions L = {} \<Longrightarrow>
   apart (set rs \<union> live_regions L) \<Longrightarrow> (\<And>r. r \<in> set rs \<union> live_regions L \<Longrightarrow> wide r \<and> span r \<subseteq> H) \<Longrightarrow>
   list_inv H s L"
  unfolding list_inv_def by blast

lemma footprint_span: "footprint p l \<subseteq> span (p, asize l)"
  by (auto simp: footprint_def asize_def)

lemma live_regions_upd: "L p = None \<Longrightarrow> live_regions (L(p \<mapsto> l)) = insert (p, asize l) (live_regions L)"
  by (auto simp: live_regions_def split: if_splits)

lemma live_regions_drop: "L p = Some l \<Longrightarrow> live_regions (L(p := None)) = live_regions L - {(p, asize l)}"
  unfolding live_regions_def by (auto split: if_splits) (metis option.inject)

lemma word_layout_adjust:
  "word_layout l \<Longrightarrow> adjust_layout l = Some \<lparr>lsize = asize l, lalign = max (lalign l) 8\<rparr>"
  by (simp add: word_layout_def adjust_layout_def asize_def)

lemma word_layout_size: "word_layout l \<Longrightarrow> asize l mod 8 = 0 \<and> NODE_SIZE \<le> asize l"
  by (auto simp: word_layout_def asize_def max_def)

lemma live_region_in:
  assumes "list_inv H s L" and "L p = Some l"
  shows "wide (p, asize l) \<and> span (p, asize l) \<subseteq> H"
proof -
  have "(p, asize l) \<in> live_regions L" using assms(2) by (auto simp: live_regions_def)
  then show ?thesis using assms(1) by (elim list_invE) blast
qed

lemma list_write_inv:
  assumes "list_inv H s L" and "L p = Some l" and "a \<in> footprint p l"
  shows "list_inv H (list_write_word a v s) L"
proof -
  from assms(1) obtain rs where rs: "la_initialized s" "\<And>p l. L p = Some l \<Longrightarrow> word_layout l"
    "region_chain (la_mem s) (la_head s) rs" "distinct rs" "set rs \<inter> live_regions L = {}"
    "apart (set rs \<union> live_regions L)" "\<And>r. r \<in> set rs \<union> live_regions L \<Longrightarrow> wide r \<and> span r \<subseteq> H"
    by (rule list_invE) blast
  have live: "(p, asize l) \<in> live_regions L" using assms(2) by (auto simp: live_regions_def)
  have "a \<notin> cells_of rs"
  proof (rule cells_other [where X = "span (p, asize l)"])
    show "a \<in> span (p, asize l)" using assms(3) footprint_span by blast
    show "span r \<inter> span (p, asize l) = {}" if "r \<in> set rs" for r
      using that live rs(5) by (intro apartD [OF rs(6)]) auto
  qed (use rs(7) in blast)
  then have "region_chain (la_mem (list_write_word a v s)) (la_head s) rs"
    by (intro region_seg_cong [OF rs(3)]) (auto simp: list_write_word_def)
  then show ?thesis by (intro list_invI [where rs = rs]) (use rs in \<open>auto simp: list_write_word_def\<close>)
qed

lemma list_dealloc_inv:
  assumes "list_inv H s L" and "L p = Some l" and "0 \<notin> H"
  shows "\<exists>s'. list_dealloc p l s = Done s' \<and> list_inv H s' (L(p := None))"
proof -
  from assms(1) obtain rs where rs: "la_initialized s" "\<And>p l. L p = Some l \<Longrightarrow> word_layout l"
    "region_chain (la_mem s) (la_head s) rs" "distinct rs" "set rs \<inter> live_regions L = {}"
    "apart (set rs \<union> live_regions L)" "\<And>r. r \<in> set rs \<union> live_regions L \<Longrightarrow> wide r \<and> span r \<subseteq> H"
    by (rule list_invE) blast
  have live: "(p, asize l) \<in> live_regions L" using assms(2) by (auto simp: live_regions_def)
  then have p: "wide (p, asize l)" "span (p, asize l) \<subseteq> H" using rs(7) [of "(p, asize l)"] by simp_all
  have "p \<in> span (p, asize l)" using p(1) by (auto simp: wide_def)
  then have p0: "p \<noteq> 0" using p(2) assms(3) by (metis subsetD)
  let ?s = "s\<lparr>la_mem := (la_mem s)(p := asize l, p + 8 := la_head s), la_head := p\<rparr>"
  have run: "list_dealloc p l s = Done ?s"
    using p0 p(1) word_layout_adjust [OF rs(2) [OF assms(2)]]
    by (simp add: list_dealloc_def add_free_region_def write_node_def wide_def)
  have other: "x \<notin> cells_of rs" if "x \<in> {p, p + 8}" for x
  proof (rule cells_other [where X = "span (p, asize l)"])
    show "x \<in> span (p, asize l)" using that cells_in_span [OF p(1)] by blast
    show "span r \<inter> span (p, asize l) = {}" if "r \<in> set rs" for r
      using that live rs(5) by (intro apartD [OF rs(6)]) auto
  qed (use rs(7) in blast)
  have "region_chain (la_mem ?s) (la_head s) rs"
    by (rule region_seg_cong [OF rs(3)]) (use other in auto)
  then have chain: "region_chain (la_mem ?s) (la_head ?s) ((p, asize l) # rs)" using p0 by simp
  note drop = live_regions_drop [of L p l, OF assms(2)]
  have all: "set ((p, asize l) # rs) \<union> live_regions (L(p := None)) = set rs \<union> live_regions L"
    unfolding drop using live by auto
  have "list_inv H ?s (L(p := None))"
  proof (rule list_invI [where rs = "(p, asize l) # rs"], unfold all)
    show "la_initialized ?s" using rs(1) by simp
    show "word_layout l'" if "(L(p := None)) q = Some l'" for q l'
      using that rs(2) [of q l'] by (simp split: if_splits)
    show "distinct ((p, asize l) # rs)" using rs(4,5) live by auto
    show "set ((p, asize l) # rs) \<inter> live_regions (L(p := None)) = {}" unfolding drop using rs(5) by auto
  qed (use chain rs(6,7) in blast)+
  with run show ?thesis by blast
qed

section \<open>Finding a region\<close>

lemma round_up_bounds:
  fixes d :: nat
  assumes "0 < d"
  shows "a \<le> (a + d - 1) div d * d" and "(a + d - 1) div d * d < a + d"
proof -
  have "(a + d - 1) div d * d + (a + d - 1) mod d = a + d - 1" by (rule div_mult_mod_eq)
  moreover have "(a + d - 1) mod d < d" using assms by simp
  ultimately show "a \<le> (a + d - 1) div d * d" and "(a + d - 1) div d * d < a + d" using assms by linarith+
qed

lemma round_up_exact:
  fixes d :: nat
  assumes "d dvd a" and "0 < d"
  shows "(a + d - 1) div d * d = a"
proof -
  obtain k where k: "a = d * k" using assms(1) by (elim dvdE)
  have "a + d - 1 = (d - 1) + d * k" using assms(2) k by simp
  then have "(a + d - 1) div d = (d - 1) div d + k" using assms(2) by (simp only: div_mult_self2 neq0_conv add.commute)
  then show ?thesis using assms(2) k by (simp add: mult.commute)
qed

abbreviation HALF :: nat where "HALF \<equiv> 9223372036854775808"

lemma power_below_half: "power_of_two d \<Longrightarrow> d \<le> HALF \<Longrightarrow> \<exists>k. d = 2 ^ k \<and> k < 64"
proof -
  assume "power_of_two d" and d: "d \<le> HALF"
  then obtain k where k: "d = 2 ^ k" by (auto simp: power_of_two_iff)
  have "k < 64"
  proof (rule ccontr)
    assume "\<not> k < 64"
    then have "(2 :: nat) ^ 64 \<le> 2 ^ k" by (intro power_increasing) simp_all
    then show False using d k by simp
  qed
  with k show ?thesis by blast
qed

lemma heap_align_up_eq:
  assumes "power_of_two d" and "d \<le> HALF" and "a < HALF"
  shows "heap_align_up a d = Done ((a + d - 1) div d * d)"
proof -
  obtain k where k: "d = 2 ^ k" "k < 64" using power_below_half [OF assms(1,2)] by blast
  then have "0 < d" by simp
  then show ?thesis
    using assms align_mask_eq [of "a + d - 1" k] k
    by (simp add: heap_align_up_def usub_def Suc_le_eq)
qed

definition fits :: "nat \<Rightarrow> nat \<Rightarrow> layout \<Rightarrow> nat \<Rightarrow> bool" where
  "fits r n l st \<longleftrightarrow> r \<le> st \<and> st mod lalign l = 0 \<and> st + lsize l \<le> r + n \<and>
     (r + n = st + lsize l \<or> NODE_SIZE \<le> r + n - (st + lsize l))"

lemma alloc_from_region_returns:
  assumes "power_of_two (lalign l)" and "lalign l \<le> HALF" and "r < HALF" and "r + n < usize_lim"
  shows "\<exists>f. alloc_from_region r n l = Done f \<and> (\<forall>st. f = Some st \<longrightarrow> fits r n l st)"
proof -
  let ?st = "(r + lalign l - 1) div lalign l * lalign l"
  have d: "0 < lalign l" using assms(1) by (auto simp: power_of_two_iff)
  then show ?thesis
    using assms(4) round_up_bounds(1) [OF d, of r]
    by (auto simp: alloc_from_region_def heap_align_up_eq [OF assms(1-3)] fits_def checked_add_def Let_def)
qed

definition last_or :: "nat \<Rightarrow> region list \<Rightarrow> nat" where
  "last_or p as = (if as = [] then p else fst (last as))"

lemma find_region_returns:
  assumes "power_of_two (lalign l)" and "lalign l \<le> HALF" and "region_chain mem h rs"
    and "\<And>a n. (a, n) \<in> set rs \<Longrightarrow> a < HALF \<and> a + n < usize_lim"
  shows "find_region mem l p h = Some (Done None) \<or>
    (\<exists>as r n bs st. rs = as @ (r, n) # bs \<and> fits r n l st \<and>
       find_region mem l p h = Some (Done (Some (last_or p as, r, st))))"
  using assms(3,4)
proof (induction rs arbitrary: p h)
  case Nil
  then show ?case by (simp add: find_region.simps)
next
  case (Cons q rs)
  obtain a n where q: "q = (a, n)" by (cases q)
  have h: "h = a" "a \<noteq> 0" "mem a = n" "region_chain mem (mem (a + 8)) rs" using Cons.prems(1) q by simp_all
  obtain f where f: "alloc_from_region a n l = Done f" "\<forall>st. f = Some st \<longrightarrow> fits a n l st"
    using alloc_from_region_returns [OF assms(1,2), of a n] Cons.prems(2) [of a n] q by auto
  show ?case
  proof (cases f)
    case (Some st)
    then have "find_region mem l p h = Some (Done (Some (last_or p [], a, st)))"
      using f h Some by (subst find_region.simps) (simp add: last_or_def)
    then show ?thesis using q f(2) Some by (metis append_Nil)
  next
    case None
    then have eq: "find_region mem l p h = find_region mem l a (mem (a + 8))"
      using f h None by (subst find_region.simps) simp
    have "find_region mem l a (mem (a + 8)) = Some (Done None) \<or>
      (\<exists>as r n bs st. rs = as @ (r, n) # bs \<and> fits r n l st \<and>
         find_region mem l a (mem (a + 8)) = Some (Done (Some (last_or a as, r, st))))"
      by (rule Cons.IH [OF h(4)], rule Cons.prems(2), simp)
    then show ?thesis
    proof (elim disjE exE conjE)
      fix as r k bs st
      assume "rs = as @ (r, k) # bs" "fits r k l st"
        "find_region mem l a (mem (a + 8)) = Some (Done (Some (last_or a as, r, st)))"
      moreover have "last_or a as = last_or p (q # as)" by (simp add: last_or_def q)
      ultimately show ?thesis by (metis append_Cons eq)
    qed (auto simp: eq)
  qed
qed

section \<open>Taking a region\<close>

lemma seg_frame:
  assumes "region_seg mem h rs z" and "\<forall>r\<in>set rs. wide r" and "\<And>r. r \<in> set rs \<Longrightarrow> span r \<inter> X = {}"
    and "\<And>a. a \<notin> X \<Longrightarrow> mem' a = mem a"
  shows "region_seg mem' h rs z"
  using cells_other [OF assms(2,3)] assms(4) by (intro region_seg_cong [OF assms(1)]) blast

lemma relink:
  assumes "region_seg (la_mem s) (la_head s) as z" and "\<forall>r\<in>set as. wide r" and "distinct as"
    and "apart (set as)"
  shows "region_seg (la_mem (set_next (last_or 0 as) v s)) (la_head (set_next (last_or 0 as) v s)) as v"
proof (cases as rule: rev_cases)
  case (snoc bs q)
  obtain a n where q: "q = (a, n)" by (cases q)
  have seg: "region_seg (la_mem s) (la_head s) bs a" "a \<noteq> 0" "la_mem s a = n"
    using assms(1) by (auto simp: snoc q region_seg_append)
  let ?s = "set_next a v s"
  have s: "last_or 0 as = a" "la_mem ?s = (la_mem s)(a + 8 := v)" "la_head ?s = la_head s"
    using seg(2) by (simp_all add: last_or_def snoc q set_next_def)
  have "region_seg (la_mem ?s) (la_head s) bs a"
  proof (rule seg_frame [OF seg(1), where X = "span (a, n)"])
    show "span r \<inter> span (a, n) = {}" if "r \<in> set bs" for r
      using that assms(3) by (intro apartD [OF assms(4)]) (auto simp: snoc q)
    have "wide (a, n)" using assms(2) by (simp add: snoc q)
    then have "a + 8 \<in> span (a, n)" using cells_in_span by blast
    then show "la_mem ?s x = la_mem s x" if "x \<notin> span (a, n)" for x using that s(2) by auto
  qed (use assms(2) in \<open>simp add: snoc\<close>)
  then show ?thesis using s seg(2,3) by (auto simp: snoc q region_seg_append)
qed (simp add: last_or_def set_next_def)

definition remainder :: "nat \<Rightarrow> nat \<Rightarrow> layout \<Rightarrow> nat \<Rightarrow> region list" where
  "remainder r n l st =
     (if r + n = st + lsize l then [] else [(st + lsize l, r + n - (st + lsize l))])"

lemma relink_region:
  assumes seg: "region_seg (la_mem s) (la_head s) as z" and chain: "region_chain mem1 v cs"
    and mem1: "\<And>a. a \<notin> span (r, n) \<Longrightarrow> mem1 a = la_mem s a"
    and wide: "\<forall>q\<in>set (as @ (r, n) # cs). wide q" and dist: "distinct as" and apart: "apart (set as)"
    and sep: "\<And>q. q \<in> set as \<Longrightarrow> span q \<inter> span (r, n) = {}"
    and sep': "\<And>q q'. q \<in> set as \<Longrightarrow> q' \<in> set cs \<Longrightarrow> span q' \<inter> span q = {}"
    and s': "s' = set_next (last_or 0 as) v (s\<lparr>la_mem := mem1\<rparr>)"
  shows "region_chain (la_mem s') (la_head s') (as @ cs)"
proof -
  let ?s1 = "s\<lparr>la_mem := mem1\<rparr>"
  have "region_seg mem1 (la_head s) as z"
    by (rule seg_frame [OF seg, where X = "span (r, n)"]) (use wide sep mem1 in auto)
  then have "region_seg (la_mem s') (la_head s') as v"
    unfolding s' by (intro relink [where z = z]) (use wide dist apart in auto)
  moreover have "region_chain (la_mem s') v cs"
  proof (cases as rule: rev_cases)
    case (snoc bs q)
    obtain a k where q: "q = (a, k)" by (cases q)
    show ?thesis
    proof (rule seg_frame [OF chain, where X = "span q"])
      have "wide (a, k)" using wide by (simp add: snoc q)
      then have "a + 8 \<in> span (a, k)" using cells_in_span by blast
      then show "la_mem s' x = mem1 x" if "x \<notin> span q" for x
        using that by (auto simp: s' set_next_def last_or_def snoc q)
    qed (use wide sep' snoc in auto)
  qed (use chain in \<open>simp add: s' set_next_def last_or_def\<close>)
  ultimately show ?thesis by (auto simp: region_seg_append)
qed

lemma take_region_chain:
  assumes chain: "region_chain (la_mem s) (la_head s) (as @ (r, n) # bs)"
    and wide: "\<forall>q\<in>set (as @ (r, n) # bs). wide q" and dist: "distinct (as @ (r, n) # bs)"
    and apart: "apart (set (as @ (r, n) # bs))" and fits: "fits r n l st" and lim: "r + n < usize_lim"
    and word: "st mod 8 = 0" "lsize l mod 8 = 0" "NODE_SIZE \<le> lsize l"
  shows "\<exists>s'. take_region (last_or 0 as) r st l s = Done (st, s') \<and> la_initialized s' = la_initialized s \<and>
    region_chain (la_mem s') (la_head s') (as @ remainder r n l st @ bs)"
proof -
  let ?e = "st + lsize l"
  have seg: "region_seg (la_mem s) (la_head s) as r" and r: "r \<noteq> 0" "la_mem s r = n"
    and tail: "region_chain (la_mem s) (la_mem s (r + 8)) bs" using chain by (auto simp: region_seg_append)
  have ft: "r \<le> st" "?e \<le> r + n" "r + n = ?e \<or> NODE_SIZE \<le> r + n - ?e" using fits by (auto simp: fits_def)
  have r8: "r + 8 \<in> span (r, n)" using wide cells_in_span [of r n] by auto
  have sep: "span q \<inter> span q' = {}" if "q \<in> set (as @ (r, n) # bs)" "q' \<in> set (as @ (r, n) # bs)" "q \<noteq> q'" for q q'
    using apartD [OF apart that] .
  have sub: "distinct as" "apart (set as)" "(r, n) \<notin> set as" "(r, n) \<notin> set bs" "set as \<inter> set bs = {}"
    using dist apart_subset [OF apart] by auto
  have wides: "\<forall>q\<in>set bs. wide q" "wide (r, n)" "\<forall>q\<in>set as. wide q" using wide by simp_all
  have sepa: "span q \<inter> span (r, n) = {}" if "q \<in> set as" for q using that sub(3) by (intro sep) auto
  have sepb: "span q \<inter> span (r, n) = {}" if "q \<in> set bs" for q using that sub(4) by (intro sep) auto
  have sepab: "span q' \<inter> span q = {}" if "q \<in> set as" "q' \<in> set bs" for q q' using that sub(5) by (intro sep) auto
  note frame = relink_region [OF seg _ _ _ sub(1,2)]
  show ?thesis
  proof (cases "r + n = ?e")
    case True
    let ?mem = "(la_mem s)(r + 8 := 0)" and ?v = "la_mem s (r + 8)"
    let ?s = "set_next (last_or 0 as) ?v (s\<lparr>la_mem := ?mem\<rparr>)"
    have "take_region (last_or 0 as) r st l s = Done (st, ?s)"
      using True r lim by (simp add: take_region_def set_next_def Let_def checked_add_def usub_def)
    moreover have out: "?mem a = la_mem s a" if "a \<notin> span (r, n)" for a using that r8 by auto
    have "region_chain ?mem ?v bs" by (rule seg_frame [OF tail wides(1) sepb out])
    then have "region_chain (la_mem ?s) (la_head ?s) (as @ bs)"
    proof (rule frame)
      show "?mem a = la_mem s a" if "a \<notin> span (r, n)" for a using that by (rule out)
      show "span q \<inter> span (r, n) = {}" if "q \<in> set as" for q using that by (rule sepa)
      show "span q' \<inter> span q = {}" if "q \<in> set as" "q' \<in> set bs" for q q' using that by (rule sepab)
    qed (use wides in \<open>simp_all add: ball_Un\<close>)
    ultimately show ?thesis using True by (auto simp: remainder_def set_next_def)
  next
    case False
    let ?x = "r + n - ?e"
    let ?mem = "((la_mem s)(r + 8 := 0))(?e := ?x, ?e + 8 := la_mem s (r + 8))"
    let ?s = "set_next (last_or 0 as) ?e (s\<lparr>la_mem := ?mem\<rparr>)"
    have x: "NODE_SIZE \<le> ?x" using ft False by simp
    have e8: "?e mod 8 = 0" "?e \<noteq> 0" using word by (auto simp: mod_eq_0_iff_dvd)
    have w: "wide (?e, ?x)" using wides(2) e8(1) x ft(2) by (auto simp: wide_def mod_eq_0_iff_dvd)
    have inx: "span (?e, ?x) \<subseteq> span (r, n)" using ft by auto
    have "take_region (last_or 0 as) r st l s = Done (st, ?s)"
      using x e8 r lim ft by (simp add: take_region_def write_node_def set_next_def Let_def checked_add_def usub_def)
    moreover have out: "?mem a = la_mem s a" if "a \<notin> span (r, n)" for a
      using that r8 subsetD [OF inx] cells_in_span [OF w] by auto
    have "region_chain ?mem (la_mem s (r + 8)) bs" by (rule seg_frame [OF tail wides(1) sepb out])
    then have "region_chain ?mem ?e ((?e, ?x) # bs)" using e8 by simp
    then have "region_chain (la_mem ?s) (la_head ?s) (as @ (?e, ?x) # bs)"
    proof (rule frame)
      show "?mem a = la_mem s a" if "a \<notin> span (r, n)" for a using that by (rule out)
      show "span q \<inter> span (r, n) = {}" if "q \<in> set as" for q using that by (rule sepa)
      show "span q' \<inter> span q = {}" if "q \<in> set as" "q' \<in> set ((?e, ?x) # bs)" for q q'
        using that sepa [of q] sepab [of q q'] inx by (cases "q' = (?e, ?x)") (blast, simp)
    qed (use wides w in \<open>simp_all add: ball_Un\<close>)
    ultimately show ?thesis using False by (auto simp: remainder_def set_next_def)
  qed
qed

section \<open>Allocating\<close>

lemma power_dvd:
  assumes "power_of_two a" and "power_of_two b" and "a \<le> b"
  shows "a dvd b"
proof -
  obtain i j where i: "a = 2 ^ i" "b = 2 ^ j" using assms by (auto simp: power_of_two_iff)
  then have "i \<le> j" using assms(3) by simp
  then show ?thesis using i by (simp add: le_imp_power_dvd)
qed

lemma power_eight: "power_of_two 8"
  unfolding power_of_two_iff by (rule exI [of _ 3]) simp

lemma word_layout_adjusted:
  assumes "word_layout l"
  shows "power_of_two (max (lalign l) 8)" and "max (lalign l) 8 \<le> HALF"
    and "8 dvd max (lalign l) 8" and "lalign l dvd max (lalign l) 8"
proof -
  show p: "power_of_two (max (lalign l) 8)"
    using assms by (auto simp: word_layout_def from_size_align_def split: if_splits)
  show "max (lalign l) 8 \<le> HALF"
    using assms by (auto simp: word_layout_def from_size_align_def asize_def split: if_splits)
  show "8 dvd max (lalign l) 8" by (rule power_dvd [OF power_eight p]) simp
  show "lalign l dvd max (lalign l) 8"
    by (rule power_dvd [OF _ p]) (use assms in \<open>simp_all add: word_layout_def\<close>)
qed

text \<open>What taking a region does to the sets of regions: the block and the rest come out of it.\<close>

lemma carve:
  assumes ap: "apart (set (as @ (r, n) # bs) \<union> V)" and dist: "distinct (as @ (r, n) # bs)"
    and new: "set (as @ (r, n) # bs) \<inter> V = {}" and w: "wide (r, n)"
    and fits: "fits r n l st" and word: "st mod 8 = 0" "lsize l mod 8 = 0" "NODE_SIZE \<le> lsize l"
  shows "apart (set (as @ remainder r n l st @ bs) \<union> insert (st, lsize l) V)"
    and "distinct (as @ remainder r n l st @ bs)"
    and "set (as @ remainder r n l st @ bs) \<inter> insert (st, lsize l) V = {}"
    and "\<forall>d \<in> insert (st, lsize l) (set (remainder r n l st)). wide d \<and> span d \<subseteq> span (r, n)"
    and "(st, lsize l) \<notin> set as \<union> set bs \<union> V"
proof -
  let ?D = "insert (st, lsize l) (set (remainder r n l st))" and ?B = "set as \<union> set bs \<union> V"
  have ft: "r \<le> st" "st + lsize l \<le> r + n" "r + n = st + lsize l \<or> NODE_SIZE \<le> r + n - (st + lsize l)"
    using fits by (auto simp: fits_def)
  show D: "\<forall>d \<in> ?D. wide d \<and> span d \<subseteq> span (r, n)"
    using ft w word by (auto simp: remainder_def wide_def mod_eq_0_iff_dvd)
  have rB: "(r, n) \<notin> ?B" using dist new by auto
  have "insert (r, n) ?B = set (as @ (r, n) # bs) \<union> V" by auto
  then have apB: "apart (insert (r, n) ?B)" using ap by simp
  have apD: "apart ?D" by (auto simp: apart_def remainder_def)
  have apDB: "apart (?D \<union> ?B)" by (rule apart_replace [OF apB rB apD]) (use D in blast)
  have DB: "d \<notin> ?B" if "d \<in> ?D" for d
  proof
    assume "d \<in> ?B"
    then have "span (r, n) \<inter> span d = {}" using rB by (intro apartD [OF apB]) auto
    moreover have "wide d" "span d \<subseteq> span (r, n)" using D that by auto
    moreover have "fst d \<in> span d" using \<open>wide d\<close> by (cases d) (simp add: wide_def)
    ultimately show False by blast
  qed
  show "(st, lsize l) \<notin> set as \<union> set bs \<union> V" by (rule DB) simp
  have "set (as @ remainder r n l st @ bs) \<union> insert (st, lsize l) V = ?D \<union> ?B" by auto
  then show "apart (set (as @ remainder r n l st @ bs) \<union> insert (st, lsize l) V)" using apDB by simp
  have rem: "distinct (remainder r n l st)" "(st, lsize l) \<notin> set (remainder r n l st)"
    using word by (auto simp: remainder_def)
  have "set (remainder r n l st) \<inter> ?B = {}" using DB by blast
  then show "distinct (as @ remainder r n l st @ bs)" using rem dist by auto
  show "set (as @ remainder r n l st @ bs) \<inter> insert (st, lsize l) V = {}"
    using \<open>set (remainder r n l st) \<inter> ?B = {}\<close> DB [of "(st, lsize l)"] rem(2) new by auto
qed

lemma list_alloc_inv:
  assumes inv: "list_inv H s L" and H: "H \<subseteq> {0 <..< HALF}" and l: "word_layout l"
  shows "\<exists>p s'. list_alloc l s = Done (p, s') \<and> (p = 0 \<longrightarrow> s' = s) \<and>
    (p \<noteq> 0 \<longrightarrow> L p = None \<and> list_inv H s' (L(p \<mapsto> l)) \<and> p mod lalign l = 0)"
proof -
  from inv obtain rs where rs: "la_initialized s" "\<And>p l. L p = Some l \<Longrightarrow> word_layout l"
    "region_chain (la_mem s) (la_head s) rs" "distinct rs" "set rs \<inter> live_regions L = {}"
    "apart (set rs \<union> live_regions L)" "\<And>r. r \<in> set rs \<union> live_regions L \<Longrightarrow> wide r \<and> span r \<subseteq> H"
    by (rule list_invE) blast
  let ?l = "\<lparr>lsize = asize l, lalign = max (lalign l) 8\<rparr>"
  note adj = word_layout_adjusted [OF l] and size = word_layout_size [OF l]
  have lim: "a < HALF \<and> a + n < usize_lim \<and> a \<noteq> 0" if "(a, n) \<in> set rs" for a n
  proof -
    have w: "wide (a, n)" "span (a, n) \<subseteq> H" using rs(7) [of "(a, n)"] that by simp_all
    then have "a \<in> span (a, n)" "a + n - 1 \<in> span (a, n)" by (auto simp: wide_def)
    then have "a \<in> {0 <..< HALF}" "a + n - 1 \<in> {0 <..< HALF}" using w(2) H by blast+
    then show ?thesis by auto
  qed
  have run: "list_alloc l s = (case find_region (la_mem s) ?l 0 (la_head s) of None \<Rightarrow> Hang
      | Some found \<Rightarrow> andthen found (\<lambda>r. case r of None \<Rightarrow> Done (0, s)
          | Some (prev, region, alloc_start) \<Rightarrow> take_region prev region alloc_start ?l s))"
    using rs(1) by (simp add: list_alloc_def word_layout_adjust [OF l])
  have "find_region (la_mem s) ?l 0 (la_head s) = Some (Done None) \<or>
    (\<exists>as r n bs st. rs = as @ (r, n) # bs \<and> fits r n ?l st \<and>
       find_region (la_mem s) ?l 0 (la_head s) = Some (Done (Some (last_or 0 as, r, st))))"
    by (rule find_region_returns [OF _ _ rs(3)]) (use adj lim in auto)
  then show ?thesis
  proof (elim disjE exE conjE)
    assume "find_region (la_mem s) ?l 0 (la_head s) = Some (Done None)"
    then show ?thesis using run by simp
  next
    fix as r n bs st
    assume split: "rs = as @ (r, n) # bs" and fits: "fits r n ?l st"
      and found: "find_region (la_mem s) ?l 0 (la_head s) = Some (Done (Some (last_or 0 as, r, st)))"
    have al: "max (lalign l) 8 dvd st" using fits by (simp add: fits_def mod_eq_0_iff_dvd)
    have st8: "st mod 8 = 0" "st mod lalign l = 0"
      using dvd_trans [OF adj(3) al] dvd_trans [OF adj(4) al] by (simp_all add: mod_eq_0_iff_dvd)
    have st0: "st \<noteq> 0" using lim [of r n] fits by (simp add: split fits_def)
    have w: "wide (r, n)" "span (r, n) \<subseteq> H" using rs(7) [of "(r, n)"] by (simp_all add: split)
    have wide: "\<forall>q\<in>set (as @ (r, n) # bs). wide q"
      unfolding split [symmetric] using rs(7) by blast
    have apart: "apart (set (as @ (r, n) # bs))" 
      unfolding split [symmetric] by (rule apart_subset [OF rs(6)]) simp
    have rn: "r + n < usize_lim" using lim [of r n] by (simp add: split)
    obtain s' where s': "take_region (last_or 0 as) r st ?l s = Done (st, s')" "la_initialized s' = la_initialized s"
      "region_chain (la_mem s') (la_head s') (as @ remainder r n ?l st @ bs)"
      using take_region_chain [OF rs(3)[unfolded split] wide rs(4)[unfolded split] apart fits rn st8(1)] size by auto
    have cv: "apart (set (as @ remainder r n ?l st @ bs) \<union> insert (st, asize l) (live_regions L))"
      "distinct (as @ remainder r n ?l st @ bs)"
      "set (as @ remainder r n ?l st @ bs) \<inter> insert (st, asize l) (live_regions L) = {}"
      "\<forall>d \<in> insert (st, asize l) (set (remainder r n ?l st)). wide d \<and> span d \<subseteq> span (r, n)"
      using carve [OF rs(6,4,5)[unfolded split] w(1) fits st8(1)] size by simp_all
    have fresh: "L st = None"
    proof (rule ccontr)
      assume "L st \<noteq> None"
      then obtain l' where "(st, asize l') \<in> live_regions L" by (auto simp: live_regions_def)
      then have q: "(st, asize l') \<in> set rs \<union> live_regions L" "(st, asize l') \<noteq> (r, n)"
        using rs(5) by (auto simp: split)
      then have "span (r, n) \<inter> span (st, asize l') = {}"
        by (intro apartD [OF rs(6)]) (auto simp: split)
      moreover have "st \<in> span (st, asize l')" using rs(7) [OF q(1)] by (simp add: wide_def)
      moreover have "st \<in> span (r, n)" using fits size by (auto simp: fits_def)
      ultimately show False by blast
    qed
    have "list_inv H s' (L(st \<mapsto> l))"
    proof (rule list_invI [where rs = "as @ remainder r n ?l st @ bs"], unfold live_regions_upd [of L st l, OF fresh])
      show "la_initialized s'" using s'(2) rs(1) by simp
      show "word_layout l'" if "(L(st \<mapsto> l)) p = Some l'" for p l'
        using that rs(2) [of p l'] l by (simp split: if_splits)
      show "wide q \<and> span q \<subseteq> H"
        if "q \<in> set (as @ remainder r n ?l st @ bs) \<union> insert (st, asize l) (live_regions L)" for q
      proof (cases "q \<in> insert (st, asize l) (set (remainder r n ?l st))")
        case True
        then show ?thesis using cv(4) w(2) by blast
      next
        case False
        then have "q \<in> set rs \<union> live_regions L" using that by (auto simp: split)
        then show ?thesis by (rule rs(7))
      qed
    qed (use s'(3) cv(1-3) in blast)+
    then show ?thesis using run found s'(1) st0 st8(2) fresh by simp
  qed
qed

section \<open>The contract\<close>

text \<open>The kernel's own heap range.\<close>

lemma kernel_heap_low: "kernel_heap \<subseteq> {0 <..< HALF}"
  by (auto simp: kernel_heap_def)

interpretation ll: memory_allocator list_alloc list_dealloc list_write_word word_layout "list_inv kernel_heap"
proof
  fix s L l assume inv: "list_inv kernel_heap s L" and l: "word_layout l"
  note a = list_alloc_inv [OF inv kernel_heap_low l]
  show "\<exists>p s'. list_alloc l s = Done (p, s')" using a by blast
  show "list_alloc l s = Done (0, s') \<Longrightarrow> list_inv kernel_heap s' L" for s' using a inv by auto
  show "list_alloc l s = Done (p, s') \<Longrightarrow> p \<noteq> 0 \<Longrightarrow> L p = None \<and> list_inv kernel_heap s' (L(p \<mapsto> l))" for p s'
    using a by auto
next
  fix s L p l assume inv: "list_inv kernel_heap s L" and l: "L p = Some l"
  show "\<exists>s'. list_dealloc p l s = Done s' \<and> list_inv kernel_heap s' (L(p := None))"
    by (rule list_dealloc_inv [OF inv l]) (simp add: kernel_heap_def)
  show "a \<in> footprint p l \<Longrightarrow> list_inv kernel_heap (list_write_word a v s) L" for a v
    by (rule list_write_inv [OF inv l])
next
  fix s L p l q l' assume inv: "list_inv kernel_heap s L" and lp: "L p = Some l" "L q = Some l'" "p \<noteq> q"
  then have "(p, asize l) \<in> live_regions L" "(q, asize l') \<in> live_regions L" by (auto simp: live_regions_def)
  moreover have "apart (live_regions L)" using inv apart_subset by (auto elim!: list_invE)
  ultimately have "span (p, asize l) \<inter> span (q, asize l') = {}" using lp(3) by (intro apartD) auto
  then show "footprint p l \<inter> footprint q l' = {}" using footprint_span by blast
next
  fix s L assume inv: "list_inv kernel_heap s L"
  show "L 0 = None"
  proof (rule ccontr)
    assume "L 0 \<noteq> None"
    then obtain l where "L 0 = Some l" by blast
    from live_region_in [OF inv this] show False by (auto simp: kernel_heap_def wide_def)
  qed
qed

section \<open>Properties\<close>

definition fresh_list_heap :: "list_allocator \<Rightarrow> list_allocator" where
  "fresh_list_heap s = s\<lparr>la_initialized := True,
     la_mem := (la_mem s)(HEAP_START := HEAP_SIZE, HEAP_START + 8 := la_head s), la_head := HEAP_START\<rparr>"

lemma list_init_kernel_heap: "list_init HEAP_START HEAP_SIZE s = Done (fresh_list_heap s)"
  by (simp add: list_init_def add_free_region_def write_node_def fresh_list_heap_def)

lemma list_init_inv:
  assumes "list_init HEAP_START HEAP_SIZE (list_new mem) = Done s"
  shows "list_inv kernel_heap s Map.empty"
proof -
  have s: "s = fresh_list_heap (list_new mem)" using assms by (simp add: list_init_kernel_heap)
  show ?thesis
    by (rule list_invI [where rs = "[(HEAP_START, HEAP_SIZE)]"])
      (simp_all add: s fresh_list_heap_def list_new_def live_regions_def apart_def wide_def kernel_heap_def)
qed

text \<open>
  C15. The linked-list allocator keeps the trait's contract for requests of whole words: after any
  history of a client that frees only what it holds and writes only inside its blocks, an allocation
  returns (null or a pointer aligned as requested), a held block can be freed, lies in the heap, and
  overlaps no other.
\<close>

theorem list_heap_clients_safe:
  assumes "list_init HEAP_START HEAP_SIZE (list_new mem) = Done s"
    and "client_run list_alloc list_dealloc list_write_word word_layout (s, Map.empty) (s', L)"
  shows "(\<forall>l. word_layout l \<longrightarrow> (\<exists>p s2. list_alloc l s' = Done (p, s2) \<and> p mod lalign l = 0)) \<and>
    (\<forall>p l. L p = Some l \<longrightarrow> (\<exists>s2. list_dealloc p l s' = Done s2) \<and> footprint p l \<subseteq> kernel_heap) \<and>
    (\<forall>p q l l'. L p = Some l \<longrightarrow> L q = Some l' \<longrightarrow> p \<noteq> q \<longrightarrow> footprint p l \<inter> footprint q l' = {})"
proof -
  note init = list_init_inv [OF assms(1)]
  have inv: "list_inv kernel_heap s' L" using ll.run_invar [OF assms(2)] init by simp
  have "\<exists>p s2. list_alloc l s' = Done (p, s2) \<and> p mod lalign l = 0" if "word_layout l" for l
    using list_alloc_inv [OF inv kernel_heap_low that] by fastforce
  moreover have "footprint p l \<subseteq> kernel_heap" if "L p = Some l" for p l
    using live_region_in [OF inv that] footprint_span by blast
  ultimately show ?thesis using ll.run_never_fails [OF assms(2) init] ll.run_disjoint [OF assms(2) init] by blast
qed

lemma sample_word_layout: "word_layout \<lparr>lsize = 24, lalign = 8\<rparr>"
  using power_eight by (simp add: word_layout_def asize_def from_size_align_def)

theorem list_heap_clients_safe_witness:
  "\<exists>s p s2. list_init HEAP_START HEAP_SIZE (list_new (\<lambda>_. 0)) = Done s \<and>
     list_alloc \<lparr>lsize = 24, lalign = 8\<rparr> s = Done (p, s2) \<and> p mod 8 = 0"
  using list_heap_clients_safe [OF list_init_kernel_heap client_run.stop] sample_word_layout
    list_init_kernel_heap by (metis layout.select_convs(2))



end
