(* ===== verification/Buddy_Coalesce.thy ===== *)
theory Buddy_Coalesce
  imports Kernel_Heap
begin

text \<open>
  Merging is complete: two free buddies never lie side by side unmerged (\<open>reduced\<close>, kept by every
  allocation and release, below the order at which the heap starts with such a pair). So, once
  everything is given back, the kernel heap consists of blocks of at least 256 KiB again, and nothing
  a client did can fragment it for good. \<open>capacity\<close> counts the requests of an order that are sure to
  succeed; every allocation takes one, a release gives at least what it holds.
\<close>

section \<open>No unmerged buddies\<close>

definition reduced :: "nat \<Rightarrow> nat \<Rightarrow> flists \<Rightarrow> bool" where
  "reduced st n F \<longleftrightarrow> (\<forall>k < n. \<forall>a \<in> set (F k). st \<le> a \<and> xbuddy st k a \<notin> set (F k))"

lemma xbuddy_twice: "st \<le> a \<Longrightarrow> xbuddy st k (xbuddy st k a) = a"
  by (simp add: xbuddy_def xor.assoc)

lemma xbuddy_differs: "xbuddy st k a \<noteq> a \<or> a < st"
proof (cases "st \<le> a")
  case True
  then show ?thesis using xbuddy_adjacent [OF True, of k] by auto
qed simp

lemma reduced_take: "reduced st n F \<Longrightarrow> set xs \<subseteq> set (F k) \<Longrightarrow> reduced st n (F(k := xs))"
  by (auto simp: reduced_def)

lemma reduced_push:
  assumes "reduced st n F" and "st \<le> a" and "k < n \<longrightarrow> xbuddy st k a \<notin> set (F k)"
  shows "reduced st n (F(k := a # F k))"
  unfolding reduced_def
proof (intro allI impI ballI)
  fix j b assume j: "j < n" and b: "b \<in> set ((F(k := a # F k)) j)"
  show "st \<le> b \<and> xbuddy st j b \<notin> set ((F(k := a # F k)) j)"
  proof (cases "j = k")
    case True
    show ?thesis
    proof (cases "b = a")
      case True
      then show ?thesis using assms j \<open>j = k\<close> xbuddy_differs [of st k a] by auto
    next
      case False
      then have "b \<in> set (F k)" using b True by simp
      moreover from this have "st \<le> b" "xbuddy st k b \<notin> set (F k)"
        using assms(1) j True by (auto simp: reduced_def)
      moreover have "xbuddy st k b \<noteq> a"
        using xbuddy_twice [OF \<open>st \<le> b\<close>, of k] calculation(1) assms(3) j True by auto
      ultimately show ?thesis using True by simp
    qed
  next
    case False
    then show ?thesis using assms(1) b j by (simp add: reduced_def)
  qed
qed

text \<open>Splitting only touches orders from the requested one upwards, and only lists that were empty.\<close>

lemma spec_allocate_below: "spec_allocate m k F = (r, F') \<Longrightarrow> j < k \<Longrightarrow> F' j = F j"
proof (induction m k F arbitrary: r F' rule: spec_allocate.induct)
  case (1 m k F)
  consider "m < k" | (pop) a as where "k \<le> m" "F k = a # as" | (split) "k \<le> m" "F k = []"
    by (metis list.exhaust linorder_not_less)
  then show ?case
  proof cases
    case split
    obtain r2 F2 where rec: "spec_allocate m (k + 1) F = (r2, F2)" by fastforce
    have "F2 j = F j" by (rule "1.IH" [OF _ split(2) rec]) (use split(1) "1.prems"(2) in simp_all)
    then show ?thesis
      using "1.prems" rec split by (auto simp: spec_allocate_branches split: option.splits)
  qed (use "1.prems" in \<open>auto simp: spec_allocate_branches\<close>)
qed

lemma spec_allocate_reduced:
  assumes "reduced st n F" and "spec_allocate m k F = (r, F')" and "\<And>j b. b \<in> set (F j) \<Longrightarrow> st \<le> b"
  shows "reduced st n F' \<and> (\<forall>a. r = Some a \<longrightarrow> st \<le> a) \<and> (\<forall>j. \<forall>b \<in> set (F' j). st \<le> b)"
  using assms
proof (induction m k F arbitrary: r F' rule: spec_allocate.induct)
  case (1 m k F)
  consider "m < k" | (pop) a as where "k \<le> m" "F k = a # as" | (split) "k \<le> m" "F k = []"
    by (metis list.exhaust linorder_not_less)
  then show ?case
  proof cases
    case 1
    then show ?thesis using "1.prems" by (auto simp: spec_allocate_branches)
  next
    case pop
    have "reduced st n (F(k := as))" by (rule reduced_take [OF "1.prems"(1)]) (use pop in auto)
    moreover have "st \<le> b" if "b \<in> set (a # as)" for b using "1.prems"(3) [of b k] pop that by simp
    ultimately show ?thesis using "1.prems"(2,3) pop by (auto simp: spec_allocate_branches split: if_splits)
  next
    case split
    obtain r2 F2 where rec: "spec_allocate m (k + 1) F = (r2, F2)" by fastforce
    have IH: "reduced st n F2" "\<forall>a. r2 = Some a \<longrightarrow> st \<le> a" "\<forall>j. \<forall>b \<in> set (F2 j). st \<le> b"
      using "1.IH" [OF _ split(2) "1.prems"(1) rec "1.prems"(3)] split(1) by simp_all
    have empty: "F2 k = []" using spec_allocate_below [OF rec, of k] split(2) by simp
    show ?thesis
    proof (cases r2)
      case None
      then show ?thesis using "1.prems"(2) rec split IH by (auto simp: spec_allocate_branches)
    next
      case (Some a)
      have "reduced st n (F2(k := (a + 2 ^ k) # F2 k))"
        by (rule reduced_push [OF IH(1)]) (use IH(2) Some empty in \<open>auto intro: le_trans\<close>)
      then show ?thesis using "1.prems"(2) rec split IH Some by (auto simp: spec_allocate_branches split: if_splits)
    qed
  qed
qed

lemma spec_merge_reduced:
  assumes "reduced st n F" and "n \<le> m" and "st \<le> a" and "\<And>b j. b \<in> set (F j) \<Longrightarrow> st \<le> b"
    and "spec_merge st m a k F = (a', k', F')"
  shows "reduced st n F' \<and> st \<le> a' \<and> (k' < n \<longrightarrow> xbuddy st k' a' \<notin> set (F' k')) \<and> (\<forall>j. \<forall>b \<in> set (F' j). st \<le> b)"
  using assms
proof (induction st m a k F rule: spec_merge.induct)
  case (1 st m a k F)
  show ?case
  proof (cases "k < m \<and> xbuddy st k a \<in> set (F k)")
    case True
    let ?F = "F(k := remove1 (xbuddy st k a) (F k))"
    have sub: "set (?F j) \<subseteq> set (F j)" for j using set_remove1_subset [of _ "F k"] by (simp add: subset_iff)
    have "reduced st n ?F" by (rule reduced_take [OF "1.prems"(1) set_remove1_subset])
    moreover have "st \<le> min a (xbuddy st k a)" using "1.prems"(3,4) True by auto
    moreover have "spec_merge st m (min a (xbuddy st k a)) (k + 1) ?F = (a', k', F')"
      using True "1.prems"(5) by (simp add: spec_merge_branches)
    ultimately show ?thesis
      using "1.IH" [OF True, folded fun_upd_def] "1.prems"(2,4) sub by blast
  next
    case False
    then show ?thesis using "1.prems" by (auto simp: spec_merge_branches)
  qed
qed

lemma spec_release_reduced:
  assumes "reduced st n F" and "n \<le> m" and "st \<le> a" and "\<And>b j. b \<in> set (F j) \<Longrightarrow> st \<le> b"
  shows "reduced st n (spec_release st m a k F)"
proof -
  obtain a' k' F' where spec: "spec_merge st m a k F = (a', k', F')" by (metis prod_cases3)
  then show ?thesis
    using spec_merge_reduced [OF assms spec] reduced_push [of st n F' a' k'] by (simp add: spec_release_def)
qed

section \<open>Capacity\<close>

definition weight :: "nat \<Rightarrow> nat \<Rightarrow> nat" where
  "weight j k = (if j \<le> k then 2 ^ (k - j) else 0)"

definition capacity :: "nat \<Rightarrow> nat \<Rightarrow> flists \<Rightarrow> nat" where
  "capacity j m F = (\<Sum>k = j..m. 2 ^ (k - j) * length (F k))"

lemma capacity_upd:
  assumes "k \<le> m"
  shows "capacity j m (F(k := xs)) + weight j k * length (F k) = capacity j m F + weight j k * length xs"
proof (cases "j \<le> k")
  case True
  then have k: "k \<in> {j..m}" using assms by simp
  have rest: "(\<Sum>i \<in> {j..m} - {k}. 2 ^ (i - j) * length ((F(k := xs)) i)) =
      (\<Sum>i \<in> {j..m} - {k}. 2 ^ (i - j) * length (F i))" by (rule sum.cong) auto
  show ?thesis
    using True sum.remove [OF _ k, of "\<lambda>i. 2 ^ (i - j) * length (F i)"]
      sum.remove [OF _ k, of "\<lambda>i. 2 ^ (i - j) * length ((F(k := xs)) i)"] rest
    by (simp add: capacity_def weight_def)
next
  case False
  then have "capacity j m (F(k := xs)) = capacity j m F"
    unfolding capacity_def by (intro sum.cong) auto
  then show ?thesis using False by (simp add: weight_def)
qed

lemma capacity_push: "k \<le> m \<Longrightarrow> capacity j m (F(k := a # F k)) = capacity j m F + weight j k"
  using capacity_upd [of k m j F "a # F k"] by simp

lemma capacity_take:
  assumes "k \<le> m" and "a \<in> set (F k)"
  shows "capacity j m (F(k := remove1 a (F k))) + weight j k = capacity j m F"
proof -
  obtain n where "length (F k) = Suc n" using assms(2) by (cases "F k") auto
  then show ?thesis
    using capacity_upd [OF assms(1), of j F "remove1 a (F k)"] assms(2) by (simp add: length_remove1)
qed

lemma capacity_nonempty:
  assumes "0 < capacity j m F"
  obtains k where "j \<le> k" and "k \<le> m" and "F k \<noteq> []"
proof -
  have "\<exists>k \<in> {j..m}. F k \<noteq> []"
    by (rule ccontr) (use assms in \<open>simp add: capacity_def\<close>)
  then show thesis using that by auto
qed

text \<open>An allocation takes what its block is worth, and one request of the order at most if it is small.\<close>

lemma spec_allocate_capacity:
  assumes "spec_allocate m k F = (Some a, F')"
  shows "capacity j m F \<le> capacity j m F' + 2 ^ (k - j)"
  using assms
proof (induction m k F arbitrary: a F' rule: spec_allocate.induct)
  case (1 m k F)
  consider "m < k" | (pop) b as where "k \<le> m" "F k = b # as" | (split) "k \<le> m" "F k = []"
    by (metis list.exhaust linorder_not_less)
  then show ?case
  proof cases
    case 1
    then show ?thesis using "1.prems" by (simp add: spec_allocate_branches)
  next
    case pop
    then have "F' = F(k := as)" using "1.prems" by (simp add: spec_allocate_branches)
    moreover have "weight j k \<le> 2 ^ (k - j)" by (simp add: weight_def)
    ultimately show ?thesis using capacity_upd [OF pop(1), of j F as] pop(2) by (simp del: fun_upd_apply)
  next
    case split
    obtain r2 F2 where rec: "spec_allocate m (k + 1) F = (r2, F2)" by fastforce
    then obtain b where b: "r2 = Some b" "F' = F2(k := (b + 2 ^ k) # F2 k)"
      using "1.prems" split by (auto simp: spec_allocate_branches split: option.splits)
    have IH: "capacity j m F \<le> capacity j m F2 + 2 ^ (k + 1 - j)"
      by (rule "1.IH" [OF _ split(2)]) (use split(1) rec b(1) in simp_all)
    have F': "capacity j m F' = capacity j m F2 + weight j k" using split(1) b(2) capacity_push by simp
    show ?thesis
    proof (cases "j \<le> k")
      case True
      then have "(2::nat) ^ (k + 1 - j) = 2 * 2 ^ (k - j)" by (simp add: Suc_diff_le)
      then show ?thesis using IH F' True by (simp add: weight_def)
    next
      case False
      then show ?thesis using IH F' by (simp add: weight_def)
    qed
  qed
qed

lemma spec_merge_capacity:
  assumes "spec_merge st m a k F = (a', k', F')" and "k \<le> m"
  shows "capacity j m F + weight j k \<le> capacity j m F' + weight j k' \<and> k' \<le> m"
  using assms
proof (induction st m a k F rule: spec_merge.induct)
  case (1 st m a k F)
  show ?case
  proof (cases "k < m \<and> xbuddy st k a \<in> set (F k)")
    case True
    let ?F = "F(k := remove1 (xbuddy st k a) (F k))"
    have "spec_merge st m (min a (xbuddy st k a)) (k + 1) ?F = (a', k', F')"
      using True "1.prems"(1) by (simp add: spec_merge_branches)
    then have "capacity j m ?F + weight j (k + 1) \<le> capacity j m F' + weight j k'" "k' \<le> m"
      using "1.IH" [OF True] True by (simp_all add: fun_upd_def)
    moreover have "capacity j m ?F + weight j k = capacity j m F"
      using capacity_take [of k m _ F j] "1.prems"(2) True by blast
    moreover have "2 * weight j k \<le> weight j (k + 1)" by (simp add: weight_def Suc_diff_le)
    ultimately show ?thesis by linarith
  next
    case False
    then show ?thesis using "1.prems" by (auto simp: spec_merge_branches)
  qed
qed

lemma spec_release_capacity:
  assumes "k \<le> m"
  shows "capacity j m F + weight j k \<le> capacity j m (spec_release st m a k F)"
proof -
  obtain a' k' F' where "spec_merge st m a k F = (a', k', F')" by (metis prod_cases3)
  then show ?thesis using spec_merge_capacity [OF _ assms] by (force simp: spec_release_def capacity_push)
qed

section \<open>Freed memory is reused\<close>

text \<open>The lists after a request of order \<open>k\<close> was served from order \<open>q\<close>, and while the halves merge
  back.\<close>

definition split_lists :: "nat \<Rightarrow> nat \<Rightarrow> nat \<Rightarrow> nat \<Rightarrow> flists \<Rightarrow> flists" where
  "split_lists a i q k F = (\<lambda>j. if i \<le> j \<and> j < q then [a + 2 ^ j] else if j = q then tl (F q)
     else if k \<le> j \<and> j < i then [] else F j)"

lemma spec_allocate_split:
  assumes "k \<le> q" and "q \<le> m" and "\<forall>j. k \<le> j \<and> j < q \<longrightarrow> F j = []" and "F q = a # as"
  shows "spec_allocate m k F = (Some a, split_lists a k q k F)"
  using assms
proof (induction "q - k" arbitrary: k)
  case 0
  then show ?case by (auto simp: spec_allocate_branches split_lists_def fun_eq_iff)
next
  case (Suc d)
  then have k: "k < q" "F k = []" by simp_all
  have "spec_allocate m (k + 1) F = (Some a, split_lists a (k + 1) q (k + 1) F)"
    by (rule Suc.hyps(1)) (use Suc k in auto)
  moreover have "(split_lists a (k + 1) q (k + 1) F)(k := [a + 2 ^ k]) = split_lists a k q k F"
    using k by (auto simp: split_lists_def fun_eq_iff)
  moreover have "split_lists a (k + 1) q (k + 1) F k = []" using k by (simp add: split_lists_def)
  ultimately show ?case using k Suc.prems by (simp add: spec_allocate_branches)
qed

lemma spec_merge_back:
  assumes "k \<le> i" and "i \<le> q" and "q \<le> m" and "q < n" and "reduced st n F" and "F q = a # as" and "st \<le> a"
  shows "\<exists>r G. spec_merge st m a i (split_lists a i q k F) = (a, r, G) \<and> i \<le> r \<and> r \<le> q \<and>
    (\<forall>j. k \<le> j \<and> j < r \<longrightarrow> G j = [])"
  using assms(1,2)
proof (induction "q - i" arbitrary: i)
  case 0
  then have "i = q" by simp
  have "xbuddy st q a \<notin> set as" using assms(4-6) by (auto simp: reduced_def)
  then have "spec_merge st m a i (split_lists a i q k F) = (a, i, split_lists a i q k F)"
    using \<open>i = q\<close> assms(6) by (simp add: spec_merge_branches split_lists_def)
  then show ?case using \<open>i = q\<close> by (auto simp: split_lists_def)
next
  case (Suc d)
  then have iq: "i < q" by simp
  then have i: "i < q" "split_lists a i q k F i = [a + 2 ^ i]" by (simp_all add: split_lists_def)
  show ?case
  proof (cases "xbuddy st i a = a + 2 ^ i")
    case True
    have "(split_lists a i q k F)(i := []) = split_lists a (i + 1) q k F"
      using i Suc.prems by (auto simp: split_lists_def fun_eq_iff)
    then have "spec_merge st m a i (split_lists a i q k F) = spec_merge st m a (i + 1) (split_lists a (i + 1) q k F)"
      using True i assms(3) by (simp add: spec_merge_branches min_def)
    moreover have "\<exists>r G. spec_merge st m a (i + 1) (split_lists a (i + 1) q k F) = (a, r, G) \<and> i + 1 \<le> r \<and> r \<le> q \<and>
        (\<forall>j. k \<le> j \<and> j < r \<longrightarrow> G j = [])"
      by (rule Suc.hyps(1)) (use Suc i in auto)
    ultimately show ?thesis by auto
  next
    case False
    then have "spec_merge st m a i (split_lists a i q k F) = (a, i, split_lists a i q k F)"
      using i by (simp add: spec_merge_branches)
    then show ?thesis using i by (auto simp: split_lists_def)
  qed
qed

lemma spec_reuse:
  assumes "reduced st n F" and "k \<le> j" and "j < n" and "j \<le> m" and "F j \<noteq> []"
  obtains a F' G where "spec_allocate m k F = (Some a, F')"
    and "spec_allocate m k (spec_release st m a k F') = (Some a, G)"
proof -
  define q where "q = (LEAST q. k \<le> q \<and> F q \<noteq> [])"
  have q: "k \<le> q" "F q \<noteq> []" "q \<le> j"
    unfolding q_def using LeastI [of "\<lambda>q. k \<le> q \<and> F q \<noteq> []" j] Least_le [of "\<lambda>q. k \<le> q \<and> F q \<noteq> []" j] assms
    by simp_all
  have first: "\<forall>i. k \<le> i \<and> i < q \<longrightarrow> F i = []"
    unfolding q_def using not_less_Least [of _ "\<lambda>q. k \<le> q \<and> F q \<noteq> []"] by blast
  obtain a as where a: "F q = a # as" using q(2) by (cases "F q") auto
  have qn: "q < n" using q(3) assms(3) by simp
  have "st \<le> a" using assms(1) a qn by (auto simp: reduced_def)
  then obtain r G where rel: "spec_merge st m a k (split_lists a k q k F) = (a, r, G)" "k \<le> r" "r \<le> q"
    "\<forall>i. k \<le> i \<and> i < r \<longrightarrow> G i = []"
    using spec_merge_back [OF order_refl q(1) _ qn assms(1) a, of m] le_trans [OF q(3) assms(4)] by blast
  have "spec_allocate m k (G(r := a # G r)) = (Some a, split_lists a k r k (G(r := a # G r)))"
    by (rule spec_allocate_split) (use rel q assms in auto)
  then show thesis
    using that [OF spec_allocate_split [OF q(1) _ first a]] rel(1) q(3) assms(4) by (simp add: spec_release_def)
qed

section \<open>The kernel heap\<close>

text \<open>The lists \<open>init\<close> builds.\<close>

definition boot_lists :: flists where
  "boot_lists = (\<lambda>_. [])(18 := [first_block, HEAP_START], 19 := [75059994034176],
     20 := [75059994558464], 21 := [75059995607040], 23 := [75060089978880, 75059997704192],
     24 := [75060006092800], 25 := [75060056424448, 75060022870016])"

lemma chain_unique: "chain nxt p xs \<Longrightarrow> chain nxt p ys \<Longrightarrow> xs = ys"
proof (induction xs arbitrary: p ys)
  case Nil
  then show ?case by simp
next
  case (Cons x xs)
  then obtain y zs where "ys = y # zs" by (cases ys) auto
  then show ?case using Cons by auto
qed

lemma boot_chains:
  assumes "buddy_init HEAP_START HEAP_SIZE s0 = Done s"
  shows "max_order s = 26" and "heap_start s = HEAP_START"
    and "\<forall>k \<in> set [6 ..< 27]. chain (node_next s) (free_lists s ! (k - 6)) (boot_lists k)"
proof -
  have "andthen (buddy_init HEAP_START HEAP_SIZE s0) (\<lambda>s. Done (max_order s = 26 \<and> heap_start s = HEAP_START \<and>
      (\<forall>k \<in> set [6 ..< 27]. chain (node_next s) (free_lists s ! (k - 6)) (boot_lists k)))) = Done True"
    by (simp add: heap_eval boot_lists_def cong: andthen_weak_cong)
  note this [unfolded assms andthen.simps outcome.inject, THEN eqTrueE]
  then show "max_order s = 26" "heap_start s = HEAP_START"
    "\<forall>k \<in> set [6 ..< 27]. chain (node_next s) (free_lists s ! (k - 6)) (boot_lists k)" by blast+
qed

lemma boot_reduced: "reduced HEAP_START 25 boot_lists"
  unfolding reduced_def boot_lists_def by (auto simp: xbuddy_def)

text \<open>\<open>heap_roomy n h L\<close>: the heap with the live blocks \<open>L\<close>, fully merged, in which at least \<open>n\<close>
  requests of up to 16 KiB will succeed.\<close>

definition heap_roomy :: "nat \<Rightarrow> buddy \<Rightarrow> block set \<Rightarrow> bool" where
  "heap_roomy n h L \<longleftrightarrow> (\<exists>F. heap_state kernel_heap 18 h F L \<and> heap_start h = HEAP_START \<and>
     max_order h = 26 \<and> reduced HEAP_START 25 F \<and> n \<le> capacity 14 26 F)"

lemma heap_state_lists_in:
  assumes "heap_state kernel_heap 18 h F L" and "b \<in> set (F j)"
  shows "HEAP_START \<le> b"
proof -
  have "bytes_of (j, b) \<subseteq> kernel_heap"
    using tilingD_subset [OF ownedD(2) [OF heap_stateD(6) [OF assms(1)]], of "(j, b)"] assms(2) by simp
  then have "b \<in> kernel_heap" using start_in_bytes [of b j] by blast
  then show ?thesis by (simp add: kernel_heap_def)
qed

lemma roomy_boot:
  assumes "buddy_init HEAP_START HEAP_SIZE s0 = Done s"
  shows "heap_roomy 0 s {}"
proof -
  have "buddy_inv kernel_heap 18 s (live_blocks Map.empty)"
    using kernel_heap_init [of s0] assms by (simp add: buddy_live_def)
  then obtain F where F: "heap_state kernel_heap 18 s F {}"
    by (auto simp: buddy_inv_def live_blocks_def)
  note h = heap_stateD [OF F] and b = boot_chains [OF assms]
  have "F k = boot_lists k" for k
  proof (cases "6 \<le> k \<and> k \<le> 26")
    case True
    then have "k \<in> set [6 ..< 27]" by (simp only: set_upt atLeastLessThan_iff) simp
    then have "chain (node_next s) (free_lists s ! (k - 6)) (boot_lists k)" using b(3) by blast
    then show ?thesis using chain_unique [OF reprD(4) [OF h(5), of k]] True b(1) by simp
  next
    case False
    have "F k = []"
    proof (rule ccontr)
      assume "F k \<noteq> []"
      then obtain x where "x \<in> set (F k)" by (cases "F k") auto
      then show False using owned_heap_order [OF h(6), of x k] b(1) False by simp
    qed
    then show ?thesis using False by (auto simp: boot_lists_def)
  qed
  then have "F = boot_lists" by blast
  then show ?thesis using F b(1,2) boot_reduced by (auto simp: heap_roomy_def)
qed

lemma roomy_alloc:
  assumes "heap_roomy (Suc n) h L" and "buddy_order l = Some k" and "k \<le> 14"
  obtains p h' where "buddy_alloc l h = Done (p, h')" and "p \<noteq> 0" and "(k, p) \<notin> L"
    and "heap_roomy n h' (insert (k, p) L)"
proof -
  obtain F where F: "heap_state kernel_heap 18 h F L" "heap_start h = HEAP_START" "max_order h = 26"
    "reduced HEAP_START 25 F" "Suc n \<le> capacity 14 26 F" using assms(1) by (auto simp: heap_roomy_def)
  obtain got F' where spec: "spec_allocate (max_order h) k F = (got, F')" by fastforce
  obtain h' where h': "buddy_alloc l h = Done (case got of None \<Rightarrow> 0 | Some p \<Rightarrow> p, h')" "same_heap h h'"
    "case got of None \<Rightarrow> F' = F \<and> heap_state kernel_heap 18 h' F L
      | Some p \<Rightarrow> p \<noteq> 0 \<and> (k, p) \<notin> L \<and> heap_state kernel_heap 18 h' F' (insert (k, p) L)"
    by (rule heap_alloc [OF F(1) assms(2) spec])
  have "0 < capacity 14 26 F" using F(5) by simp
  then obtain j where j: "14 \<le> j" "j \<le> 26" "F j \<noteq> []" by (rule capacity_nonempty)
  then have "fst (spec_allocate 26 k F) \<noteq> None"
    using spec_allocate_None_iff [of 26 k F] assms(3) by (auto intro!: exI [of _ j])
  then obtain p where p: "got = Some p" using spec F(3) by auto
  have "HEAP_START \<le> b" if "b \<in> set (F j)" for b j using heap_state_lists_in [OF F(1) that] .
  then have red: "reduced HEAP_START 25 F'" using spec_allocate_reduced [OF F(4) spec] by blast
  have "capacity 14 26 F \<le> capacity 14 26 F' + 2 ^ (k - 14)"
    by (rule spec_allocate_capacity [of 26 k F p]) (use spec p F(3) in simp)
  then have "n \<le> capacity 14 26 F'" using F(5) assms(3) by simp
  then have "heap_roomy n h' (insert (k, p) L)"
    using h'(2,3) p F(2,3) red by (auto simp: heap_roomy_def same_heap_def)
  then show thesis using that h'(1,3) p by simp
qed

lemma roomy_dealloc:
  assumes "heap_roomy n h (insert (k, p) L)" and "(k, p) \<notin> L" and "buddy_order l = Some k"
  obtains h' where "buddy_dealloc p l h = Done h'" and "heap_roomy n h' L"
proof -
  obtain F where F: "heap_state kernel_heap 18 h F (insert (k, p) L)" "heap_start h = HEAP_START"
    "max_order h = 26" "reduced HEAP_START 25 F" "n \<le> capacity 14 26 F"
    using assms(1) by (auto simp: heap_roomy_def)
  let ?F = "spec_release (heap_start h) (max_order h) p k F"
  obtain h' where h': "buddy_dealloc p l h = Done h'" "same_heap h h'" "heap_state kernel_heap 18 h' ?F L"
    by (rule heap_dealloc [OF F(1) assms(2,3)])
  note own = heap_stateD(6) [OF F(1)]
  have "bytes_of (k, p) \<subseteq> kernel_heap" using tilingD_subset [OF ownedD(2) [OF own], of "(k, p)"] by simp
  then have "p \<in> kernel_heap" using start_in_bytes [of p k] by blast
  then have "HEAP_START \<le> p" by (simp add: kernel_heap_def)
  moreover have "HEAP_START \<le> b" if "b \<in> set (F j)" for b j using heap_state_lists_in [OF F(1) that] .
  ultimately have red: "reduced HEAP_START 25 ?F"
    unfolding F(2,3) by (intro spec_release_reduced [OF F(4)]) auto
  have "k \<le> 26" using ownedD(5) [OF own, of "(k, p)"] F(3) by simp
  then have "n \<le> capacity 14 26 ?F"
    using spec_release_capacity [of k 26 14 F HEAP_START p] F(2,3,5) by simp
  then have "heap_roomy n h' L" using h'(2,3) F(2,3) red by (auto simp: heap_roomy_def same_heap_def)
  with h'(1) show thesis by (rule that)
qed

lemma roomy_write:
  assumes "heap_roomy n h L" and "(k, p) \<in> L" and "a \<in> bytes_of (k, p)"
  shows "heap_roomy n (buddy_write a v h) L"
proof -
  obtain F where F: "heap_state kernel_heap 18 h F L" "heap_start h = HEAP_START"
    "max_order h = 26" "reduced HEAP_START 25 F" "n \<le> capacity 14 26 F"
    using assms(1) by (auto simp: heap_roomy_def)
  have "heap_start (buddy_write a v h) = HEAP_START" "max_order (buddy_write a v h) = 26"
    using F(2,3) by (simp_all add: buddy_write_def)
  then show ?thesis using heap_write [OF F(1) assms(2,3)] F(4,5) by (auto simp only: heap_roomy_def)
qed

section \<open>An idle heap is in large blocks\<close>

lemma multiple_below: "P dvd x \<Longrightarrow> P dvd c \<Longrightarrow> x < c + P \<Longrightarrow> x \<le> (c :: nat)"
  by (auto simp: dvd_def) (metis add.commute linorder_not_less mult_Suc_right mult_less_cancel1 not_less_eq)

lemma multiple_above: "P dvd y \<Longrightarrow> P dvd c \<Longrightarrow> c < y \<Longrightarrow> c + P \<le> (y :: nat)"
  using multiple_below [of P y c] by linarith

text \<open>Where all blocks are at least as large as a free block, that block's buddy is free as well.\<close>

lemma smallest_has_buddy:
  assumes own: "owned {st..<e} m 18 F {}" and st: "2 ^ 18 dvd st" and e: "2 ^ 18 dvd e"
    and a: "a \<in> set (F k)" and k: "k < 18" and least: "\<And>j. j < k \<Longrightarrow> F j = []"
  shows "xbuddy st k a \<in> set (F k)"
proof -
  let ?b = "xbuddy st k a" and ?P = "2 ^ Suc k :: nat"
  let ?c = "min a ?b"
  have t: "tiling {st..<e} (free_blocks F)" using ownedD(2) [OF own] by simp
  have in_a: "(k, a) \<in> free_blocks F" using a by simp
  have sub: "bytes_of (k, a) \<subseteq> {st..<e}" by (rule tilingD_subset [OF t in_a])
  then have "a \<in> {st..<e}" using start_in_bytes [of a k] by blast
  then have ae: "st \<le> a" "a < e" by simp_all
  have al: "2 ^ min k 18 dvd a" using ownedD(6) [OF own, of "(k, a)"] in_a by simp
  have k18: "min k 18 = k" "min (Suc k) 18 = Suc k" using k by simp_all
  have P18: "?P dvd 2 ^ 18" using k by (intro le_imp_power_dvd) simp
  have Pst: "?P dvd st" "?P dvd e" using P18 st e by (auto intro: dvd_trans)
  have kst: "2 ^ k dvd st" using Pst(1) by (auto intro: dvd_trans [OF _ Pst(1)] simp: le_imp_power_dvd)
  have adj: "?b = a + 2 ^ k \<or> a = ?b + 2 ^ k" by (rule xbuddy_adjacent [OF ae(1)])
  have alb: "2 ^ k dvd ?b"
    using adj al k18 by (metis dvd_add_left_iff dvd_add_right_iff dvd_refl)
  have c: "?P dvd ?c" using xbuddy_min_aligned [OF st ae(1), of k] al alb k18 by simp
  have bst: "st \<le> ?b" by (simp add: xbuddy_def)
  have ce: "?c + ?P \<le> e" by (rule multiple_above [OF Pst(2) c]) (use ae in simp)
  have pos: "(0::nat) < 2 ^ k" by simp
  then have bc: "?b < ?c + ?P" using adj by auto
  then have be: "?b < e" using ce by linarith
  then have "?b \<in> (\<Union>b\<in>free_blocks F. bytes_of b)" using t bst by (simp add: tiling_def)
  then obtain j x where x: "x \<in> set (F j)" "x \<le> ?b" "?b < x + 2 ^ j" by auto
  have "k \<le> j"
  proof (rule ccontr)
    assume "\<not> k \<le> j"
    then show False using least [of j] x(1) by simp
  qed
  have alx: "2 ^ min j 18 dvd x" using ownedD(6) [OF own, of "(j, x)"] x(1) by simp
  show ?thesis
  proof (cases "j = k")
    case True
    then have "2 ^ k dvd x" using alx k18 by simp
    have "?b \<le> x" by (rule multiple_below [OF alb \<open>2 ^ k dvd x\<close>]) (use x True in simp)
    then show ?thesis using x True by simp
  next
    case False
    then have j: "Suc k \<le> j" using \<open>k \<le> j\<close> by simp
    have "?P dvd x" by (rule dvd_trans [OF le_imp_power_dvd alx]) (use j k in simp)
    moreover have "?P dvd 2 ^ j" using j by (rule le_imp_power_dvd)
    ultimately have Px: "?P dvd x" "?P dvd x + 2 ^ j" by simp_all
    have "x \<le> ?c" by (rule multiple_below [OF Px(1) c le_less_trans [OF x(2) bc]])
    moreover have "?c + ?P \<le> x + 2 ^ j" by (rule multiple_above [OF Px(2) c]) (use x in simp)
    moreover have "a < ?c + ?P" using adj
    proof
      assume "?b = a + 2 ^ k"
      then show ?thesis by simp
    next
      assume "a = ?b + 2 ^ k"
      moreover from this have "?c = ?b" by simp
      moreover have "?P = 2 ^ k + 2 ^ k" by simp
      ultimately show ?thesis using pos by linarith
    qed
    ultimately have "a \<in> bytes_of (j, x)" by simp
    then have "(j, x) = (k, a)"
      using tilingD_disjoint [OF t, of "(j, x)" "(k, a)" a] x(1) in_a by simp
    then show ?thesis using False by simp
  qed
qed

lemma idle_no_small:
  assumes "owned {st..<e} m 18 F {}" and "2 ^ 18 dvd st" and "2 ^ 18 dvd e" and "reduced st n F" and "18 \<le> n"
    and "k < 18"
  shows "F k = []"
  using assms(6)
proof (induction k rule: less_induct)
  case (less k)
  show ?case
  proof (rule ccontr)
    assume "F k \<noteq> []"
    then obtain a where a: "a \<in> set (F k)" by (cases "F k") auto
    have "xbuddy st k a \<in> set (F k)"
      by (rule smallest_has_buddy [OF assms(1-3) a less.prems]) (use less in simp)
    then show False using assms(4,5) a less.prems by (auto simp: reduced_def)
  qed
qed

lemma kernel_idle:
  assumes "heap_state kernel_heap 18 h F {}" and "heap_start h = HEAP_START" and "reduced HEAP_START 25 F"
    and "max_order h = 26"
  shows "\<And>k. k < 18 \<Longrightarrow> F k = []" and "(\<Sum>k = 18..26. 2 ^ k * length (F k)) = HEAP_SIZE"
proof -
  note own = heap_stateD(6) [OF assms(1)]
  show small: "F k = []" if "k < 18" for k
    by (rule idle_no_small [OF own [unfolded kernel_heap_def] _ _ assms(3) _ that]) simp_all
  have t: "tiling kernel_heap (free_blocks F)" using ownedD(2) [OF own] by simp
  have "HEAP_SIZE = (\<Sum>b\<in>free_blocks F. 2 ^ fst b)"
    using tiling_card(2) [OF t kernel_heap_range(1)] kernel_heap_range(2) by simp
  also have "\<dots> = (\<Sum>k = MIN_ORDER..26. 2 ^ k * length (F k))"
    by (rule sum_free_blocks) (use ownedD(1) [OF own] owned_heap_order [OF own] assms(4) in simp_all)
  also have "\<dots> = (\<Sum>k = 18..26. 2 ^ k * length (F k))"
    by (rule sum.mono_neutral_right) (use small in auto)
  finally show "(\<Sum>k = 18..26. 2 ^ k * length (F k)) = HEAP_SIZE" by simp
qed

lemma roomy_idle:
  assumes "heap_roomy n h {}"
  shows "heap_roomy 6400 h {}"
proof -
  obtain F where F: "heap_state kernel_heap 18 h F {}" "heap_start h = HEAP_START"
    "max_order h = 26" "reduced HEAP_START 25 F" using assms by (auto simp: heap_roomy_def)
  note idle = kernel_idle [OF F(1,2,4,3)]
  have "2 ^ 14 * capacity 14 26 F = (\<Sum>k = 14..26. 2 ^ k * length (F k))"
    unfolding capacity_def sum_distrib_left
  proof (rule sum.cong)
    fix k :: nat assume "k \<in> {14..26}"
    then have "(2::nat) ^ 14 * 2 ^ (k - 14) = 2 ^ k"
      by (metis atLeastAtMost_iff le_add_diff_inverse power_add)
    then show "(2::nat) ^ 14 * (2 ^ (k - 14) * length (F k)) = 2 ^ k * length (F k)"
      by (metis mult.assoc)
  qed simp
  also have "\<dots> = (\<Sum>k = 18..26. 2 ^ k * length (F k))"
    by (rule sum.mono_neutral_right) (use idle(1) in auto)
  finally have "6400 \<le> capacity 14 26 F" using idle(2) by simp
  then show ?thesis using F by (auto simp: heap_roomy_def)
qed

text \<open>An allocation, its release and the same request again: the same address.\<close>

lemma roomy_reuse:
  assumes "heap_roomy n h {}" and "buddy_order l = Some k" and "k \<le> 18"
  obtains p h1 h2 h3 where "buddy_alloc l h = Done (p, h1)" and "p \<noteq> 0" and "buddy_dealloc p l h1 = Done h2"
    and "buddy_alloc l h2 = Done (p, h3)"
proof -
  obtain F where F: "heap_state kernel_heap 18 h F {}" "heap_start h = HEAP_START"
    "max_order h = 26" "reduced HEAP_START 25 F" using assms(1) by (auto simp: heap_roomy_def)
  note idle = kernel_idle [OF F(1,2,4,3)]
  have "\<exists>j \<in> {18..24}. F j \<noteq> []"
  proof (rule ccontr)
    assume "\<not> (\<exists>j \<in> {18..24}. F j \<noteq> [])"
    then have "(\<Sum>k = 18..26. 2 ^ k * length (F k)) = (\<Sum>k = 25..26. 2 ^ k * length (F k))"
      by (intro sum.mono_neutral_right) (auto simp: not_le)
    also have "{25..26} = {25, 26 :: nat}" by auto
    also have "(\<Sum>k \<in> {25, 26}. 2 ^ k * length (F k)) = 33554432 * (length (F 25) + 2 * length (F 26))"
      by simp
    finally have "HEAP_SIZE mod 33554432 = 33554432 * (length (F 25) + 2 * length (F 26)) mod 33554432"
      using idle(2) by simp
    then show False by simp
  qed
  then obtain j where "18 \<le> j" "j \<le> 24" "F j \<noteq> []" by auto
  then have j: "k \<le> j" "j < 25" "j \<le> 26" "F j \<noteq> []" using assms(3) by simp_all
  obtain a F1 G where sp: "spec_allocate 26 k F = (Some a, F1)"
    "spec_allocate 26 k (spec_release HEAP_START 26 a k F1) = (Some a, G)"
    by (rule spec_reuse [OF F(4) j])
  obtain h1 where h1: "buddy_alloc l h = Done (a, h1)" "same_heap h h1" "a \<noteq> 0"
    "heap_state kernel_heap 18 h1 F1 {(k, a)}"
    by (rule heap_alloc [OF F(1) assms(2), of "Some a" F1]) (use sp(1) F(3) in auto)
  obtain h2 where h2: "buddy_dealloc a l h1 = Done h2" "same_heap h1 h2"
    "heap_state kernel_heap 18 h2 (spec_release HEAP_START 26 a k F1) {}"
    by (rule heap_dealloc [OF h1(4) _ assms(2)]) (use h1(2) F(2,3) in \<open>auto simp: same_heap_def\<close>)
  obtain h3 where "buddy_alloc l h2 = Done (a, h3)"
    by (rule heap_alloc [OF h2(3) assms(2), of "Some a" G]) (use sp(2) h1(2) h2(2) F(3) in \<open>auto simp: same_heap_def\<close>)
  with h1(1,3) h2(1) show thesis by (rule that)
qed

section \<open>Every client\<close>

lemma merged_alloc:
  assumes "heap_roomy 0 h L" and "buddy_alloc l h = Done (p, h')" and "buddy_order l = Some k"
  shows "heap_roomy 0 h' (if p = 0 then L else insert (k, p) L)"
proof -
  obtain F where F: "heap_state kernel_heap 18 h F L" "heap_start h = HEAP_START" "max_order h = 26"
    "reduced HEAP_START 25 F" using assms(1) by (auto simp: heap_roomy_def)
  obtain got F' where spec: "spec_allocate (max_order h) k F = (got, F')" by fastforce
  obtain h2 where h2: "buddy_alloc l h = Done (case got of None \<Rightarrow> 0 | Some p \<Rightarrow> p, h2)" "same_heap h h2"
    "case got of None \<Rightarrow> F' = F \<and> heap_state kernel_heap 18 h2 F L
      | Some p \<Rightarrow> p \<noteq> 0 \<and> (k, p) \<notin> L \<and> heap_state kernel_heap 18 h2 F' (insert (k, p) L)"
    by (rule heap_alloc [OF F(1) assms(3) spec])
  have "HEAP_START \<le> b" if "b \<in> set (F j)" for b j using heap_state_lists_in [OF F(1) that] .
  then have "reduced HEAP_START 25 F'" using spec_allocate_reduced [OF F(4) spec] by blast
  then show ?thesis
    using h2 assms(2) F(2,3) by (auto simp: heap_roomy_def same_heap_def split: option.splits)
qed

lemma buddy_order_small:
  assumes "buddy_order l = Some k" and "lsize l \<le> 2 ^ 18" and "lalign l \<le> 2 ^ 18"
  shows "k \<le> 18"
proof (rule ccontr)
  assume k: "\<not> k \<le> 18"
  then have "(2::nat) ^ 18 \<le> 2 ^ (k - 1)" by (intro power_increasing) simp_all
  then show False
    using assms k order_for_size_spec [of "max (lsize l) (lalign l)"] by (auto simp: buddy_order_def)
qed

lemma merged_step:
  assumes "client_step buddy_alloc buddy_dealloc buddy_write (\<lambda>_. True) (h, L) (h', L')"
    and "heap_roomy 0 h (live_blocks L)" and "buddy_live kernel_heap 18 h L"
  shows "heap_roomy 0 h' (live_blocks L')"
  using assms(1)
proof (rule client_stepE)
  fix l p assume a: "L' = L(p \<mapsto> l)" "True" "buddy_alloc l h = Done (p, h')" "0 < p"
  obtain k where k: "buddy_order l = Some k"
    using a(3,4) by (cases "buddy_order l") (auto simp: buddy_alloc_def buddy_order_def split: if_splits)
  have "L p = None" using buddy_live_alloc [OF assms(3), of l] a(3,4) by auto
  then show ?thesis using merged_alloc [OF assms(2) a(3) k] a(1,4) k by (simp add: live_blocks_insert)
next
  fix l assume a: "L' = L" "True" "buddy_alloc l h = Done (0, h')"
  show ?thesis
  proof (cases "buddy_order l")
    case None
    then have "h' = h" using a(3) by (auto simp: buddy_alloc_def buddy_order_def split: if_splits)
    then show ?thesis using assms(2) a(1) by simp
  next
    case (Some k)
    then show ?thesis using merged_alloc [OF assms(2) a(3)] a(1) by simp
  qed
next
  fix p l assume a: "L' = L(p := None)" "L p = Some l" "buddy_dealloc p l h = Done h'"
  obtain k where k: "buddy_order l = Some k" using assms(3) a(2) by (fastforce simp: buddy_live_def)
  have "heap_roomy 0 h (insert (k, p) (live_blocks L'))" "(k, p) \<notin> live_blocks L'"
    using assms(2) live_blocks_remove [where L = L and p = p, OF k a(2)] a(1) by simp_all
  then show ?thesis by (rule roomy_dealloc [OF _ _ k]) (use a(3) in simp)
next
  fix p l a v assume a: "L = L'" "h' = buddy_write a v h" "L' p = Some l" "a \<in> footprint p l"
  obtain k where k: "buddy_order l = Some k" using assms(3) a(1,3) by (fastforce simp: buddy_live_def)
  then have "(k, p) \<in> live_blocks L" using a(1,3) by simp
  then show ?thesis using roomy_write [OF assms(2)] footprint_bytes [OF k, of p] a(1,2,4) by blast
qed

lemma merged_run:
  assumes "heap_run c d" and "heap_roomy 0 (fst c) (live_blocks (snd c))" and "buddy_live kernel_heap 18 (fst c) (snd c)"
  shows "heap_roomy 0 (fst d) (live_blocks (snd d)) \<and> buddy_live kernel_heap 18 (fst d) (snd d)"
  using assms
proof (induction rule: client_run.induct)
  case (step c d e)
  then have d: "heap_roomy 0 (fst d) (live_blocks (snd d))" "buddy_live kernel_heap 18 (fst d) (snd d)" by simp_all
  then show ?case
    using merged_step [of "fst d" "snd d" "fst e" "snd e"] buddy_heap.step_invar [of "fst d" "snd d" "fst e" "snd e" kernel_heap 18]
      step.hyps(2) by simp
qed simp

text \<open>
  C7. Nothing fragments the kernel heap for good: whatever clients did, as soon as everything is given
  back, the free blocks are merged into blocks of at least 256 KiB that make up the whole heap, and
  every request for up to 256 KiB is served.
\<close>

theorem kernel_heap_coalesces:
  assumes "buddy_init HEAP_START HEAP_SIZE s0 = Done s" and "heap_run (s, Map.empty) (s', Map.empty)"
  shows "(\<exists>F. (\<forall>k \<in> {MIN_ORDER..max_order s'}. chain (node_next s') (free_lists s' ! (k - MIN_ORDER)) (F k)) \<and>
      (\<forall>k < 18. F k = []) \<and> (\<Sum>k = 18..max_order s'. 2 ^ k * length (F k)) = HEAP_SIZE) \<and>
    (\<forall>l. lsize l \<le> 2 ^ 18 \<and> lalign l \<le> 2 ^ 18 \<longrightarrow> (\<exists>p s2. buddy_alloc l s' = Done (p, s2) \<and> p \<noteq> 0))"
proof -
  have empty: "live_blocks Map.empty = {}" by (simp add: live_blocks_def)
  have live: "buddy_live kernel_heap 18 s Map.empty" using kernel_heap_init [of s0] assms(1) by simp
  have "heap_roomy 0 s' {}"
    using merged_run [OF assms(2)] roomy_boot [OF assms(1)] live by (simp add: empty)
  then obtain F where F: "heap_state kernel_heap 18 s' F {}" "heap_start s' = HEAP_START" "max_order s' = 26"
    "reduced HEAP_START 25 F" by (auto simp: heap_roomy_def)
  note idle = kernel_idle [OF F(1,2,4,3)]
  have "\<exists>p s2. buddy_alloc l s' = Done (p, s2) \<and> p \<noteq> 0" if l: "lsize l \<le> 2 ^ 18 \<and> lalign l \<le> 2 ^ 18" for l
  proof -
    obtain k where k: "buddy_order l = Some k"
      using order_for_size_spec [of "max (lsize l) (lalign l)"] l
      by (cases "buddy_order l") (auto simp: buddy_order_def)
    then have "k \<le> 18" using buddy_order_small l by blast
    from roomy_reuse [OF \<open>heap_roomy 0 s' {}\<close> k this] show ?thesis by blast
  qed
  then show ?thesis using reprD(4) [OF heap_stateD(5) [OF F(1)]] idle F(3) by (intro conjI exI [of _ F]) auto
qed

lemma kernel_heap_coalesces_witness:
  "\<exists>s s1 s2. buddy_init HEAP_START HEAP_SIZE (buddy_new (\<lambda>_. 0)) = Done s \<and>
    buddy_alloc \<lparr>lsize = 100, lalign = 64\<rparr> s = Done (first_block, s1) \<and>
    buddy_dealloc first_block \<lparr>lsize = 100, lalign = 64\<rparr> s1 = Done s2 \<and>
    (\<exists>p s3. buddy_alloc \<lparr>lsize = 262144, lalign = 4096\<rparr> s2 = Done (p, s3) \<and> p \<noteq> 0)"
proof -
  let ?l = "\<lparr>lsize = 100, lalign = 64\<rparr>"
  obtain s s1 where s: "buddy_init HEAP_START HEAP_SIZE (buddy_new (\<lambda>_. 0)) = Done s"
    and a: "buddy_alloc ?l s = Done (first_block, s1)"
    by (rule boot_heap_alloc)
  from a have run: "heap_run (s, Map.empty) (s1, [first_block \<mapsto> ?l])"
    by (rule heap_run_once) simp
  obtain s2 where d: "buddy_dealloc first_block ?l s1 = Done s2"
    using buddy_heap.dealloc_block [OF heap_run_live [OF s run], of first_block ?l] by auto
  from d have "client_step buddy_alloc buddy_dealloc buddy_write (\<lambda>_. True) (s1, [first_block \<mapsto> ?l])
      (s2, [first_block \<mapsto> ?l](first_block := None))"
    by (intro client_step.freed) simp_all
  then have "heap_run (s, Map.empty) (s2, Map.empty)" using client_run.step [OF run] by simp
  note served = kernel_heap_coalesces [OF s this, THEN conjunct2, THEN spec, of "\<lparr>lsize = 262144, lalign = 4096\<rparr>"]
  show ?thesis using s a d served by auto
qed

end
