(* ===== verification/Serial_Port.thy ===== *)
theory Serial_Port
  imports Acpi
begin

text \<open>
  \<open>src/serial.rs\<close> in detail: the lazily initialised UART behind a spin lock, and \<open>_print\<close>, which
  takes the lock with interrupts off. The other theories use the abstraction \<open>serial_write_fmt\<close>, the
  text that was sent; here it is shown to be what the port does, and that masking the interrupts is
  what keeps a handler that prints from waiting for ever for the code it interrupted. The driver (the
  crate \<open>uart_16550\<close>) is a parameter.
\<close>

record 'u uart_driver =
  new_port :: "nat \<Rightarrow> 'u option"
  send :: "string \<Rightarrow> 'u \<Rightarrow> 'u option"

record 'u serial_port =
  serial1 :: "'u option"
  port_locked :: bool
  interrupts_on :: bool

definition port_static :: "bool \<Rightarrow> 'u serial_port" where
  "port_static interrupts = \<lparr>serial1 = None, port_locked = False, interrupts_on = interrupts\<rparr>"

text \<open>The first use of \<open>SERIAL1\<close> creates the driver.\<close>

definition force_serial1 :: "'u uart_driver \<Rightarrow> 'u serial_port \<Rightarrow> ('u \<times> 'u serial_port) outcome" where
  "force_serial1 d s =
     (case serial1 s of
        Some u \<Rightarrow> Done (u, s)
      | None \<Rightarrow>
          (case new_port d 0x3F8 of
             None \<Rightarrow> Panic (Expect ''failed to initialize UART'')
           | Some u \<Rightarrow> Done (u, s\<lparr>serial1 := Some u\<rparr>)))"

text \<open>The parts of \<open>_print\<close>: \<open>lock\<close> spins while the lock is taken; the guard is dropped after the
  \<open>expect\<close>.\<close>

definition port_lock :: "'u uart_driver \<Rightarrow> 'u serial_port \<Rightarrow> 'u serial_port outcome" where
  "port_lock d s = andthen (force_serial1 d s) (\<lambda>(u, s1).
     if port_locked s1 then Hang else Done (s1\<lparr>port_locked := True\<rparr>))"

definition port_send :: "'u uart_driver \<Rightarrow> string \<Rightarrow> 'u serial_port \<Rightarrow> 'u serial_port outcome" where
  "port_send d str s = andthen (force_serial1 d s) (\<lambda>(u, s1).
     case send d str u of
       None \<Rightarrow> Panic (Expect ''Printing to serial failed'')
     | Some u' \<Rightarrow> Done (s1\<lparr>serial1 := Some u'\<rparr>))"

definition port_unlock :: "'u serial_port \<Rightarrow> 'u serial_port" where
  "port_unlock s = s\<lparr>port_locked := False\<rparr>"

definition without_interrupts ::
    "('u serial_port \<Rightarrow> 'u serial_port outcome) \<Rightarrow> 'u serial_port \<Rightarrow> 'u serial_port outcome" where
  "without_interrupts f s =
     andthen (f (s\<lparr>interrupts_on := False\<rparr>)) (\<lambda>s'. Done (s'\<lparr>interrupts_on := interrupts_on s\<rparr>))"

definition serial_print :: "'u uart_driver \<Rightarrow> string \<Rightarrow> 'u serial_port \<Rightarrow> 'u serial_port outcome" where
  "serial_print d str = without_interrupts (\<lambda>s.
     andthen (port_lock d s) (\<lambda>s1.
     andthen (port_send d str s1) (\<lambda>s2. Done (port_unlock s2))))"

section \<open>A working driver\<close>

text \<open>What the documentation of a UART promises: it can be opened at the port, and every text that is
  sent comes out behind what was sent before (\<open>log u\<close>).\<close>

definition driver_ok :: "'u uart_driver \<Rightarrow> ('u \<Rightarrow> string) \<Rightarrow> bool" where
  "driver_ok d log \<longleftrightarrow> (\<exists>u. new_port d 0x3F8 = Some u \<and> log u = []) \<and>
     (\<forall>str u. \<exists>u'. send d str u = Some u' \<and> log u' = log u @ str)"

definition port_log :: "('u \<Rightarrow> string) \<Rightarrow> 'u serial_port \<Rightarrow> string" where
  "port_log log s = (case serial1 s of None \<Rightarrow> [] | Some u \<Rightarrow> log u)"

lemma force_serial1_Done:
  assumes "driver_ok d log"
  obtains u where "force_serial1 d s = Done (u, s\<lparr>serial1 := Some u\<rparr>)" and "log u = port_log log s"
proof (cases "serial1 s")
  case None
  obtain u where "new_port d 0x3F8 = Some u" "log u = []" using assms by (auto simp: driver_ok_def)
  then show thesis using that [of u] None by (simp add: force_serial1_def port_log_def)
next
  case (Some u)
  then have "s\<lparr>serial1 := Some u\<rparr> = s" by simp
  with Some show thesis using that [of u] by (simp add: force_serial1_def port_log_def)
qed

lemma port_lock_Done:
  assumes "driver_ok d log" and "\<not> port_locked s"
  obtains s' where "port_lock d s = Done s'" and "port_locked s'" and "interrupts_on s' = interrupts_on s"
    and "port_log log s' = port_log log s"
  by (rule force_serial1_Done [OF assms(1), of s])
    (use that assms(2) in \<open>auto simp: port_lock_def port_log_def\<close>)

lemma port_send_Done:
  assumes "driver_ok d log"
  obtains s' where "port_send d str s = Done s'" and "port_locked s' = port_locked s"
    and "interrupts_on s' = interrupts_on s" and "port_log log s' = port_log log s @ str"
proof (rule force_serial1_Done [OF assms, of s])
  fix u assume u: "force_serial1 d s = Done (u, s\<lparr>serial1 := Some u\<rparr>)" "log u = port_log log s"
  obtain u' where "send d str u = Some u'" "log u' = log u @ str" using assms by (auto simp: driver_ok_def)
  then show thesis
    using that [of "s\<lparr>serial1 := Some u'\<rparr>"] u by (simp add: port_send_def port_log_def)
qed

lemma serial_print_Done:
  assumes "driver_ok d log" and "\<not> port_locked s"
  obtains s' where "serial_print d str s = Done s'" and "\<not> port_locked s'"
    and "interrupts_on s' = interrupts_on s" and "port_log log s' = port_log log s @ str"
proof -
  let ?s = "s\<lparr>interrupts_on := False\<rparr>"
  obtain s1 where s1: "port_lock d ?s = Done s1" "port_log log s1 = port_log log ?s"
    using assms by (elim port_lock_Done [of d log ?s]) simp_all
  obtain s2 where s2: "port_send d str s1 = Done s2" "port_log log s2 = port_log log s1 @ str"
    by (rule port_send_Done [OF assms(1)])
  show thesis
    by (rule that [of "(port_unlock s2)\<lparr>interrupts_on := interrupts_on s\<rparr>"])
      (use s1 s2 in \<open>simp_all add: serial_print_def without_interrupts_def port_unlock_def port_log_def\<close>)
qed

section \<open>Printing with interrupts\<close>

text \<open>
  One thread printing, step by step, and interrupt handlers that print in between: a handler is
  entered where interrupts are on, runs with them off and turns them on again as it returns.
\<close>

datatype print_phase = Running | Masked bool string | Holding bool string | Sent bool | Released bool

inductive serial_step :: "'u uart_driver \<Rightarrow> print_phase \<times> 'u serial_port \<Rightarrow> print_phase \<times> 'u serial_port \<Rightarrow> bool"
  for d where
  mask: "serial_step d (Running, s) (Masked (interrupts_on s) str, s\<lparr>interrupts_on := False\<rparr>)"
| take_lock: "port_lock d s = Done s' \<Longrightarrow> serial_step d (Masked b str, s) (Holding b str, s')"
| send_text: "port_send d str s = Done s' \<Longrightarrow> serial_step d (Holding b str, s) (Sent b, s')"
| drop_lock: "serial_step d (Sent b, s) (Released b, port_unlock s)"
| unmask: "serial_step d (Released b, s) (Running, s\<lparr>interrupts_on := b\<rparr>)"
| interrupt: "interrupts_on s \<Longrightarrow> serial_print d str (s\<lparr>interrupts_on := False\<rparr>) = Done s' \<Longrightarrow>
     serial_step d (p, s) (p, s'\<lparr>interrupts_on := True\<rparr>)"

inductive serial_reachable :: "'u uart_driver \<Rightarrow> print_phase \<times> 'u serial_port \<Rightarrow> bool" for d where
  serial_start: "serial_reachable d (Running, port_static b)"
| serial_next: "serial_reachable d c \<Longrightarrow> serial_step d c c' \<Longrightarrow> serial_reachable d c'"

inductive_cases serial_stepE: "serial_step d (p, s) c'"

text \<open>The lock is held in two phases only, and outside \<open>Running\<close> interrupts are off.\<close>

fun lock_phase :: "print_phase \<times> 'u serial_port \<Rightarrow> bool" where
  "lock_phase (Running, s) = (\<not> port_locked s)"
| "lock_phase (Masked b str, s) = (\<not> port_locked s \<and> \<not> interrupts_on s)"
| "lock_phase (Holding b str, s) = (port_locked s \<and> \<not> interrupts_on s)"
| "lock_phase (Sent b, s) = (port_locked s \<and> \<not> interrupts_on s)"
| "lock_phase (Released b, s) = (\<not> port_locked s \<and> \<not> interrupts_on s)"

lemma lock_phase_step:
  assumes "driver_ok d log" and "serial_step d c c'" and "lock_phase c"
  shows "lock_phase c'"
  using assms(2,3)
proof (cases rule: serial_step.cases)
  case (take_lock s s' b str)
  then show ?thesis using assms(3) by (auto elim!: port_lock_Done [OF assms(1), of s])
next
  case (send_text str s s' b)
  obtain s2 where "port_send d str s = Done s2" "port_locked s2 = port_locked s" "interrupts_on s2 = interrupts_on s"
    by (rule port_send_Done [OF assms(1)])
  then show ?thesis using send_text assms(3) by simp
next
  case (interrupt s str s' p)
  then have "\<not> port_locked s" using assms(3) by (cases p) auto
  then obtain s2 where "serial_print d str (s\<lparr>interrupts_on := False\<rparr>) = Done s2" "\<not> port_locked s2"
    using serial_print_Done [OF assms(1), of "s\<lparr>interrupts_on := False\<rparr>"] by auto
  then have "\<not> port_locked s'" using interrupt by simp
  then show ?thesis using interrupt assms(3) by (cases p) auto
qed (auto simp: port_unlock_def)

lemma lock_phase_reachable: "driver_ok d log \<Longrightarrow> serial_reachable d c \<Longrightarrow> lock_phase c"
  by (rotate_tac, induction rule: serial_reachable.induct) (auto simp: port_static_def intro: lock_phase_step)

text \<open>Without an interrupt the steps of the thread are those of \<open>serial_print\<close>.\<close>

lemma serial_print_steps:
  assumes "serial_print d str s = Done s'"
  shows "(serial_step d)\<^sup>*\<^sup>* (Running, s) (Running, s')"
proof -
  obtain s1 s2 where s: "port_lock d (s\<lparr>interrupts_on := False\<rparr>) = Done s1" "port_send d str s1 = Done s2"
    "s' = (port_unlock s2)\<lparr>interrupts_on := interrupts_on s\<rparr>"
    using assms by (auto simp: serial_print_def without_interrupts_def andthen_Done_iff)
  have "serial_step d (Running, s) (Masked (interrupts_on s) str, s\<lparr>interrupts_on := False\<rparr>)" by (rule mask)
  moreover have "serial_step d (Masked (interrupts_on s) str, s\<lparr>interrupts_on := False\<rparr>) (Holding (interrupts_on s) str, s1)"
    by (rule take_lock) (rule s)
  moreover have "serial_step d (Holding (interrupts_on s) str, s1) (Sent (interrupts_on s), s2)"
    by (rule send_text) (rule s)
  moreover have "serial_step d (Sent (interrupts_on s), s2) (Released (interrupts_on s), port_unlock s2)" by (rule drop_lock)
  moreover have "serial_step d (Released (interrupts_on s), port_unlock s2) (Running, s')" unfolding s(3) by (rule unmask)
  ultimately show ?thesis by (meson converse_rtranclp_into_rtranclp rtranclp.rtrancl_refl)
qed

section \<open>Properties\<close>

text \<open>
  C21. Printing cannot deadlock: however a printing thread and interrupt handlers that print are
  interleaved, a handler that is entered finds the lock free and prints its text, and the thread itself
  can always go on; undisturbed, it does what \<open>_print\<close> does.
\<close>

theorem serial_never_deadlocks:
  assumes "driver_ok d log" and "serial_reachable d (p, s)"
  shows "(interrupts_on s \<longrightarrow> (\<exists>s'. serial_print d str (s\<lparr>interrupts_on := False\<rparr>) = Done s' \<and>
      port_log log s' = port_log log s @ str)) \<and>
    (\<exists>p' s'. p' \<noteq> p \<and> serial_step d (p, s) (p', s')) \<and>
    (p = Running \<longrightarrow> (\<exists>s'. serial_print d str s = Done s' \<and> (serial_step d)\<^sup>*\<^sup>* (p, s) (Running, s')))"
proof (intro conjI)
  have inv: "lock_phase (p, s)" by (rule lock_phase_reachable [OF assms])
  show "interrupts_on s \<longrightarrow> (\<exists>s'. serial_print d str (s\<lparr>interrupts_on := False\<rparr>) = Done s' \<and>
      port_log log s' = port_log log s @ str)"
  proof
    assume "interrupts_on s"
    then have "\<not> port_locked (s\<lparr>interrupts_on := False\<rparr>)" using inv by (cases p) auto
    then obtain s' where "serial_print d str (s\<lparr>interrupts_on := False\<rparr>) = Done s'"
      "port_log log s' = port_log log (s\<lparr>interrupts_on := False\<rparr>) @ str"
      by (rule serial_print_Done [OF assms(1)])
    then show "\<exists>s'. serial_print d str (s\<lparr>interrupts_on := False\<rparr>) = Done s' \<and> port_log log s' = port_log log s @ str"
      by (simp add: port_log_def)
  qed
  show "\<exists>p' s'. p' \<noteq> p \<and> serial_step d (p, s) (p', s')"
  proof (cases p)
    case Running
    then show ?thesis using serial_step.mask by fastforce
  next
    case (Masked b line)
    then have "\<not> port_locked s" using inv by simp
    then obtain s' where "port_lock d s = Done s'" by (rule port_lock_Done [OF assms(1)])
    then show ?thesis using Masked serial_step.take_lock by fastforce
  next
    case (Holding b line)
    obtain s' where "port_send d line s = Done s'" by (rule port_send_Done [OF assms(1)])
    then show ?thesis using Holding serial_step.send_text by fastforce
  next
    case (Sent b)
    then show ?thesis using serial_step.drop_lock by fastforce
  next
    case (Released b)
    then show ?thesis using serial_step.unmask by fastforce
  qed
  show "p = Running \<longrightarrow> (\<exists>s'. serial_print d str s = Done s' \<and> (serial_step d)\<^sup>*\<^sup>* (p, s) (Running, s'))"
  proof
    assume p: "p = Running"
    then have "\<not> port_locked s" using inv by simp
    then obtain s' where "serial_print d str s = Done s'" by (rule serial_print_Done [OF assms(1)])
    then show "\<exists>s'. serial_print d str s = Done s' \<and> (serial_step d)\<^sup>*\<^sup>* (p, s) (Running, s')"
      using serial_print_steps p by blast
  qed
qed

definition sample_driver :: "string uart_driver" where
  "sample_driver = \<lparr>new_port = (\<lambda>_. Some []), send = (\<lambda>str u. Some (u @ str))\<rparr>"

lemma sample_driver_ok: "driver_ok sample_driver (\<lambda>u. u)"
  by (simp add: driver_ok_def sample_driver_def)

theorem serial_never_deadlocks_witness:
  "\<exists>s'. serial_print sample_driver ''irq'' ((port_static True)\<lparr>interrupts_on := False\<rparr>) = Done s' \<and>
     port_log (\<lambda>u. u) s' = ''irq''"
  using serial_never_deadlocks [OF sample_driver_ok serial_start, of True "''irq''"]
  by (auto simp: port_static_def port_log_def)



end
