(* ===== verification/Test_Script.thy ===== *)
theory Test_Script
  imports Test_Runner
begin

text \<open>
  How the kernel's own tests are written down: a test is a list of statements, each of which changes
  the state of the test and may end it with \<open>Fail\<close>, an early \<open>return TestResult::Fail(...)\<close> of the
  source. A test that runs through all its statements ends with \<open>Pass\<close>.
\<close>

type_synonym 's stmt = "'s \<Rightarrow> (test_result \<times> 's) outcome"

primrec script :: "'s stmt list \<Rightarrow> 's stmt" where
  "script [] s = Done (Pass, s)"
| "script (c # cs) s = andthen (c s) (\<lambda>(r, s'). case r of Pass \<Rightarrow> script cs s' | Fail reason \<Rightarrow> Done (Fail reason, s'))"

text \<open>A call, and \<open>if bad { return TestResult::Fail(reason) }\<close>.\<close>

definition exec :: "('s \<Rightarrow> 's outcome) \<Rightarrow> 's stmt" where
  "exec f s = andthen (f s) (\<lambda>s'. Done (Pass, s'))"

definition fail_if :: "('s \<Rightarrow> bool) \<Rightarrow> string \<Rightarrow> 's stmt" where
  "fail_if bad reason s = Done (if bad s then Fail reason else Pass, s)"

text \<open>\<open>for x in xs { ... }\<close> with the same early returns.\<close>

definition loop :: "'x list \<Rightarrow> ('x \<Rightarrow> 's stmt list) \<Rightarrow> 's stmt" where
  "loop xs body = script (map (\<lambda>x. script (body x)) xs)"

text \<open>The attribute \<open>#[test]\<close> (\<open>test_macro/src/lib.rs\<close>): it keeps the function and registers an entry
  with its name.\<close>

definition registered :: "string \<Rightarrow> (kernel \<Rightarrow> (test_result \<times> kernel) outcome) \<Rightarrow> test" where
  "registered name f = \<lparr>test_name = name, test_function = f\<rparr>"

section \<open>Running a script\<close>

lemma script_append:
  "script (cs @ ds) s = andthen (script cs s) (\<lambda>(r, s'). case r of Pass \<Rightarrow> script ds s' | Fail reason \<Rightarrow> Done (Fail reason, s'))"
  by (induction cs arbitrary: s)
    (auto simp: andthen_assoc intro!: andthen_cong split: test_result.splits)

lemma script_exec: "f s = Done s' \<Longrightarrow> script (exec f # cs) s = script cs s'"
  by (simp add: exec_def)

lemma script_fail_if: "\<not> bad s \<Longrightarrow> script (fail_if bad reason # cs) s = script cs s"
  by (simp add: fail_if_def)

lemma script_Pass: "c s = Done (Pass, s') \<Longrightarrow> script (c # cs) s = script cs s'"
  by simp

end
