(* ===== verification/Test_Console.thy ===== *)
theory Test_Console
  imports Test_Script
begin

text \<open>
  The console's own tests, the module \<open>tests\<close> of \<open>src/console.rs\<close>. Each of them makes a console of its
  own with \<open>Console::new\<close>, which fills the static cell buffer \<open>CELLS\<close> that all consoles share: what
  the test leaves in the cells is afterwards in the cells of the kernel's console, while that
  console's cursor, colours and line buffer are untouched. The drawing of the test goes to the
  kernel's framebuffer.
\<close>

type_synonym kernel_test = "kernel \<Rightarrow> (test_result \<times> kernel) outcome"

definition share_cells :: "console \<Rightarrow> ui \<Rightarrow> ui" where
  "share_cells con u = u\<lparr>ui_console := map_option (\<lambda>global. global\<lparr>cells := cells con\<rparr>) (ui_console u)\<rparr>"

definition on_new_console :: "8 word list \<Rightarrow> nat \<Rightarrow> nat \<Rightarrow> tty stmt list \<Rightarrow> kernel_test" where
  "on_new_console font_file w h statements k =
     andthen (console_new font_file w h) (\<lambda>con.
     andthen (script statements (con, ui_fb (k_ui k))) (\<lambda>(result, con', fb').
       Done (result, k\<lparr>k_ui := (share_cells con' (k_ui k))\<lparr>ui_fb := fb'\<rparr>\<rparr>)))"

definition assert_cell_char :: "console \<Rightarrow> nat \<Rightarrow> nat \<Rightarrow> char \<Rightarrow> test_result" where
  "assert_cell_char con row column expected =
     (if character (get_cell row column con) \<noteq> expected
      then Fail ''terminal cell contains incorrect character'' else Pass)"

text \<open>\<open>console.input[..n].copy_from_slice(line); console.input_len = n; console.line_ready = true\<close>\<close>

definition type_ahead :: "string \<Rightarrow> tty \<Rightarrow> tty outcome" where
  "type_ahead line = (\<lambda>(con, fb).
     if length line \<le> length (input con)
     then Done (con\<lparr>input := line @ drop (length line) (input con), input_len := length line,
                    line_ready := True\<rparr>, fb)
     else Panic IndexOutOfBounds)"

section \<open>Construction\<close>

definition console_initializes_cursor_and_input_state :: "8 word list \<Rightarrow> kernel_test" where
  "console_initializes_cursor_and_input_state font_file = on_new_console font_file 800 480
    [fail_if (\<lambda>(con, fb). cursor_x con \<noteq> 0) ''cursor_x is not initialized to zero'',
     fail_if (\<lambda>(con, fb). cursor_y con \<noteq> 0) ''cursor_y is not initialized to zero'',
     fail_if (\<lambda>(con, fb). columns con \<noteq> 100) ''console column count is incorrect'',
     fail_if (\<lambda>(con, fb). rows con \<noteq> 30) ''console row count is incorrect'',
     fail_if (\<lambda>(con, fb). input_len con \<noteq> 0) ''input buffer is not empty'',
     fail_if (\<lambda>(con, fb). line_ready con) ''line_ready is initially set'']"

definition console_calculates_columns_correctly :: "8 word list \<Rightarrow> kernel_test" where
  "console_calculates_columns_correctly font_file = on_new_console font_file 801 480
    [fail_if (\<lambda>(con, fb). columns con \<noteq> 100) ''console did not floor width correctly'']"

definition console_calculates_rows_correctly :: "8 word list \<Rightarrow> kernel_test" where
  "console_calculates_rows_correctly font_file = on_new_console font_file 800 479
    [fail_if (\<lambda>(con, fb). rows con \<noteq> 29) ''console did not floor height correctly'']"

definition console_handles_zero_dimensions :: "8 word list \<Rightarrow> kernel_test" where
  "console_handles_zero_dimensions font_file = on_new_console font_file 0 0
    [fail_if (\<lambda>(con, fb). columns con \<noteq> 0) ''zero-width console has columns'',
     fail_if (\<lambda>(con, fb). rows con \<noteq> 0) ''zero-height console has rows'']"

section \<open>Output\<close>

definition console_writes_characters :: "8 word list \<Rightarrow> kernel_test" where
  "console_writes_characters font_file = on_new_console font_file 80 32
    [exec (write_str ''abc''),
     fail_if (\<lambda>(con, fb). cursor_x con \<noteq> 3) ''writing characters does not advance cursor'',
     fail_if (\<lambda>(con, fb). cursor_y con \<noteq> 0) ''writing characters changed cursor row'',
     fail_if (\<lambda>(con, fb). \<not> passed (assert_cell_char con 0 0 (CHR ''a''))) ''first cell does not contain a'',
     fail_if (\<lambda>(con, fb). \<not> passed (assert_cell_char con 0 1 (CHR ''b''))) ''second cell does not contain b'',
     fail_if (\<lambda>(con, fb). \<not> passed (assert_cell_char con 0 2 (CHR ''c''))) ''third cell does not contain c'']"

definition console_writes_multiple_lines :: "8 word list \<Rightarrow> kernel_test" where
  "console_writes_multiple_lines font_file = on_new_console font_file 80 64
    [exec (write_str (''abc'' @ [CHR 0x0A] @ ''def'')),
     fail_if (\<lambda>(con, fb). character (get_cell 0 0 con) \<noteq> CHR ''a'') ''first line is incorrect'',
     fail_if (\<lambda>(con, fb). character (get_cell 1 0 con) \<noteq> CHR ''d'') ''second line is incorrect'']"

definition console_newline_moves_to_next_row :: "8 word list \<Rightarrow> kernel_test" where
  "console_newline_moves_to_next_row font_file = on_new_console font_file 80 32
    [exec (write_str (''abc'' @ [CHR 0x0A] @ ''def'')),
     fail_if (\<lambda>(con, fb). cursor_x con \<noteq> 3) ''cursor column after newline is incorrect'',
     fail_if (\<lambda>(con, fb). cursor_y con \<noteq> 1) ''newline did not advance row'']"

definition console_multiple_newlines :: "8 word list \<Rightarrow> kernel_test" where
  "console_multiple_newlines font_file = on_new_console font_file 80 64
    [exec (write_str ([CHR 0x0A] @ [CHR 0x0A] @ [CHR 0x0A])),
     fail_if (\<lambda>(con, fb). cursor_x con \<noteq> 0) ''multiple newlines changed column'',
     fail_if (\<lambda>(con, fb). cursor_y con \<noteq> 3) ''multiple newlines produced wrong row'']"

definition console_carriage_return_resets_column :: "8 word list \<Rightarrow> kernel_test" where
  "console_carriage_return_resets_column font_file = on_new_console font_file 80 32
    [exec (write_str (''abcdef'' @ [CHR 0x0D] @ ''xy'')),
     fail_if (\<lambda>(con, fb). cursor_x con \<noteq> 2) ''carriage return did not reset column'',
     fail_if (\<lambda>(con, fb). cursor_y con \<noteq> 0) ''carriage return changed row'']"

definition console_carriage_return_overwrites_cells :: "8 word list \<Rightarrow> kernel_test" where
  "console_carriage_return_overwrites_cells font_file = on_new_console font_file 80 32
    [exec (write_str (''abcdef'' @ [CHR 0x0D] @ ''xy'')),
     fail_if (\<lambda>(con, fb). character (get_cell 0 0 con) \<noteq> CHR ''x'') ''carriage return did not overwrite first cell'',
     fail_if (\<lambda>(con, fb). character (get_cell 0 1 con) \<noteq> CHR ''y'') ''carriage return did not overwrite second cell'']"

definition console_tab_advances_to_next_tab_stop :: "8 word list \<Rightarrow> kernel_test" where
  "console_tab_advances_to_next_tab_stop font_file = on_new_console font_file 80 32
    [exec (write_str (''a'' @ [CHR 0x09])),
     fail_if (\<lambda>(con, fb). cursor_x con \<noteq> 4) ''tab did not advance to next tab stop'',
     exec (write_str (''b'' @ [CHR 0x09])),
     fail_if (\<lambda>(con, fb). cursor_x con \<noteq> 8) ''second tab did not advance correctly'']"

definition console_tab_from_tab_stop_advances :: "8 word list \<Rightarrow> kernel_test" where
  "console_tab_from_tab_stop_advances font_file = on_new_console font_file 80 32
    [exec (write_str (''abcd'' @ [CHR 0x09])),
     fail_if (\<lambda>(con, fb). cursor_x con \<noteq> 8) ''tab from existing stop is incorrect'']"

definition console_tab_at_right_edge_wraps :: "8 word list \<Rightarrow> kernel_test" where
  "console_tab_at_right_edge_wraps font_file = on_new_console font_file 32 32
    [exec (write_str (''abc'' @ [CHR 0x09])),
     fail_if (\<lambda>(con, fb). cursor_y con \<noteq> 1) ''tab did not wrap at right edge'',
     fail_if (\<lambda>(con, fb). cursor_x con \<noteq> 0) ''tab wrap did not reset column'']"

definition console_wraps_at_right_edge :: "8 word list \<Rightarrow> kernel_test" where
  "console_wraps_at_right_edge font_file = on_new_console font_file 16 32
    [exec (write_str ''ab''),
     fail_if (\<lambda>(con, fb). cursor_x con \<noteq> 0) ''console did not wrap at right edge'',
     fail_if (\<lambda>(con, fb). cursor_y con \<noteq> 1) ''console did not advance row after wrapping'']"

definition console_wrap_preserves_characters :: "8 word list \<Rightarrow> kernel_test" where
  "console_wrap_preserves_characters font_file = on_new_console font_file 16 32
    [exec (write_str ''ab''),
     fail_if (\<lambda>(con, fb). character (get_cell 0 0 con) \<noteq> CHR ''a'') ''wrapped line lost first character'',
     fail_if (\<lambda>(con, fb). character (get_cell 0 1 con) \<noteq> CHR ''b'') ''wrapped line lost second character'']"

definition console_backspace_moves_cursor_back :: "8 word list \<Rightarrow> kernel_test" where
  "console_backspace_moves_cursor_back font_file = on_new_console font_file 80 32
    [exec (write_str ''abc''),
     exec (write_str [CHR 0x08]),
     fail_if (\<lambda>(con, fb). cursor_x con \<noteq> 2) ''backspace did not move cursor backwards'']"

definition console_backspace_clears_cell :: "8 word list \<Rightarrow> kernel_test" where
  "console_backspace_clears_cell font_file = on_new_console font_file 80 32
    [exec (write_str ''abc''),
     exec (write_str [CHR 0x08]),
     fail_if (\<lambda>(con, fb). character (get_cell 0 2 con) \<noteq> CHR '' '') ''backspace did not clear cell'']"

definition console_backspace_at_origin_is_safe :: "8 word list \<Rightarrow> kernel_test" where
  "console_backspace_at_origin_is_safe font_file = on_new_console font_file 80 32
    [exec (write_str [CHR 0x08]),
     fail_if (\<lambda>(con, fb). cursor_x con \<noteq> 0 \<or> cursor_y con \<noteq> 0) ''backspace at origin moved cursor'']"

section \<open>Clearing\<close>

definition console_clear_resets_cursor :: "8 word list \<Rightarrow> kernel_test" where
  "console_clear_resets_cursor font_file = on_new_console font_file 800 480
    [exec (write_str (''hello'' @ [CHR 0x0A] @ ''world'')),
     exec clear_console,
     fail_if (\<lambda>(con, fb). cursor_x con \<noteq> 0 \<or> cursor_y con \<noteq> 0) ''clear did not reset cursor'']"

definition console_clear_resets_input :: "8 word list \<Rightarrow> kernel_test" where
  "console_clear_resets_input font_file = on_new_console font_file 800 480
    [exec (type_ahead ''hello''),
     exec clear_console,
     fail_if (\<lambda>(con, fb). input_len con \<noteq> 0) ''clear did not reset input length'',
     fail_if (\<lambda>(con, fb). line_ready con) ''clear did not reset line_ready'']"

definition console_clear_resets_cells :: "8 word list \<Rightarrow> kernel_test" where
  "console_clear_resets_cells font_file = on_new_console font_file 800 480
    [exec (write_str ''hello world''),
     exec clear_console,
     \<lambda>(con, fb). loop [0 ..< rows con] (\<lambda>row. [loop [0 ..< columns con] (\<lambda>column.
       [fail_if (\<lambda>(con, fb). character (get_cell row column con) \<noteq> CHR '' '') ''clear left non-empty terminal cell''])]) (con, fb)]"

section \<open>Scrolling\<close>

definition console_scroll_moves_logical_lines_up :: "8 word list \<Rightarrow> kernel_test" where
  "console_scroll_moves_logical_lines_up font_file = on_new_console font_file 80 (3 * CHAR_HEIGHT)
    [exec (write_str (''A'' @ [CHR 0x0A] @ ''B'' @ [CHR 0x0A] @ ''C'')),
     exec (write_str [CHR 0x0A]),
     fail_if (\<lambda>(con, fb). character (get_cell 0 0 con) \<noteq> CHR ''B'') ''scroll did not move second line to first'',
     fail_if (\<lambda>(con, fb). character (get_cell 1 0 con) \<noteq> CHR ''C'') ''scroll did not move third line to second'',
     fail_if (\<lambda>(con, fb). character (get_cell 2 0 con) \<noteq> CHR '' '') ''scroll did not clear new bottom row'',
     fail_if (\<lambda>(con, fb). cursor_y con \<noteq> 2) ''cursor is not on bottom row after scroll'',
     fail_if (\<lambda>(con, fb). cursor_x con \<noteq> 0) ''cursor column is incorrect after scroll'']"

definition console_scroll_preserves_entire_lines :: "8 word list \<Rightarrow> kernel_test" where
  "console_scroll_preserves_entire_lines font_file = on_new_console font_file 40 (3 * CHAR_HEIGHT)
    [exec (write_str (''AAAA'' @ [CHR 0x0A] @ ''BBBB'' @ [CHR 0x0A] @ ''CCCC'' @ [CHR 0x0A])),
     fail_if (\<lambda>(con, fb). character (get_cell 0 0 con) \<noteq> CHR ''B'') ''scroll corrupted first character'',
     fail_if (\<lambda>(con, fb). character (get_cell 0 3 con) \<noteq> CHR ''B'') ''scroll corrupted first line'',
     fail_if (\<lambda>(con, fb). character (get_cell 1 0 con) \<noteq> CHR ''C'') ''scroll corrupted second line'',
     fail_if (\<lambda>(con, fb). character (get_cell 1 3 con) \<noteq> CHR ''C'') ''scroll corrupted second line end'']"

section \<open>Colours\<close>

definition console_default_colors_are_correct :: "8 word list \<Rightarrow> kernel_test" where
  "console_default_colors_are_correct font_file = on_new_console font_file 800 480
    [fail_if (\<lambda>(con, fb). foreground con \<noteq> DEFAULT_FOREGROUND) ''default foreground color is incorrect'',
     fail_if (\<lambda>(con, fb). background con \<noteq> DEFAULT_BACKGROUND) ''default background color is incorrect'']"

definition console_set_foreground_changes_color :: "8 word list \<Rightarrow> kernel_test" where
  "console_set_foreground_changes_color font_file = on_new_console font_file 800 480
    [exec (\<lambda>(con, fb). Done (set_foreground RED con, fb)),
     fail_if (\<lambda>(con, fb). foreground con \<noteq> RED) ''set_foreground failed'']"

definition console_set_background_changes_color :: "8 word list \<Rightarrow> kernel_test" where
  "console_set_background_changes_color font_file = on_new_console font_file 800 480
    [exec (\<lambda>(con, fb). Done (set_background BLUE con, fb)),
     fail_if (\<lambda>(con, fb). background con \<noteq> BLUE) ''set_background failed'']"

definition console_cells_store_colors :: "8 word list \<Rightarrow> kernel_test" where
  "console_cells_store_colors font_file = on_new_console font_file 800 480
    [exec (\<lambda>(con, fb). Done (set_foreground RED con, fb)),
     exec (\<lambda>(con, fb). Done (set_background BLUE con, fb)),
     exec (write_str ''X''),
     fail_if (\<lambda>(con, fb). cell_foreground (get_cell 0 0 con) \<noteq> RED) ''cell did not store foreground color'',
     fail_if (\<lambda>(con, fb). cell_background (get_cell 0 0 con) \<noteq> BLUE) ''cell did not store background color'']"

section \<open>Input\<close>

definition console_read_line_returns_none_until_ready :: "8 word list \<Rightarrow> kernel_test" where
  "console_read_line_returns_none_until_ready font_file = on_new_console font_file 80 32
    [\<lambda>(con, fb). andthen (read_line (replicate 16 (CHR 0x00)) con) (\<lambda>(n, buffer, con).
       Done (if n \<noteq> None then Fail ''read_line returned line before Enter'' else Pass, con, fb))]"

definition console_receive_key_stores_input :: "8 word list \<Rightarrow> kernel_test" where
  "console_receive_key_stores_input font_file = on_new_console font_file 800 480
    [exec (receive_key 0x68),
     exec (receive_key 0x69),
     fail_if (\<lambda>(con, fb). input_len con \<noteq> 2) ''receive_key stored incorrect input length'',
     fail_if (\<lambda>(con, fb). input con ! 0 \<noteq> CHR ''h'' \<or> input con ! 1 \<noteq> CHR ''i'') ''receive_key stored incorrect characters'']"

definition console_enter_marks_line_ready :: "8 word list \<Rightarrow> kernel_test" where
  "console_enter_marks_line_ready font_file = on_new_console font_file 800 480
    [exec (receive_key 0x68),
     exec (receive_key 0x69),
     exec (receive_key 0x0A),
     fail_if (\<lambda>(con, fb). \<not> line_ready con) ''Enter did not mark line ready'']"

definition console_read_line_consumes_input :: "8 word list \<Rightarrow> kernel_test" where
  "console_read_line_consumes_input font_file = on_new_console font_file 80 32
    [exec (type_ahead ''hello''),
     \<lambda>(con, fb). andthen (read_line (replicate 16 (CHR 0x00)) con) (\<lambda>(n, buffer, con).
       case n of
         None \<Rightarrow> Done (Fail ''read_line did not return ready line'', con, fb)
       | Some len \<Rightarrow> script
           [fail_if (\<lambda>_. len \<noteq> 5) ''read_line returned incorrect length'',
            fail_if (\<lambda>_. take 5 buffer \<noteq> ''hello'') ''read_line returned incorrect contents'',
            fail_if (\<lambda>(con, fb). input_len con \<noteq> 0) ''read_line did not consume input'',
            fail_if (\<lambda>(con, fb). line_ready con) ''read_line did not clear line_ready''] (con, fb))]"

definition console_read_line_truncates_destination :: "8 word list \<Rightarrow> kernel_test" where
  "console_read_line_truncates_destination font_file = on_new_console font_file 80 32
    [exec (type_ahead ''abcdef''),
     \<lambda>(con, fb). andthen (read_line (replicate 3 (CHR 0x00)) con) (\<lambda>(n, buffer, con).
       case n of
         None \<Rightarrow> Done (Fail ''read_line did not return ready line'', con, fb)
       | Some len \<Rightarrow> script
           [fail_if (\<lambda>_. len \<noteq> 3) ''read_line did not truncate'',
            fail_if (\<lambda>_. buffer \<noteq> ''abc'') ''truncated line has incorrect contents''] (con, fb))]"

definition console_input_cannot_exceed_input_size :: "8 word list \<Rightarrow> kernel_test" where
  "console_input_cannot_exceed_input_size font_file = on_new_console font_file 1920 1080
    [exec (for_each [0 ..< INPUT_SIZE + 100] (\<lambda>_. receive_key 0x61)),
     fail_if (\<lambda>(con, fb). input_len con \<noteq> INPUT_SIZE) ''input buffer exceeded INPUT_SIZE'']"

definition console_ignores_unknown_control_characters :: "8 word list \<Rightarrow> kernel_test" where
  "console_ignores_unknown_control_characters font_file = on_new_console font_file 800 480
    [exec (write_str ''abc''),
     \<lambda>(con, fb). let x = cursor_x con; y = cursor_y con in script
       [exec (put_char (CHR 0x01)), exec (put_char (CHR 0x02)), exec (put_char (CHR 0x7f)),
        fail_if (\<lambda>(con, fb). cursor_x con \<noteq> x) ''unknown control character moved cursor'',
        fail_if (\<lambda>(con, fb). cursor_y con \<noteq> y) ''unknown control character moved row''] (con, fb)]"

section \<open>Long output\<close>

definition console_handles_long_output :: "8 word list \<Rightarrow> kernel_test" where
  "console_handles_long_output font_file = on_new_console font_file 800 480
    [exec (for_each [0 ..< 500] (\<lambda>_. write_str (''hello world'' @ [CHR 0x0A]))),
     fail_if (\<lambda>(con, fb). rows con \<le> cursor_y con) ''cursor escaped console after long output'',
     fail_if (\<lambda>(con, fb). columns con \<le> cursor_x con) ''cursor escaped columns after long output'']"

definition console_repeated_clear_and_write_is_stable :: "8 word list \<Rightarrow> kernel_test" where
  "console_repeated_clear_and_write_is_stable font_file = on_new_console font_file 800 480
    [loop [0 ..< 20] (\<lambda>_.
       [exec clear_console,
        exec (write_str (''hello'' @ [CHR 0x0A] @ ''world'')),
        fail_if (\<lambda>(con, fb). cursor_y con \<noteq> 1) ''repeated clear/write corrupted cursor'',
        fail_if (\<lambda>(con, fb). character (get_cell 0 0 con) \<noteq> CHR ''h'') ''repeated clear/write corrupted cells''])]"

section \<open>The registered tests\<close>

definition console_tests :: "8 word list \<Rightarrow> test list" where
  "console_tests font_file =
    [registered ''console_initializes_cursor_and_input_state'' (console_initializes_cursor_and_input_state font_file),
     registered ''console_calculates_columns_correctly'' (console_calculates_columns_correctly font_file),
     registered ''console_calculates_rows_correctly'' (console_calculates_rows_correctly font_file),
     registered ''console_handles_zero_dimensions'' (console_handles_zero_dimensions font_file),
     registered ''console_writes_characters'' (console_writes_characters font_file),
     registered ''console_writes_multiple_lines'' (console_writes_multiple_lines font_file),
     registered ''console_newline_moves_to_next_row'' (console_newline_moves_to_next_row font_file),
     registered ''console_multiple_newlines'' (console_multiple_newlines font_file),
     registered ''console_carriage_return_resets_column'' (console_carriage_return_resets_column font_file),
     registered ''console_carriage_return_overwrites_cells'' (console_carriage_return_overwrites_cells font_file),
     registered ''console_tab_advances_to_next_tab_stop'' (console_tab_advances_to_next_tab_stop font_file),
     registered ''console_tab_from_tab_stop_advances'' (console_tab_from_tab_stop_advances font_file),
     registered ''console_tab_at_right_edge_wraps'' (console_tab_at_right_edge_wraps font_file),
     registered ''console_wraps_at_right_edge'' (console_wraps_at_right_edge font_file),
     registered ''console_wrap_preserves_characters'' (console_wrap_preserves_characters font_file),
     registered ''console_backspace_moves_cursor_back'' (console_backspace_moves_cursor_back font_file),
     registered ''console_backspace_clears_cell'' (console_backspace_clears_cell font_file),
     registered ''console_backspace_at_origin_is_safe'' (console_backspace_at_origin_is_safe font_file),
     registered ''console_clear_resets_cursor'' (console_clear_resets_cursor font_file),
     registered ''console_clear_resets_input'' (console_clear_resets_input font_file),
     registered ''console_clear_resets_cells'' (console_clear_resets_cells font_file),
     registered ''console_scroll_moves_logical_lines_up'' (console_scroll_moves_logical_lines_up font_file),
     registered ''console_scroll_preserves_entire_lines'' (console_scroll_preserves_entire_lines font_file),
     registered ''console_default_colors_are_correct'' (console_default_colors_are_correct font_file),
     registered ''console_set_foreground_changes_color'' (console_set_foreground_changes_color font_file),
     registered ''console_set_background_changes_color'' (console_set_background_changes_color font_file),
     registered ''console_cells_store_colors'' (console_cells_store_colors font_file),
     registered ''console_read_line_returns_none_until_ready'' (console_read_line_returns_none_until_ready font_file),
     registered ''console_receive_key_stores_input'' (console_receive_key_stores_input font_file),
     registered ''console_enter_marks_line_ready'' (console_enter_marks_line_ready font_file),
     registered ''console_read_line_consumes_input'' (console_read_line_consumes_input font_file),
     registered ''console_read_line_truncates_destination'' (console_read_line_truncates_destination font_file),
     registered ''console_input_cannot_exceed_input_size'' (console_input_cannot_exceed_input_size font_file),
     registered ''console_ignores_unknown_control_characters'' (console_ignores_unknown_control_characters font_file),
     registered ''console_handles_long_output'' (console_handles_long_output font_file),
     registered ''console_repeated_clear_and_write_is_stable'' (console_repeated_clear_and_write_is_stable font_file)]"

end
