(* ===== verification/Test_Console_Props.thy ===== *)
theory Test_Console_Props
  imports Test_Console Grid
begin

text \<open>
  The kernel's console tests pass on every framebuffer, whatever its size: the checks are evaluated
  on the grid, which the drawing operations refine (\<open>Grid\<close>).
\<close>

definition fresh :: "font \<Rightarrow> nat \<Rightarrow> nat \<Rightarrow> console" where
  "fresh f w h = \<lparr>con_font = f, cursor_x = 0, cursor_y = 0,
     columns = min (w div CHAR_WIDTH) MAX_COLUMNS, rows = min (h div CHAR_HEIGHT) MAX_ROWS,
     foreground = DEFAULT_FOREGROUND, background = DEFAULT_BACKGROUND,
     cells = (\<lambda>_. EMPTY), input = replicate INPUT_SIZE (CHR 0x00), input_len = 0, line_ready = False\<rparr>"

lemma fresh_ok: "font_ok f \<Longrightarrow> grid_ok (fresh f w h)"
  by (auto simp: grid_ok_def fresh_def max_def)

section \<open>Statements on a console\<close>

text \<open>The statements run through on every framebuffer and end with a console that satisfies \<open>P\<close>.\<close>

definition con_runs :: "(console \<Rightarrow> bool) \<Rightarrow> tty stmt list \<Rightarrow> console \<Rightarrow> bool" where
  "con_runs P cs con \<longleftrightarrow> (\<forall>i fb. grid_ok con \<longrightarrow> fb_inv i fb \<longrightarrow>
     (\<exists>con' fb'. script cs (con, fb) = Done (Pass, con', fb') \<and> fb_kept i fb fb' \<and> grid_ok con' \<and> P con'))"

lemma runs_Nil: "P con \<Longrightarrow> con_runs P [] con"
  by (auto simp: con_runs_def fb_kept_refl)

lemma runs_Cons:
  assumes "con_runs Q [c] con" and "\<And>con. Q con \<Longrightarrow> con_runs P cs con"
  shows "con_runs P (c # cs) con"
  unfolding con_runs_def
proof (intro allI impI)
  fix i fb assume ok: "grid_ok con" "fb_inv i fb"
  obtain con1 fb1 where 1: "script [c] (con, fb) = Done (Pass, con1, fb1)" "fb_kept i fb fb1" "grid_ok con1" "Q con1"
    using assms(1) ok unfolding con_runs_def by blast
  obtain con2 fb2 where 2: "script cs (con1, fb1) = Done (Pass, con2, fb2)" "fb_kept i fb1 fb2" "grid_ok con2" "P con2"
    using assms(2) [OF 1(4)] 1(3) fb_kept_inv [OF 1(2)] unfolding con_runs_def by blast
  have "script (c # cs) (con, fb) = Done (Pass, con2, fb2)"
    using script_append [of "[c]" cs "(con, fb)"] 1(1) 2(1) by simp
  then show "\<exists>con' fb'. script (c # cs) (con, fb) = Done (Pass, con', fb') \<and> fb_kept i fb fb' \<and> grid_ok con' \<and> P con'"
    using 1 2 fb_kept_trans by blast
qed

lemma runs_exec:
  assumes "refines_grid f g" and "con_runs P cs (g con)"
  shows "con_runs P (exec f # cs) con"
proof (rule runs_Cons)
  show "con_runs ((=) (g con)) [exec f] con"
    unfolding con_runs_def
  proof (intro allI impI)
    fix i fb assume ok: "grid_ok con" "fb_inv i fb"
    obtain fb1 where "f (con, fb) = Done (g con, fb1)" "fb_kept i fb fb1" "grid_ok (g con)"
      by (rule refinesD [OF assms(1) ok])
    then show "\<exists>con' fb'. script [exec f] (con, fb) = Done (Pass, con', fb') \<and> fb_kept i fb fb' \<and>
        grid_ok con' \<and> g con = con'"
      by (simp add: exec_def)
  qed
qed (use assms(2) in simp)

lemma runs_check:
  assumes "\<And>fb. \<not> bad (con, fb)" and "con_runs P cs con"
  shows "con_runs P (fail_if bad reason # cs) con"
  using assms by (simp add: con_runs_def fail_if_def)

text \<open>A statement that leaves the framebuffer alone.\<close>

lemma runs_same:
  assumes "\<And>fb. c (con, fb) = Done (Pass, con', fb)" and "grid_ok con \<Longrightarrow> grid_ok con'" and "con_runs P cs con'"
  shows "con_runs P (c # cs) con"
  using assms by (simp add: con_runs_def)

lemma runs_script: "con_runs P ds con \<Longrightarrow> con_runs P [script ds] con"
  by (fastforce simp: con_runs_def)

lemma runs_instead: "(\<And>fb. c (con, fb) = d (con, fb)) \<Longrightarrow> con_runs P [d] con \<Longrightarrow> con_runs P [c] con"
  by (simp add: con_runs_def)

lemma runs_loop:
  assumes "\<And>x con. x \<in> set xs \<Longrightarrow> P con \<Longrightarrow> con_runs P (body x) con" and "P con"
  shows "con_runs P [loop xs body] con"
proof -
  have "con_runs P (map (\<lambda>x. script (body x)) xs) con"
    using assms
  proof (induction xs arbitrary: con)
    case (Cons x xs)
    show ?case
      unfolding list.map
      by (rule runs_Cons [where Q = P, OF runs_script]) (use Cons in auto)
  qed (simp add: runs_Nil)
  then show ?thesis unfolding loop_def by (rule runs_script)
qed

lemmas runs_print = runs_exec [OF refines_write_str]
lemmas runs_clear = runs_exec [OF refines_clear]
lemmas runs_key = runs_exec [OF refines_receive_key]
lemmas runs_put = runs_exec [OF refines_put_char]

lemma refines_colours:
  "refines_grid (\<lambda>(con, fb). Done (set_foreground c con, fb)) (set_foreground c)"
  "refines_grid (\<lambda>(con, fb). Done (set_background c con, fb)) (set_background c)"
  by (rule refines_pure, simp add: grid_ok_def same_grid_def set_foreground_def set_background_def)+

lemmas runs_colours = refines_colours [THEN runs_exec]

lemma type_ahead_runs:
  assumes "length line \<le> INPUT_SIZE"
    and "con_runs P cs (con\<lparr>input := line @ drop (length line) (input con), input_len := length line, line_ready := True\<rparr>)"
  shows "con_runs P (exec (type_ahead line) # cs) con"
proof -
  let ?con = "con\<lparr>input := line @ drop (length line) (input con), input_len := length line, line_ready := True\<rparr>"
  have "script (exec (type_ahead line) # cs) (con, fb) = script cs (?con, fb) \<and> grid_ok ?con"
    if "grid_ok con" for fb
    using that assms(1) by (simp add: exec_def type_ahead_def grid_ok_def)
  then show ?thesis using assms(2) unfolding con_runs_def by metis
qed

text \<open>What a test leaves of the kernel: the framebuffer within its bounds, the shared cells changed.\<close>

definition console_tested :: "info \<Rightarrow> kernel \<Rightarrow> kernel \<Rightarrow> bool" where
  "console_tested i k k' \<longleftrightarrow> (\<exists>con fb'. fb_kept i (ui_fb (k_ui k)) fb' \<and>
     k' = k\<lparr>k_ui := (share_cells con (k_ui k))\<lparr>ui_fb := fb'\<rparr>\<rparr>)"

definition console_test_passes :: "8 word list \<Rightarrow> kernel_test \<Rightarrow> bool" where
  "console_test_passes font_file t \<longleftrightarrow> (\<forall>f i k. font_new font_file = Done f \<longrightarrow> font_ok f \<longrightarrow>
     fb_inv i (ui_fb (k_ui k)) \<longrightarrow> (\<exists>k'. t k = Done (Pass, k') \<and> console_tested i k k'))"

lemma on_new_console_passes:
  assumes "\<And>f. con_runs (\<lambda>_. True) cs (fresh f w h)"
  shows "console_test_passes font_file (on_new_console font_file w h cs)"
  unfolding console_test_passes_def
proof (intro allI impI)
  fix f i and k :: kernel
  assume f: "font_new font_file = Done f" "font_ok f" and inv: "fb_inv i (ui_fb (k_ui k))"
  obtain con' fb' where "script cs (fresh f w h, ui_fb (k_ui k)) = Done (Pass, con', fb')"
    "fb_kept i (ui_fb (k_ui k)) fb'"
    using assms fresh_ok [OF f(2)] inv unfolding con_runs_def by blast
  moreover have "console_new font_file w h = Done (fresh f w h)"
    using f(1) by (simp add: console_new_def fresh_def)
  ultimately show "\<exists>k'. on_new_console font_file w h cs k = Done (Pass, k') \<and> console_tested i k k'"
    by (auto simp: on_new_console_def console_tested_def)
qed

section \<open>Evaluation on the grid\<close>

lemmas grid_eval = fresh_def grid_put_def grid_newline_def grid_write_def grid_back_def
  grid_clear_def grid_key_def set_cell_def get_cell_def cell_index_def Let_def EMPTY_def
  DEFAULT_FOREGROUND_def DEFAULT_BACKGROUND_def grid_scrolled_def fill_slice_def
  set_foreground_def set_background_def assert_cell_char_def

lemmas plain_statements = runs_print runs_clear runs_key runs_put runs_colours runs_check

text \<open>What the calls leave of the line buffer and of the size.\<close>

lemma grid_put_keeps [simp]:
  "input (grid_put ch con) = input con" "input_len (grid_put ch con) = input_len con"
  "line_ready (grid_put ch con) = line_ready con"
  "columns (grid_put ch con) = columns con" "rows (grid_put ch con) = rows con"
  by (simp_all add: grid_put_def grid_newline_def grid_write_def grid_back_def set_cell_def Let_def)

lemma fold_grid_put_keeps [simp]:
  "columns (fold grid_put str con) = columns con" "rows (fold grid_put str con) = rows con"
  by (induction str arbitrary: con) simp_all

lemma grid_key_char:
  assumes "32 \<le> key" and "key < 127" and "input_len con < INPUT_SIZE"
  shows "input (grid_key key con) = (input con)[input_len con := char_of key]"
    and "input_len (grid_key key con) = input_len con + 1"
  using assms by (simp_all add: grid_key_def)

lemma grid_key_full:
  "32 \<le> key \<Longrightarrow> key < 127 \<Longrightarrow> input_len con = INPUT_SIZE \<Longrightarrow> grid_key key con = con"
  by (simp add: grid_key_def)

lemma grid_enter: "line_ready (grid_key 0x0A con)"
  by (simp add: grid_key_def)

section \<open>The tests\<close>

lemma console_initializes_cursor_and_input_state_passes: "console_test_passes font_file (console_initializes_cursor_and_input_state font_file)"
  unfolding console_initializes_cursor_and_input_state_def
  by (rule on_new_console_passes, (rule plain_statements | rule runs_Nil | simp add: grid_eval; fail)+)

lemma console_calculates_columns_correctly_passes: "console_test_passes font_file (console_calculates_columns_correctly font_file)"
  unfolding console_calculates_columns_correctly_def
  by (rule on_new_console_passes, (rule plain_statements | rule runs_Nil | simp add: grid_eval; fail)+)

lemma console_calculates_rows_correctly_passes: "console_test_passes font_file (console_calculates_rows_correctly font_file)"
  unfolding console_calculates_rows_correctly_def
  by (rule on_new_console_passes, (rule plain_statements | rule runs_Nil | simp add: grid_eval; fail)+)

lemma console_handles_zero_dimensions_passes: "console_test_passes font_file (console_handles_zero_dimensions font_file)"
  unfolding console_handles_zero_dimensions_def
  by (rule on_new_console_passes, (rule plain_statements | rule runs_Nil | simp add: grid_eval; fail)+)

lemma console_writes_characters_passes: "console_test_passes font_file (console_writes_characters font_file)"
  unfolding console_writes_characters_def
  by (rule on_new_console_passes, (rule plain_statements | rule runs_Nil | simp add: grid_eval; fail)+)

lemma console_writes_multiple_lines_passes: "console_test_passes font_file (console_writes_multiple_lines font_file)"
  unfolding console_writes_multiple_lines_def
  by (rule on_new_console_passes, (rule plain_statements | rule runs_Nil | simp add: grid_eval; fail)+)

lemma console_newline_moves_to_next_row_passes: "console_test_passes font_file (console_newline_moves_to_next_row font_file)"
  unfolding console_newline_moves_to_next_row_def
  by (rule on_new_console_passes, (rule plain_statements | rule runs_Nil | simp add: grid_eval; fail)+)

lemma console_multiple_newlines_passes: "console_test_passes font_file (console_multiple_newlines font_file)"
  unfolding console_multiple_newlines_def
  by (rule on_new_console_passes, (rule plain_statements | rule runs_Nil | simp add: grid_eval; fail)+)

lemma console_carriage_return_resets_column_passes: "console_test_passes font_file (console_carriage_return_resets_column font_file)"
  unfolding console_carriage_return_resets_column_def
  by (rule on_new_console_passes, (rule plain_statements | rule runs_Nil | simp add: grid_eval; fail)+)

lemma console_carriage_return_overwrites_cells_passes: "console_test_passes font_file (console_carriage_return_overwrites_cells font_file)"
  unfolding console_carriage_return_overwrites_cells_def
  by (rule on_new_console_passes, (rule plain_statements | rule runs_Nil | simp add: grid_eval; fail)+)

lemma console_tab_advances_to_next_tab_stop_passes: "console_test_passes font_file (console_tab_advances_to_next_tab_stop font_file)"
  unfolding console_tab_advances_to_next_tab_stop_def
  by (rule on_new_console_passes, (rule plain_statements | rule runs_Nil | simp add: grid_eval; fail)+)

lemma console_tab_from_tab_stop_advances_passes: "console_test_passes font_file (console_tab_from_tab_stop_advances font_file)"
  unfolding console_tab_from_tab_stop_advances_def
  by (rule on_new_console_passes, (rule plain_statements | rule runs_Nil | simp add: grid_eval; fail)+)

lemma console_tab_at_right_edge_wraps_passes: "console_test_passes font_file (console_tab_at_right_edge_wraps font_file)"
  unfolding console_tab_at_right_edge_wraps_def
  by (rule on_new_console_passes, (rule plain_statements | rule runs_Nil | simp add: grid_eval; fail)+)

lemma console_wraps_at_right_edge_passes: "console_test_passes font_file (console_wraps_at_right_edge font_file)"
  unfolding console_wraps_at_right_edge_def
  by (rule on_new_console_passes, (rule plain_statements | rule runs_Nil | simp add: grid_eval; fail)+)

lemma console_wrap_preserves_characters_passes: "console_test_passes font_file (console_wrap_preserves_characters font_file)"
  unfolding console_wrap_preserves_characters_def
  by (rule on_new_console_passes, (rule plain_statements | rule runs_Nil | simp add: grid_eval; fail)+)

lemma console_backspace_moves_cursor_back_passes: "console_test_passes font_file (console_backspace_moves_cursor_back font_file)"
  unfolding console_backspace_moves_cursor_back_def
  by (rule on_new_console_passes, (rule plain_statements | rule runs_Nil | simp add: grid_eval; fail)+)

lemma console_backspace_clears_cell_passes: "console_test_passes font_file (console_backspace_clears_cell font_file)"
  unfolding console_backspace_clears_cell_def
  by (rule on_new_console_passes, (rule plain_statements | rule runs_Nil | simp add: grid_eval; fail)+)

lemma console_backspace_at_origin_is_safe_passes: "console_test_passes font_file (console_backspace_at_origin_is_safe font_file)"
  unfolding console_backspace_at_origin_is_safe_def
  by (rule on_new_console_passes, (rule plain_statements | rule runs_Nil | simp add: grid_eval; fail)+)

lemma console_clear_resets_cursor_passes: "console_test_passes font_file (console_clear_resets_cursor font_file)"
  unfolding console_clear_resets_cursor_def
  by (rule on_new_console_passes, (rule plain_statements | rule runs_Nil | simp add: grid_eval; fail)+)

lemma console_scroll_moves_logical_lines_up_passes: "console_test_passes font_file (console_scroll_moves_logical_lines_up font_file)"
  unfolding console_scroll_moves_logical_lines_up_def
  by (rule on_new_console_passes, (rule plain_statements | rule runs_Nil | simp add: grid_eval; fail)+)

lemma console_scroll_preserves_entire_lines_passes: "console_test_passes font_file (console_scroll_preserves_entire_lines font_file)"
  unfolding console_scroll_preserves_entire_lines_def
  by (rule on_new_console_passes, (rule plain_statements | rule runs_Nil | simp add: grid_eval; fail)+)

lemma console_default_colors_are_correct_passes: "console_test_passes font_file (console_default_colors_are_correct font_file)"
  unfolding console_default_colors_are_correct_def
  by (rule on_new_console_passes, (rule plain_statements | rule runs_Nil | simp add: grid_eval; fail)+)

lemma console_set_foreground_changes_color_passes: "console_test_passes font_file (console_set_foreground_changes_color font_file)"
  unfolding console_set_foreground_changes_color_def
  by (rule on_new_console_passes, (rule plain_statements | rule runs_Nil | simp add: grid_eval; fail)+)

lemma console_set_background_changes_color_passes: "console_test_passes font_file (console_set_background_changes_color font_file)"
  unfolding console_set_background_changes_color_def
  by (rule on_new_console_passes, (rule plain_statements | rule runs_Nil | simp add: grid_eval; fail)+)

lemma console_cells_store_colors_passes: "console_test_passes font_file (console_cells_store_colors font_file)"
  unfolding console_cells_store_colors_def
  by (rule on_new_console_passes, (rule plain_statements | rule runs_Nil | simp add: grid_eval; fail)+)

lemma fresh_line: "input (fresh f w h) = replicate INPUT_SIZE (CHR 0x00)" "input_len (fresh f w h) = 0"
  "line_ready (fresh f w h) = False"
  by (simp_all add: fresh_def)

lemma hi: "(char_of (0x68 :: nat) :: char) = CHR ''h''" "(char_of (0x69 :: nat) :: char) = CHR ''i''"
  by (simp_all add: char_of_def bit_0)

lemma console_receive_key_stores_input_passes:
  "console_test_passes font_file (console_receive_key_stores_input font_file)"
  unfolding console_receive_key_stores_input_def
  by (rule on_new_console_passes,
    (rule plain_statements | rule runs_Nil | simp add: grid_key_char fresh_line hi; fail)+)

lemma console_enter_marks_line_ready_passes:
  "console_test_passes font_file (console_enter_marks_line_ready font_file)"
  unfolding console_enter_marks_line_ready_def
  by (rule on_new_console_passes,
    (rule plain_statements | rule runs_Nil | simp add: grid_enter; fail)+)

lemma console_clear_resets_input_passes:
  "console_test_passes font_file (console_clear_resets_input font_file)"
  unfolding console_clear_resets_input_def
  by (rule on_new_console_passes,
    (rule type_ahead_runs plain_statements | rule runs_Nil | simp add: grid_clear_def; fail)+)

lemma grid_clear_cell:
  "r < 67 \<Longrightarrow> c < 240 \<Longrightarrow> get_cell r c (grid_clear con) = EMPTY"
  using cell_index_bound [of c r] by (simp add: get_cell_def grid_clear_def fill_slice_def)

lemma console_clear_resets_cells_passes:
  "console_test_passes font_file (console_clear_resets_cells font_file)"
  unfolding console_clear_resets_cells_def
proof (rule on_new_console_passes, rule runs_print, rule runs_clear)
  fix f
  define con where "con = grid_clear (fold grid_put ''hello world'' (fresh f 800 480))"
  have size: "columns con = 100" "rows con = 30" by (simp_all add: con_def grid_clear_def fresh_def)
  let ?check = "\<lambda>row column. [fail_if (\<lambda>(con, fb). character (get_cell row column con) \<noteq> CHR '' '')
      ''clear left non-empty terminal cell'' :: tty stmt]"
  have cell: "character (get_cell row column con) = CHR '' ''" if "row < 30" "column < 100" for row column
    using that by (simp add: con_def grid_clear_cell EMPTY_def)
  have check: "con_runs ((=) con) (?check row column) con" if "row < 30" "column < 100" for row column
    by (rule runs_check, simp add: cell [OF that]) (rule runs_Nil, rule refl)
  have row: "con_runs ((=) con) [loop [0 ..< 100] (?check row)] con" if "row < 30" for row
    by (rule runs_loop, use check that in \<open>simp only: set_upt atLeastLessThan_iff\<close>) (rule refl)
  have rows: "con_runs ((=) con) [loop [0 ..< 30] (\<lambda>row. [loop [0 ..< 100] (?check row)])] con"
    by (rule runs_loop, use row in \<open>simp only: set_upt atLeastLessThan_iff\<close>) (rule refl)
  have "con_runs ((=) con) [\<lambda>(con, fb). loop [0 ..< rows con] (\<lambda>row. [loop [0 ..< columns con] (?check row)]) (con, fb)] con"
    by (rule runs_instead [OF _ rows]) (simp only: prod.case size)
  then have "con_runs (\<lambda>_. True) [\<lambda>(con, fb). loop [0 ..< rows con] (\<lambda>row. [loop [0 ..< columns con] (?check row)]) (con, fb)] con"
    by (rule runs_Cons) (rule runs_Nil, rule TrueI)
  then show "con_runs (\<lambda>_. True) [\<lambda>(con, fb). loop [0 ..< rows con] (\<lambda>row. [loop [0 ..< columns con] (?check row)]) (con, fb)]
      (grid_clear (fold grid_put ''hello world'' (fresh f 800 480)))"
    by (simp only: con_def)
qed

lemma console_read_line_returns_none_until_ready_passes:
  "console_test_passes font_file (console_read_line_returns_none_until_ready font_file)"
  unfolding console_read_line_returns_none_until_ready_def
proof (rule on_new_console_passes, rule runs_same)
  show "(case (fresh f 80 32, fb) of (con, fb) \<Rightarrow> andthen (read_line (replicate 16 (CHR 0x00)) con)
      (\<lambda>(n, buffer, con). Done (if n \<noteq> None then Fail ''read_line returned line before Enter'' else Pass, con, fb)))
    = Done (Pass, fresh f 80 32, fb)" for f fb
    by (simp add: read_line_def fresh_line)
qed (auto intro: runs_Nil)

lemma console_read_line_consumes_input_passes:
  "console_test_passes font_file (console_read_line_consumes_input font_file)"
  unfolding console_read_line_consumes_input_def
  by (rule on_new_console_passes, rule type_ahead_runs, simp, rule runs_same, simp add: read_line_def subslice_def fail_if_def)
    (auto simp: grid_ok_def intro: runs_Nil)

lemma console_read_line_truncates_destination_passes:
  "console_test_passes font_file (console_read_line_truncates_destination font_file)"
  unfolding console_read_line_truncates_destination_def
  by (rule on_new_console_passes, rule type_ahead_runs, simp, rule runs_same, simp add: read_line_def subslice_def fail_if_def)
    (auto simp: grid_ok_def intro: runs_Nil)

text \<open>The buffer takes 256 keys and no more.\<close>

lemma refines_keys: "refines_grid (for_each xs (\<lambda>_. receive_key key)) (fold (\<lambda>_. grid_key key) xs)"
  by (rule refines_for_each) (rule refines_receive_key)

lemma keys_counted:
  assumes "32 \<le> key" and "key < 127"
  shows "input_len con \<le> INPUT_SIZE \<Longrightarrow>
    input_len (fold (\<lambda>_. grid_key key) xs con) = min (input_len con + length xs) INPUT_SIZE"
proof (induction xs arbitrary: con)
  case (Cons x xs)
  show ?case
  proof (cases "input_len con = INPUT_SIZE")
    case True
    then show ?thesis using Cons assms by (simp add: grid_key_full)
  next
    case False
    then show ?thesis using Cons assms by (simp add: grid_key_char(2))
  qed
qed simp

lemma console_input_cannot_exceed_input_size_passes:
  "console_test_passes font_file (console_input_cannot_exceed_input_size font_file)"
  unfolding console_input_cannot_exceed_input_size_def
  by (rule on_new_console_passes, rule runs_exec [OF refines_keys], rule runs_check)
    (simp_all add: keys_counted fresh_line runs_Nil del: upt_Suc)

lemma console_ignores_unknown_control_characters_passes:
  "console_test_passes font_file (console_ignores_unknown_control_characters font_file)"
  unfolding console_ignores_unknown_control_characters_def
proof (rule on_new_console_passes, rule runs_print)
  fix f
  define con where "con = fold grid_put ''abc'' (fresh f 800 480)"
  have ignored: "grid_put (CHR 0x01) con = con" "grid_put (CHR 0x02) con = con" "grid_put (CHR 0x7f) con = con"
    by (simp_all add: grid_put_def)
  let ?body = "\<lambda>x y. [exec (put_char (CHR 0x01)), exec (put_char (CHR 0x02)), exec (put_char (CHR 0x7f)),
        fail_if (\<lambda>(con, fb). cursor_x con \<noteq> x) ''unknown control character moved cursor'',
        fail_if (\<lambda>(con, fb). cursor_y con \<noteq> y) ''unknown control character moved row'']"
  have "con_runs (\<lambda>_. True) (?body (cursor_x con) (cursor_y con)) con"
    by (rule runs_put runs_check | simp add: ignored runs_Nil)+
  then have "con_runs (\<lambda>_. True) [script (?body (cursor_x con) (cursor_y con))] con" by (rule runs_script)
  then show "con_runs (\<lambda>_. True) [\<lambda>(con, fb). let x = cursor_x con; y = cursor_y con in script (?body x y) (con, fb)]
      (fold grid_put ''abc'' (fresh f 800 480))"
    unfolding con_def [symmetric] by (simp add: con_runs_def Let_def)
qed

lemma console_handles_long_output_passes:
  "console_test_passes font_file (console_handles_long_output font_file)"
  unfolding console_handles_long_output_def
proof (rule on_new_console_passes)
  fix f
  let ?line = "''hello world'' @ [CHR 0x0A]"
  let ?g = "fold (\<lambda>_. fold grid_put ?line) [0 ..< 500 :: nat]"
  have ref: "refines_grid (for_each [0 ..< 500 :: nat] (\<lambda>_. write_str ?line)) ?g"
    by (rule refines_for_each) (rule refines_write_str)
  have size: "columns (fold (\<lambda>_. fold grid_put ?line) xs con) = columns con"
    "rows (fold (\<lambda>_. fold grid_put ?line) xs con) = rows con" for con and xs :: "nat list"
    by (induction xs arbitrary: con) simp_all
  have "con_runs (\<lambda>_. True)
     [fail_if (\<lambda>(con, fb). rows con \<le> cursor_y con) ''cursor escaped console after long output'',
      fail_if (\<lambda>(con, fb). columns con \<le> cursor_x con) ''cursor escaped columns after long output''] con"
    if "rows con = 30" "columns con = 100" for con
    using that by (simp add: con_runs_def fail_if_def grid_ok_def fb_kept_refl)
  from this [of "?g (fresh f 800 480)"]
  show "con_runs (\<lambda>_. True) [exec (for_each [0 ..< 500 :: nat] (\<lambda>_. write_str ?line)),
      fail_if (\<lambda>(con, fb). rows con \<le> cursor_y con) ''cursor escaped console after long output'',
      fail_if (\<lambda>(con, fb). columns con \<le> cursor_x con) ''cursor escaped columns after long output''] (fresh f 800 480)"
    unfolding size by (intro runs_exec [OF ref]) (simp add: fresh_def)
qed

lemma console_repeated_clear_and_write_is_stable_passes:
  "console_test_passes font_file (console_repeated_clear_and_write_is_stable font_file)"
  unfolding console_repeated_clear_and_write_is_stable_def
proof (rule on_new_console_passes, rule runs_Cons, rule runs_loop [where P = "\<lambda>con. columns con = 100 \<and> rows con = 30"])
  fix x :: nat and con :: console assume "columns con = 100 \<and> rows con = 30"
  then show "con_runs (\<lambda>con. columns con = 100 \<and> rows con = 30)
     [exec clear_console, exec (write_str (''hello'' @ [CHR 0x0A] @ ''world'')),
      fail_if (\<lambda>(con, fb). cursor_y con \<noteq> 1) ''repeated clear/write corrupted cursor'',
      fail_if (\<lambda>(con, fb). character (get_cell 0 0 con) \<noteq> CHR ''h'') ''repeated clear/write corrupted cells''] con"
    by (intro runs_clear runs_print runs_check runs_Nil) (simp_all add: grid_eval)
qed (auto simp: fresh_def intro: runs_Nil)

lemmas console_test_lemmas =
  console_initializes_cursor_and_input_state_passes
  console_calculates_columns_correctly_passes
  console_calculates_rows_correctly_passes
  console_handles_zero_dimensions_passes
  console_writes_characters_passes
  console_writes_multiple_lines_passes
  console_newline_moves_to_next_row_passes
  console_multiple_newlines_passes
  console_carriage_return_resets_column_passes
  console_carriage_return_overwrites_cells_passes
  console_tab_advances_to_next_tab_stop_passes
  console_tab_from_tab_stop_advances_passes
  console_tab_at_right_edge_wraps_passes
  console_wraps_at_right_edge_passes
  console_wrap_preserves_characters_passes
  console_backspace_moves_cursor_back_passes
  console_backspace_clears_cell_passes
  console_backspace_at_origin_is_safe_passes
  console_clear_resets_cursor_passes
  console_clear_resets_input_passes
  console_clear_resets_cells_passes
  console_scroll_moves_logical_lines_up_passes
  console_scroll_preserves_entire_lines_passes
  console_default_colors_are_correct_passes
  console_set_foreground_changes_color_passes
  console_set_background_changes_color_passes
  console_cells_store_colors_passes
  console_read_line_returns_none_until_ready_passes
  console_receive_key_stores_input_passes
  console_enter_marks_line_ready_passes
  console_read_line_consumes_input_passes
  console_read_line_truncates_destination_passes
  console_input_cannot_exceed_input_size_passes
  console_ignores_unknown_control_characters_passes
  console_handles_long_output_passes
  console_repeated_clear_and_write_is_stable_passes

lemma all_console_tests_pass: "\<forall>t \<in> set (console_tests font_file). console_test_passes font_file (test_function t)"
  by (simp add: console_tests_def registered_def console_test_lemmas)

end
