(* ===== verification/Test_Framebuffer.thy ===== *)
theory Test_Framebuffer
  imports Test_Console
begin

text \<open>
  The framebuffer's own tests, the module \<open>tests\<close> of \<open>src/fb.rs\<close>. They work on the kernel's
  framebuffer: they draw, read pixels back from the backbuffer, and look at the dirty rectangle,
  whose flag some of them reset by hand.
\<close>

definition on_framebuffer :: "framebuffer stmt list \<Rightarrow> kernel_test" where
  "on_framebuffer statements k =
     andthen (script statements (ui_fb (k_ui k))) (\<lambda>(result, fb).
       Done (result, k\<lparr>k_ui := (k_ui k)\<lparr>ui_fb := fb\<rparr>\<rparr>))"

definition read_pixel :: "nat \<Rightarrow> nat \<Rightarrow> framebuffer \<Rightarrow> 32 word outcome" where
  "read_pixel x y s = andthen (get_info s) (\<lambda>i. andthen (pixel_index i x y) (\<lambda>k. Done (backbuffer s k)))"

definition pixel_is :: "nat \<Rightarrow> nat \<Rightarrow> color \<Rightarrow> framebuffer \<Rightarrow> bool outcome" where
  "pixel_is x y c s =
     andthen (read_pixel x y s) (\<lambda>value. andthen (color_to_u32 c s) (\<lambda>expected. Done (value = expected)))"

text \<open>\<open>if !pixel_is(x, y, c) { return TestResult::Fail(reason) }\<close>, \<open>let info = info()\<close>, and
  \<open>DIRTY = false\<close>.\<close>

definition unless_pixel :: "nat \<Rightarrow> nat \<Rightarrow> color \<Rightarrow> string \<Rightarrow> framebuffer stmt" where
  "unless_pixel x y c reason s = andthen (pixel_is x y c s) (\<lambda>yes. Done (if yes then Pass else Fail reason, s))"

definition with_info :: "(info \<Rightarrow> framebuffer stmt list) \<Rightarrow> framebuffer stmt" where
  "with_info body s = andthen (get_info s) (\<lambda>i. script (body i) s)"

definition set_not_dirty :: "framebuffer \<Rightarrow> framebuffer outcome" where
  "set_not_dirty s = Done (s\<lparr>dirty := False\<rparr>)"

section \<open>Initialisation and colours\<close>

definition framebuffer_has_valid_dimensions :: kernel_test where
  "framebuffer_has_valid_dimensions = on_framebuffer
    [\<lambda>s. andthen (fb_width s) (\<lambda>width. andthen (fb_height s) (\<lambda>height.
       script
         [fail_if (\<lambda>_. width = 0) ''framebuffer width is zero'',
          fail_if (\<lambda>_. height = 0) ''framebuffer height is zero'',
          fail_if (\<lambda>_. MAX_WIDTH < width) ''framebuffer exceeds maximum width'',
          fail_if (\<lambda>_. MAX_HEIGHT < height) ''framebuffer exceeds maximum height''] s))]"

definition framebuffer_pitch_is_large_enough :: kernel_test where
  "framebuffer_pitch_is_large_enough = on_framebuffer
    [with_info (\<lambda>i.
       [\<lambda>s. andthen (umul (scr_width i) BYTES_PER_PIXEL) (\<lambda>minimum.
          fail_if (\<lambda>_. scr_pitch i < minimum) ''framebuffer pitch is smaller than row size'' s)])]"

definition framebuffer_black_color_is_correct :: kernel_test where
  "framebuffer_black_color_is_correct = on_framebuffer
    [\<lambda>s. andthen (color_to_u32 BLACK s) (\<lambda>black.
       fail_if (\<lambda>_. black \<noteq> 0) ''black does not convert to zero'' s)]"

definition framebuffer_colors_have_distinct_values :: kernel_test where
  "framebuffer_colors_have_distinct_values = on_framebuffer
    [\<lambda>s. andthen (color_to_u32 BLACK s) (\<lambda>black. andthen (color_to_u32 WHITE s) (\<lambda>white.
       andthen (color_to_u32 RED s) (\<lambda>red. andthen (color_to_u32 GREEN s) (\<lambda>green.
       andthen (color_to_u32 BLUE s) (\<lambda>blue.
       script
         [fail_if (\<lambda>_. black = white) ''black and white have same pixel value'',
          fail_if (\<lambda>_. red = green) ''red and green have same pixel value'',
          fail_if (\<lambda>_. red = blue) ''red and blue have same pixel value'',
          fail_if (\<lambda>_. green = blue) ''green and blue have same pixel value''] s)))))]"

section \<open>Clearing and single pixels\<close>

definition framebuffer_clear_fills_entire_backbuffer :: kernel_test where
  "framebuffer_clear_fills_entire_backbuffer = on_framebuffer
    [exec (clear RED),
     with_info (\<lambda>i.
       [loop [0 ..< scr_height i] (\<lambda>y. [loop [0 ..< scr_width i] (\<lambda>x.
          [unless_pixel x y RED ''clear did not fill entire backbuffer''])])])]"

definition framebuffer_clear_black_works :: kernel_test where
  "framebuffer_clear_black_works = on_framebuffer
    [exec (clear BLACK),
     with_info (\<lambda>i.
       [\<lambda>s. andthen (usub (scr_width i) 1) (\<lambda>last_x. andthen (usub (scr_height i) 1) (\<lambda>last_y.
          loop [(0, 0), (last_x, 0), (0, last_y), (last_x, last_y),
                (scr_width i div 2, scr_height i div 2)] (\<lambda>(x, y).
            [unless_pixel x y BLACK ''clear black left non-black pixels'']) s))])]"

definition framebuffer_put_pixel_changes_exact_pixel :: kernel_test where
  "framebuffer_put_pixel_changes_exact_pixel = on_framebuffer
    [exec (clear BLACK),
     exec (put_pixel 10 20 RED),
     unless_pixel 10 20 RED ''put_pixel did not change target pixel'']"

definition framebuffer_put_pixel_does_not_change_neighbors :: kernel_test where
  "framebuffer_put_pixel_does_not_change_neighbors = on_framebuffer
    [exec (clear BLACK),
     exec (put_pixel 10 20 RED),
     loop [(10 - 1, 20), (10 + 1, 20), (10, 20 - 1), (10, 20 + 1)] (\<lambda>(nx, ny).
       [unless_pixel nx ny BLACK ''put_pixel modified neighboring pixel''])]"

definition framebuffer_put_pixel_out_of_bounds_is_safe :: kernel_test where
  "framebuffer_put_pixel_out_of_bounds_is_safe = on_framebuffer
    [exec (clear BLACK),
     with_info (\<lambda>i.
       [exec (put_pixel (scr_width i) 0 RED),
        exec (put_pixel 0 (scr_height i) RED),
        exec (put_pixel (scr_width i + 100) (scr_height i + 100) RED)])]"

section \<open>Rectangles\<close>

definition framebuffer_draw_rect_fills_rectangle :: kernel_test where
  "framebuffer_draw_rect_fills_rectangle = on_framebuffer
    [exec (clear BLACK),
     exec (draw_rect 10 20 30 40 GREEN),
     loop [20 ..< 60] (\<lambda>y. [loop [10 ..< 40] (\<lambda>x.
       [unless_pixel x y GREEN ''draw_rect failed to fill rectangle''])])]"

definition framebuffer_draw_rect_does_not_modify_outside :: kernel_test where
  "framebuffer_draw_rect_does_not_modify_outside = on_framebuffer
    [exec (clear BLACK),
     exec (draw_rect 10 20 30 40 GREEN),
     loop [(9, 20), (40, 20), (10, 19), (10, 60), (0, 0)] (\<lambda>(x, y).
       [unless_pixel x y BLACK ''draw_rect modified outside rectangle''])]"

definition framebuffer_draw_rect_clips_right_edge :: kernel_test where
  "framebuffer_draw_rect_clips_right_edge = on_framebuffer
    [exec (clear BLACK),
     with_info (\<lambda>i.
       [\<lambda>s. andthen (usub (scr_width i) 10) (\<lambda>start. script
          [exec (draw_rect start 0 100 10 BLUE),
           loop [start ..< scr_width i] (\<lambda>x.
             [unless_pixel x 0 BLUE ''rectangle was not clipped correctly''])] s)])]"

definition framebuffer_draw_rect_clips_bottom_edge :: kernel_test where
  "framebuffer_draw_rect_clips_bottom_edge = on_framebuffer
    [exec (clear BLACK),
     with_info (\<lambda>i.
       [\<lambda>s. andthen (usub (scr_height i) 10) (\<lambda>start. script
          [exec (draw_rect 0 start 10 100 BLUE),
           loop [start ..< scr_height i] (\<lambda>y.
             [unless_pixel 0 y BLUE ''rectangle was not clipped at bottom edge''])] s)])]"

definition framebuffer_zero_sized_rect_does_nothing :: kernel_test where
  "framebuffer_zero_sized_rect_does_nothing = on_framebuffer
    [exec (clear BLACK),
     exec (draw_rect 10 10 0 100 RED),
     exec (draw_rect 10 10 100 0 RED),
     unless_pixel 10 10 BLACK ''zero-sized rectangle modified framebuffer'']"

section \<open>Copying and scrolling\<close>

definition framebuffer_copy_rect_copies_pixels :: kernel_test where
  "framebuffer_copy_rect_copies_pixels = on_framebuffer
    [exec (clear BLACK),
     exec (put_pixel 10 10 RED),
     exec (put_pixel 11 10 GREEN),
     exec (put_pixel 10 11 BLUE),
     exec (put_pixel 11 11 WHITE),
     exec (copy_rect 10 10 100 100 2 2),
     unless_pixel 100 100 RED ''copy_rect failed first pixel'',
     unless_pixel 101 100 GREEN ''copy_rect failed second pixel'',
     unless_pixel 100 101 BLUE ''copy_rect failed third pixel'',
     unless_pixel 101 101 WHITE ''copy_rect failed fourth pixel'']"

definition framebuffer_copy_rect_handles_overlap :: kernel_test where
  "framebuffer_copy_rect_handles_overlap = on_framebuffer
    [exec (clear BLACK),
     exec (put_pixel 10 10 RED),
     exec (put_pixel 11 10 GREEN),
     exec (put_pixel 12 10 BLUE),
     exec (copy_rect 10 10 11 10 3 1),
     unless_pixel 11 10 RED ''overlapping copy corrupted first pixel'',
     unless_pixel 12 10 GREEN ''overlapping copy corrupted second pixel'',
     unless_pixel 13 10 BLUE ''overlapping copy corrupted third pixel'']"

definition framebuffer_scroll_moves_pixels_up :: kernel_test where
  "framebuffer_scroll_moves_pixels_up = on_framebuffer
    [exec (clear BLACK),
     exec (draw_rect 0 0 10 10 RED),
     exec (draw_rect 0 10 10 10 GREEN),
     exec (draw_rect 0 20 10 10 BLUE),
     exec (draw_rect 0 30 10 10 WHITE),
     exec (scroll_up 10 BLACK),
     unless_pixel 0 0 GREEN ''scroll did not move second row upward'',
     unless_pixel 0 10 BLUE ''scroll did not move third row upward'',
     unless_pixel 0 20 WHITE ''scroll did not move fourth row upward'',
     unless_pixel 0 30 BLACK ''scroll did not clear exposed bottom area'']"

definition framebuffer_full_scroll_clears_screen :: kernel_test where
  "framebuffer_full_scroll_clears_screen = on_framebuffer
    [exec (clear RED),
     with_info (\<lambda>i.
       [exec (scroll_up (scr_height i) BLACK),
        unless_pixel 0 0 BLACK ''full scroll did not clear screen'',
        \<lambda>s. andthen (usub (scr_width i) 1) (\<lambda>last_x. andthen (usub (scr_height i) 1) (\<lambda>last_y.
          unless_pixel last_x last_y BLACK ''full scroll left pixels behind'' s))])]"

definition framebuffer_scroll_by_zero_does_nothing :: kernel_test where
  "framebuffer_scroll_by_zero_does_nothing = on_framebuffer
    [exec (clear RED),
     exec (scroll_up 0 BLACK),
     unless_pixel 0 0 RED ''zero-pixel scroll modified framebuffer'']"

section \<open>The dirty rectangle\<close>

definition framebuffer_draw_operations_mark_dirty :: kernel_test where
  "framebuffer_draw_operations_mark_dirty = on_framebuffer
    [exec (clear BLACK),
     exec set_not_dirty,
     exec (put_pixel 50 60 RED),
     fail_if (\<lambda>s. \<not> dirty s) ''put_pixel did not mark framebuffer dirty'',
     exec set_not_dirty,
     exec (draw_rect 100 100 20 20 GREEN),
     fail_if (\<lambda>s. \<not> dirty s) ''draw_rect did not mark framebuffer dirty'',
     exec set_not_dirty]"

definition framebuffer_dirty_rectangle_expands :: kernel_test where
  "framebuffer_dirty_rectangle_expands = on_framebuffer
    [exec (clear BLACK),
     exec set_not_dirty,
     exec (draw_rect 100 200 10 20 RED),
     exec (draw_rect 50 150 30 40 GREEN),
     fail_if (\<lambda>s. \<not> dirty s) ''dirty flag was not set'',
     fail_if (\<lambda>s. dirty_min_x s \<noteq> 50) ''dirty minimum X is incorrect'',
     fail_if (\<lambda>s. dirty_min_y s \<noteq> 150) ''dirty minimum Y is incorrect'',
     fail_if (\<lambda>s. dirty_max_x s \<noteq> 110) ''dirty maximum X is incorrect'',
     fail_if (\<lambda>s. dirty_max_y s \<noteq> 220) ''dirty maximum Y is incorrect'',
     exec set_not_dirty]"

definition framebuffer_present_clears_dirty_state :: kernel_test where
  "framebuffer_present_clears_dirty_state = on_framebuffer
    [exec (clear BLACK),
     exec (put_pixel 20 20 RED),
     fail_if (\<lambda>s. \<not> dirty s) ''test setup did not mark dirty'',
     exec present,
     fail_if (\<lambda>s. dirty s) ''present did not clear dirty state'']"

definition framebuffer_repeated_clear_is_stable :: kernel_test where
  "framebuffer_repeated_clear_is_stable = on_framebuffer
    [exec (for_each [0 ..< 10] (\<lambda>_ s. andthen (clear BLACK s) (\<lambda>s. andthen (clear WHITE s) (clear BLACK)))),
     unless_pixel 0 0 BLACK ''repeated clear produced incorrect result'']"

section \<open>The registered tests\<close>

definition framebuffer_tests :: "test list" where
  "framebuffer_tests =
    [registered ''framebuffer_has_valid_dimensions'' framebuffer_has_valid_dimensions,
     registered ''framebuffer_pitch_is_large_enough'' framebuffer_pitch_is_large_enough,
     registered ''framebuffer_black_color_is_correct'' framebuffer_black_color_is_correct,
     registered ''framebuffer_colors_have_distinct_values'' framebuffer_colors_have_distinct_values,
     registered ''framebuffer_clear_fills_entire_backbuffer'' framebuffer_clear_fills_entire_backbuffer,
     registered ''framebuffer_clear_black_works'' framebuffer_clear_black_works,
     registered ''framebuffer_put_pixel_changes_exact_pixel'' framebuffer_put_pixel_changes_exact_pixel,
     registered ''framebuffer_put_pixel_does_not_change_neighbors'' framebuffer_put_pixel_does_not_change_neighbors,
     registered ''framebuffer_put_pixel_out_of_bounds_is_safe'' framebuffer_put_pixel_out_of_bounds_is_safe,
     registered ''framebuffer_draw_rect_fills_rectangle'' framebuffer_draw_rect_fills_rectangle,
     registered ''framebuffer_draw_rect_does_not_modify_outside'' framebuffer_draw_rect_does_not_modify_outside,
     registered ''framebuffer_draw_rect_clips_right_edge'' framebuffer_draw_rect_clips_right_edge,
     registered ''framebuffer_draw_rect_clips_bottom_edge'' framebuffer_draw_rect_clips_bottom_edge,
     registered ''framebuffer_zero_sized_rect_does_nothing'' framebuffer_zero_sized_rect_does_nothing,
     registered ''framebuffer_copy_rect_copies_pixels'' framebuffer_copy_rect_copies_pixels,
     registered ''framebuffer_copy_rect_handles_overlap'' framebuffer_copy_rect_handles_overlap,
     registered ''framebuffer_scroll_moves_pixels_up'' framebuffer_scroll_moves_pixels_up,
     registered ''framebuffer_full_scroll_clears_screen'' framebuffer_full_scroll_clears_screen,
     registered ''framebuffer_scroll_by_zero_does_nothing'' framebuffer_scroll_by_zero_does_nothing,
     registered ''framebuffer_draw_operations_mark_dirty'' framebuffer_draw_operations_mark_dirty,
     registered ''framebuffer_dirty_rectangle_expands'' framebuffer_dirty_rectangle_expands,
     registered ''framebuffer_present_clears_dirty_state'' framebuffer_present_clears_dirty_state,
     registered ''framebuffer_repeated_clear_is_stable'' framebuffer_repeated_clear_is_stable]"

end
