(* ===== verification/Test_Framebuffer_Props.thy ===== *)
theory Test_Framebuffer_Props
  imports Test_Framebuffer
begin

text \<open>
  The kernel's framebuffer tests pass on every screen of at least 120 by 220 pixels whose colour
  channels are shifted by different amounts. A script is followed on the picture in the backbuffer.
\<close>

section \<open>Statements on a picture\<close>

definition fb_runs :: "info \<Rightarrow> framebuffer stmt list \<Rightarrow> framebuffer \<Rightarrow> bool" where
  "fb_runs i cs s \<longleftrightarrow> (\<exists>s'. script cs s = Done (Pass, s') \<and> fb_inv i s')"

definition paint_runs :: "info \<Rightarrow> picture \<Rightarrow> framebuffer stmt list \<Rightarrow> bool" where
  "paint_runs i p cs \<longleftrightarrow> (\<forall>s. fb_inv i s \<longrightarrow> shows_picture i p s \<longrightarrow> fb_runs i cs s)"

lemma paint_Nil: "paint_runs i p []"
  by (simp add: paint_runs_def fb_runs_def)

lemma paint_draw:
  assumes "\<And>s. f s = draw_exec cmd s" and "cmd_ok cmd" and "paint_runs i (spec_draw i cmd p) cs"
  shows "paint_runs i p (exec f # cs)"
  unfolding paint_runs_def
proof (intro allI impI)
  fix s assume s: "fb_inv i s" "shows_picture i p s"
  obtain s1 where "f s = Done s1" "paints i (spec_draw i cmd p) s s1"
    using draw_exec_paints [OF s assms(2)] assms(1) by metis
  then show "fb_runs i (exec f # cs) s"
    using assms(3) by (simp add: paint_runs_def fb_runs_def exec_def paints_def)
qed

lemmas paint_clear = paint_draw [where cmd = "Clear c" for c, OF draw_exec.simps(2) [symmetric]]
lemmas paint_put = paint_draw [where cmd = "PutPixel x y c" for x y c, OF draw_exec.simps(1) [symmetric]]
lemmas paint_rect = paint_draw [where cmd = "DrawRect x y w h c" for x y w h c, OF draw_exec.simps(3) [symmetric]]
lemmas paint_copy = paint_draw [where cmd = "CopyRect sx sy dx dy w h" for sx sy dx dy w h, OF draw_exec.simps(4) [symmetric]]
lemmas paint_scroll = paint_draw [where cmd = "ScrollUp n c" for n c, OF draw_exec.simps(5) [symmetric]]

text \<open>A check that succeeds changes nothing.\<close>

definition checks :: "info \<Rightarrow> picture \<Rightarrow> framebuffer stmt \<Rightarrow> bool" where
  "checks i p c \<longleftrightarrow> (\<forall>s. fb_inv i s \<longrightarrow> shows_picture i p s \<longrightarrow> c s = Done (Pass, s))"

lemma paint_check: "checks i p c \<Longrightarrow> paint_runs i p cs \<Longrightarrow> paint_runs i p (c # cs)"
  by (simp add: checks_def paint_runs_def fb_runs_def)

lemma checks_pixel:
  assumes "on_screen i x y" and "p x y = pixel_of i c"
  shows "checks i p (unless_pixel x y c reason)"
  unfolding checks_def
proof (intro allI impI)
  fix s assume s: "fb_inv i s" "shows_picture i p s"
  have "pixel_index i x y = Done (y * scr_width i + x)"
    using assms(1) fb_inv_ok [OF s(1)] by (simp add: pixel_index_Done on_screen_def)
  moreover have "backbuffer s (y * scr_width i + x) = p x y"
    using s(2) assms(1) by (simp add: shows_picture_def pixel_at_def)
  ultimately show "unless_pixel x y c reason s = Done (Pass, s)"
    using assms(2) color_to_u32_Done [OF s(1)] get_info_inv [OF s(1)]
    by (simp add: unless_pixel_def pixel_is_def read_pixel_def)
qed

lemma checks_script:
  assumes "\<And>c. c \<in> set cs \<Longrightarrow> checks i p c"
  shows "checks i p (script cs)"
  unfolding checks_def
proof (intro allI impI)
  fix s assume s: "fb_inv i s" "shows_picture i p s"
  then have "\<forall>c \<in> set cs. c s = Done (Pass, s)" using assms by (simp add: checks_def)
  then show "script cs s = Done (Pass, s)" by (induction cs) simp_all
qed

lemma checks_loop:
  assumes "\<And>x. x \<in> set xs \<Longrightarrow> checks i p (body x)"
  shows "checks i p (loop xs (\<lambda>x. [body x]))"
  unfolding loop_def by (rule checks_script) (use assms in \<open>auto intro: checks_script\<close>)

lemma checks_pairs:
  assumes "\<And>x y. (x, y) \<in> set xys \<Longrightarrow> on_screen i x y \<and> p x y = pixel_of i c"
  shows "checks i p (loop xys (\<lambda>(x, y). [unless_pixel x y c reason]))"
  unfolding loop_def
  by (rule checks_script) (use assms in \<open>auto intro!: checks_script checks_pixel\<close>)

text \<open>\<open>let info = info()\<close>, and a difference that does not underflow.\<close>

lemma paint_info:
  assumes "paint_runs i p (body i @ cs)"
  shows "paint_runs i p (with_info body # cs)"
  using assms get_info_inv script_append [of "body i" cs]
  by (simp add: paint_runs_def fb_runs_def with_info_def)

lemma paint_sub:
  assumes "n \<le> a" and "paint_runs i p (c (a - n) # cs)"
  shows "paint_runs i p ((\<lambda>s. andthen (usub a n) (\<lambda>x. c x s)) # cs)"
  using assms by (simp add: paint_runs_def fb_runs_def)

lemma paint_script: "paint_runs i p (ds @ cs) \<Longrightarrow> paint_runs i p (script ds # cs)"
  by (simp add: paint_runs_def fb_runs_def script_append)

section \<open>The dirty flag\<close>

lemma drawn_dirty: "drawn i A f s s' \<Longrightarrow> A x y \<Longrightarrow> on_screen i x y \<Longrightarrow> dirty s'"
  by (auto simp: drawn_def in_dirty_def)

lemma set_not_dirty_inv: "fb_inv i s \<Longrightarrow> fb_inv i (s\<lparr>dirty := False\<rparr>)"
  by (simp add: fb_inv_def)

lemma clear_runs:
  assumes "fb_inv i s"
  obtains s1 where "clear c s = Done s1" and "fb_inv i s1"
  using clear_drawn [OF assms, of c] by (auto simp: drawn_def)

text \<open>A rectangle on the screen is drawn and then marked.\<close>

lemma draw_rect_marks:
  assumes inv: "fb_inv i s" and "0 < w" "0 < h" "x + w \<le> scr_width i" "y + h \<le> scr_height i"
  shows "\<exists>b. draw_rect x y w h c s = mark_dirty x y w h (s\<lparr>backbuffer := b\<rparr>)"
proof -
  note ok = fb_inv_ok [OF inv] and d = info_okD [OF fb_inv_ok [OF inv]]
  have ends: "min (sat_add x w) (scr_width i) = x + w" "min (sat_add y h) (scr_height i) = y + h"
    using assms d by (auto simp: sat_add_def)
  have guards: "\<not> (w = 0 \<or> h = 0)" "\<not> (scr_width i \<le> x \<or> scr_height i \<le> y)"
    "\<not> (x + w \<le> x \<or> y + h \<le> y)" "x + w - x = w" "y + h - y = h" using assms by auto
  have "x < scr_width i" "y \<le> y + h" using assms by simp_all
  from fill_rows [OF ok this assms(5), of w "pixel_of i c" "backbuffer s"]
  show ?thesis
    by (simp only: draw_rect_def Let_def get_info_inv [OF inv] andthen.simps guards if_False ends
        color_to_u32_Done [OF inv]) blast
qed

section \<open>The tests\<close>

definition fb_test_passes :: "info \<Rightarrow> kernel_test \<Rightarrow> bool" where
  "fb_test_passes i t \<longleftrightarrow> (\<forall>k. fb_inv i (ui_fb (k_ui k)) \<longrightarrow>
     (\<exists>fb'. t k = Done (Pass, k\<lparr>k_ui := (k_ui k)\<lparr>ui_fb := fb'\<rparr>\<rparr>) \<and> fb_inv i fb'))"

lemma on_framebuffer_runs:
  assumes "\<And>s. fb_inv i s \<Longrightarrow> fb_runs i cs s"
  shows "fb_test_passes i (on_framebuffer cs)"
  unfolding fb_test_passes_def on_framebuffer_def using assms by (fastforce simp: fb_runs_def)

lemma on_framebuffer_paints:
  assumes "\<And>p. paint_runs i p cs"
  shows "fb_test_passes i (on_framebuffer cs)"
proof (rule on_framebuffer_runs)
  fix s assume "fb_inv i s"
  moreover have "shows_picture i (pixel_at i s) s" by (simp add: shows_picture_def)
  ultimately show "fb_runs i cs s" using assms by (simp add: paint_runs_def)
qed

definition big_screen :: "info \<Rightarrow> bool" where
  "big_screen i \<longleftrightarrow> 120 \<le> scr_width i \<and> 220 \<le> scr_height i \<and>
     distinct [red_shift i, green_shift i, blue_shift i]"

lemma big_screenD: "big_screen i \<Longrightarrow> 120 \<le> scr_width i" "big_screen i \<Longrightarrow> 220 \<le> scr_height i"
  by (simp_all add: big_screen_def)

lemmas drawing_statements = paint_clear paint_put paint_rect paint_copy paint_scroll paint_info paint_script
  paint_check checks_pixel paint_Nil

lemma framebuffer_put_pixel_changes_exact_pixel_passes:
  assumes "big_screen i"
  shows "fb_test_passes i framebuffer_put_pixel_changes_exact_pixel"
  unfolding framebuffer_put_pixel_changes_exact_pixel_def
  by (rule on_framebuffer_paints,
    (rule drawing_statements | simp only: append.simps
      | use big_screenD [OF assms] in \<open>simp add: on_screen_def rect_def copy_region_def copy_ok_def\<close>; fail)+)

lemma framebuffer_put_pixel_out_of_bounds_is_safe_passes:
  assumes "big_screen i"
  shows "fb_test_passes i framebuffer_put_pixel_out_of_bounds_is_safe"
  unfolding framebuffer_put_pixel_out_of_bounds_is_safe_def
  by (rule on_framebuffer_paints,
    (rule drawing_statements | simp only: append.simps
      | use big_screenD [OF assms] in \<open>simp add: on_screen_def rect_def copy_region_def copy_ok_def\<close>; fail)+)

lemma framebuffer_zero_sized_rect_does_nothing_passes:
  assumes "big_screen i"
  shows "fb_test_passes i framebuffer_zero_sized_rect_does_nothing"
  unfolding framebuffer_zero_sized_rect_does_nothing_def
  by (rule on_framebuffer_paints,
    (rule drawing_statements | simp only: append.simps
      | use big_screenD [OF assms] in \<open>simp add: on_screen_def rect_def copy_region_def copy_ok_def\<close>; fail)+)

lemma framebuffer_copy_rect_copies_pixels_passes:
  assumes "big_screen i"
  shows "fb_test_passes i framebuffer_copy_rect_copies_pixels"
  unfolding framebuffer_copy_rect_copies_pixels_def
  by (rule on_framebuffer_paints,
    (rule drawing_statements | simp only: append.simps
      | use big_screenD [OF assms] in \<open>simp add: on_screen_def rect_def copy_region_def copy_ok_def\<close>; fail)+)

lemma framebuffer_copy_rect_handles_overlap_passes:
  assumes "big_screen i"
  shows "fb_test_passes i framebuffer_copy_rect_handles_overlap"
  unfolding framebuffer_copy_rect_handles_overlap_def
  by (rule on_framebuffer_paints,
    (rule drawing_statements | simp only: append.simps
      | use big_screenD [OF assms] in \<open>simp add: on_screen_def rect_def copy_region_def copy_ok_def\<close>; fail)+)

lemma framebuffer_scroll_moves_pixels_up_passes:
  assumes "big_screen i"
  shows "fb_test_passes i framebuffer_scroll_moves_pixels_up"
  unfolding framebuffer_scroll_moves_pixels_up_def
  by (rule on_framebuffer_paints,
    (rule drawing_statements | simp only: append.simps
      | use big_screenD [OF assms] in \<open>simp add: on_screen_def rect_def copy_region_def copy_ok_def\<close>; fail)+)

lemma framebuffer_scroll_by_zero_does_nothing_passes:
  assumes "big_screen i"
  shows "fb_test_passes i framebuffer_scroll_by_zero_does_nothing"
  unfolding framebuffer_scroll_by_zero_does_nothing_def
  by (rule on_framebuffer_paints,
    (rule drawing_statements | simp only: append.simps
      | use big_screenD [OF assms] in \<open>simp add: on_screen_def rect_def copy_region_def copy_ok_def\<close>; fail)+)

lemma framebuffer_has_valid_dimensions_passes: "fb_test_passes i framebuffer_has_valid_dimensions"
  unfolding framebuffer_has_valid_dimensions_def
proof (rule on_framebuffer_runs)
  fix s assume s: "fb_inv i s"
  then show "fb_runs i
    [\<lambda>s. andthen (fb_width s) (\<lambda>width. andthen (fb_height s) (\<lambda>height.
       script
         [fail_if (\<lambda>_. width = 0) ''framebuffer width is zero'',
          fail_if (\<lambda>_. height = 0) ''framebuffer height is zero'',
          fail_if (\<lambda>_. MAX_WIDTH < width) ''framebuffer exceeds maximum width'',
          fail_if (\<lambda>_. MAX_HEIGHT < height) ''framebuffer exceeds maximum height''] s))] s"
    using info_okD [OF fb_inv_ok [OF s]]
    by (simp add: fb_runs_def fb_width_def fb_height_def get_info_inv fail_if_def)
qed

lemma framebuffer_pitch_is_large_enough_passes: "fb_test_passes i framebuffer_pitch_is_large_enough"
  unfolding framebuffer_pitch_is_large_enough_def
proof (rule on_framebuffer_runs)
  fix s assume s: "fb_inv i s"
  then show "fb_runs i
    [with_info (\<lambda>i. [\<lambda>s. andthen (umul (scr_width i) BYTES_PER_PIXEL) (\<lambda>minimum.
       fail_if (\<lambda>_. scr_pitch i < minimum) ''framebuffer pitch is smaller than row size'' s)])] s"
    using info_okD [OF fb_inv_ok [OF s]]
    by (simp add: fb_runs_def with_info_def get_info_inv fail_if_def)
qed

lemma pixel_of_basic:
  "pixel_of i BLACK = 0" "pixel_of i RED = push_bit (red_shift i) 255"
  "pixel_of i GREEN = push_bit (green_shift i) 255" "pixel_of i BLUE = push_bit (blue_shift i) 255"
  by (simp_all add: pixel_of_def BLACK_def RED_def GREEN_def BLUE_def)

lemma framebuffer_black_color_is_correct_passes: "fb_test_passes i framebuffer_black_color_is_correct"
  unfolding framebuffer_black_color_is_correct_def
  by (rule on_framebuffer_runs) (simp add: fb_runs_def color_to_u32_Done fail_if_def pixel_of_basic)

text \<open>Colours in different channels differ, in the lowest bit of the channel further down.\<close>

lemma channels_differ:
  assumes "a < b" and "b < 32"
  shows "push_bit a (255 :: 32 word) \<noteq> push_bit b 255"
proof
  assume eq: "push_bit a (255 :: 32 word) = push_bit b 255"
  have "bit (push_bit a (255 :: 32 word)) a" using assms by (simp add: bit_push_bit_iff bit_0)
  moreover have "\<not> bit (push_bit b (255 :: 32 word)) a" using assms by (simp add: bit_push_bit_iff)
  ultimately show False using eq by simp
qed

lemma channels_distinct:
  "a \<noteq> b \<Longrightarrow> a < 32 \<Longrightarrow> b < 32 \<Longrightarrow> push_bit a (255 :: 32 word) \<noteq> push_bit b 255"
  using channels_differ [of a b] channels_differ [of b a] by (cases a b rule: linorder_cases) auto

lemma white_not_black:
  assumes "info_ok i"
  shows "pixel_of i WHITE \<noteq> 0"
proof
  assume "pixel_of i WHITE = 0"
  then have "\<not> bit (pixel_of i WHITE) (red_shift i)" by simp
  then show False
    using assms by (simp add: pixel_of_def WHITE_def bit_or_iff bit_push_bit_iff bit_0 info_ok_def)
qed

lemma framebuffer_colors_have_distinct_values_passes:
  assumes "big_screen i"
  shows "fb_test_passes i framebuffer_colors_have_distinct_values"
  unfolding framebuffer_colors_have_distinct_values_def
proof (rule on_framebuffer_runs)
  fix s assume s: "fb_inv i s"
  have "pixel_of i RED \<noteq> pixel_of i GREEN" "pixel_of i RED \<noteq> pixel_of i BLUE" "pixel_of i GREEN \<noteq> pixel_of i BLUE"
    "pixel_of i BLACK \<noteq> pixel_of i WHITE"
    using assms fb_inv_ok [OF s] white_not_black [OF fb_inv_ok [OF s]]
    by (simp_all add: pixel_of_basic(1-4) big_screen_def info_ok_def channels_distinct)
  then show "fb_runs i
    [\<lambda>s. andthen (color_to_u32 BLACK s) (\<lambda>black. andthen (color_to_u32 WHITE s) (\<lambda>white.
       andthen (color_to_u32 RED s) (\<lambda>red. andthen (color_to_u32 GREEN s) (\<lambda>green.
       andthen (color_to_u32 BLUE s) (\<lambda>blue.
       script
         [fail_if (\<lambda>_. black = white) ''black and white have same pixel value'',
          fail_if (\<lambda>_. red = green) ''red and green have same pixel value'',
          fail_if (\<lambda>_. red = blue) ''red and blue have same pixel value'',
          fail_if (\<lambda>_. green = blue) ''green and blue have same pixel value''] s)))))] s"
    using s by (simp add: fb_runs_def color_to_u32_Done fail_if_def)
qed

lemma framebuffer_clear_fills_entire_backbuffer_passes: "fb_test_passes i framebuffer_clear_fills_entire_backbuffer"
  unfolding framebuffer_clear_fills_entire_backbuffer_def
  by (rule on_framebuffer_paints, rule paint_clear, simp, rule paint_info, simp, rule paint_check)
    (auto intro!: checks_loop checks_pixel paint_Nil simp: on_screen_def)

lemma framebuffer_clear_black_works_passes:
  assumes "big_screen i"
  shows "fb_test_passes i framebuffer_clear_black_works"
  unfolding framebuffer_clear_black_works_def
  by (rule on_framebuffer_paints, rule paint_clear, simp, rule paint_info, simp, rule paint_sub,
      use big_screenD [OF assms] in simp, rule paint_sub, use big_screenD [OF assms] in simp, rule paint_check)
    (use big_screenD [OF assms] in \<open>auto intro!: checks_pairs paint_Nil simp: on_screen_def\<close>)

lemma framebuffer_put_pixel_does_not_change_neighbors_passes:
  assumes "big_screen i"
  shows "fb_test_passes i framebuffer_put_pixel_does_not_change_neighbors"
  unfolding framebuffer_put_pixel_does_not_change_neighbors_def
  by (rule on_framebuffer_paints, rule paint_clear, simp, rule paint_put, simp, rule paint_check)
    (use big_screenD [OF assms] in \<open>auto intro!: checks_pairs paint_Nil simp: on_screen_def\<close>)

lemma framebuffer_draw_rect_fills_rectangle_passes:
  assumes "big_screen i"
  shows "fb_test_passes i framebuffer_draw_rect_fills_rectangle"
  unfolding framebuffer_draw_rect_fills_rectangle_def
  by (rule on_framebuffer_paints, rule paint_clear, simp, rule paint_rect, simp, rule paint_check)
    (use big_screenD [OF assms] in \<open>auto intro!: checks_loop checks_pixel paint_Nil simp: on_screen_def rect_def simp del: upt_rec_numeral\<close>)

lemma framebuffer_draw_rect_does_not_modify_outside_passes:
  assumes "big_screen i"
  shows "fb_test_passes i framebuffer_draw_rect_does_not_modify_outside"
  unfolding framebuffer_draw_rect_does_not_modify_outside_def
  by (rule on_framebuffer_paints, rule paint_clear, simp, rule paint_rect, simp, rule paint_check)
    (use big_screenD [OF assms] in \<open>auto intro!: checks_pairs paint_Nil simp: on_screen_def rect_def\<close>)

lemma framebuffer_draw_rect_clips_right_edge_passes:
  assumes "big_screen i"
  shows "fb_test_passes i framebuffer_draw_rect_clips_right_edge"
  unfolding framebuffer_draw_rect_clips_right_edge_def
  by (rule on_framebuffer_paints, rule paint_clear, simp, rule paint_info, simp only: append.simps, rule paint_sub,
      use big_screenD [OF assms] in simp, rule paint_script, simp only: append.simps, rule paint_rect, simp, rule paint_check)
    (use big_screenD [OF assms] in \<open>auto intro!: checks_loop checks_pixel paint_Nil simp: on_screen_def rect_def\<close>)

lemma framebuffer_draw_rect_clips_bottom_edge_passes:
  assumes "big_screen i"
  shows "fb_test_passes i framebuffer_draw_rect_clips_bottom_edge"
  unfolding framebuffer_draw_rect_clips_bottom_edge_def
  by (rule on_framebuffer_paints, rule paint_clear, simp, rule paint_info, simp only: append.simps, rule paint_sub,
      use big_screenD [OF assms] in simp, rule paint_script, simp only: append.simps, rule paint_rect, simp, rule paint_check)
    (use big_screenD [OF assms] in \<open>auto intro!: checks_loop checks_pixel paint_Nil simp: on_screen_def rect_def\<close>)

lemma framebuffer_full_scroll_clears_screen_passes:
  assumes "big_screen i"
  shows "fb_test_passes i framebuffer_full_scroll_clears_screen"
  unfolding framebuffer_full_scroll_clears_screen_def
  by (rule on_framebuffer_paints, rule paint_clear, simp, rule paint_info, simp, rule paint_scroll, simp,
      rule paint_check, rule checks_pixel, use big_screenD [OF assms] in \<open>simp add: on_screen_def\<close>,
      use big_screenD [OF assms] in simp, rule paint_sub, use big_screenD [OF assms] in simp, rule paint_sub,
      use big_screenD [OF assms] in simp, rule paint_check, rule checks_pixel)
    (use big_screenD [OF assms] in \<open>auto intro!: paint_Nil simp: on_screen_def\<close>)

lemma framebuffer_draw_operations_mark_dirty_passes:
  assumes "big_screen i"
  shows "fb_test_passes i framebuffer_draw_operations_mark_dirty"
  unfolding framebuffer_draw_operations_mark_dirty_def
proof (rule on_framebuffer_runs)
  fix s assume s: "fb_inv i s"
  note big = big_screenD [OF assms]
  obtain s1 where s1: "clear BLACK s = Done s1" "fb_inv i s1" by (rule clear_runs [OF s])
  obtain s2 where s2: "put_pixel 50 60 RED (s1\<lparr>dirty := False\<rparr>) = Done s2"
    "drawn i (\<lambda>px py. px = 50 \<and> py = 60) (\<lambda>_ _. pixel_of i RED) (s1\<lparr>dirty := False\<rparr>) s2"
    using put_pixel_drawn [OF set_not_dirty_inv [OF s1(2)]] by blast
  have d2: "dirty s2" "fb_inv i s2"
    using drawn_dirty [OF s2(2), of 50 60] s2(2) big by (simp_all add: on_screen_def drawn_def)
  obtain s3 where s3: "draw_rect 100 100 20 20 GREEN (s2\<lparr>dirty := False\<rparr>) = Done s3"
    "drawn i (rect 100 100 20 20) (\<lambda>_ _. pixel_of i GREEN) (s2\<lparr>dirty := False\<rparr>) s3"
    using draw_rect_drawn [OF set_not_dirty_inv [OF d2(2)]] by blast
  have d3: "dirty s3" "fb_inv i s3"
    using drawn_dirty [OF s3(2), of 100 100] s3(2) big by (simp_all add: on_screen_def drawn_def rect_def)
  show "fb_runs i
    [exec (clear BLACK), exec set_not_dirty, exec (put_pixel 50 60 RED),
     fail_if (\<lambda>s. \<not> dirty s) ''put_pixel did not mark framebuffer dirty'', exec set_not_dirty,
     exec (draw_rect 100 100 20 20 GREEN),
     fail_if (\<lambda>s. \<not> dirty s) ''draw_rect did not mark framebuffer dirty'', exec set_not_dirty] s"
    using s1 s2(1) s3(1) d2 d3 set_not_dirty_inv [OF d3(2)]
    by (simp add: fb_runs_def exec_def set_not_dirty_def fail_if_def)
qed

lemma framebuffer_dirty_rectangle_expands_passes:
  assumes "big_screen i"
  shows "fb_test_passes i framebuffer_dirty_rectangle_expands"
  unfolding framebuffer_dirty_rectangle_expands_def
proof (rule on_framebuffer_runs)
  fix s assume s: "fb_inv i s"
  note big = big_screenD [OF assms]
  obtain s1 where s1: "clear BLACK s = Done s1" "fb_inv i s1" by (rule clear_runs [OF s])
  note inv1 = set_not_dirty_inv [OF s1(2)]
  obtain b where b: "draw_rect 100 200 10 20 RED (s1\<lparr>dirty := False\<rparr>) =
      mark_dirty 100 200 10 20 (s1\<lparr>dirty := False, backbuffer := b\<rparr>)"
    using draw_rect_marks [OF inv1, of 10 20 100 200 RED] big by auto
  let ?s2 = "s1\<lparr>dirty := True, backbuffer := b, dirty_min_x := 100, dirty_min_y := 200,
      dirty_max_x := 110, dirty_max_y := 220\<rparr>"
  have m2: "draw_rect 100 200 10 20 RED (s1\<lparr>dirty := False\<rparr>) = Done ?s2"
    unfolding b using inv1 big by (simp add: mark_dirty_def get_info_def fb_inv_def sat_add_def Let_def)
  have inv2: "fb_inv i ?s2" using inv1 big by (simp add: fb_inv_def)
  obtain c where c: "draw_rect 50 150 30 40 GREEN ?s2 = mark_dirty 50 150 30 40 (?s2\<lparr>backbuffer := c\<rparr>)"
    using draw_rect_marks [OF inv2, of 30 40 50 150 GREEN] big by auto
  let ?s3 = "?s2\<lparr>backbuffer := c, dirty_min_x := 50, dirty_min_y := 150\<rparr>"
  have m3: "draw_rect 50 150 30 40 GREEN ?s2 = Done ?s3"
    unfolding c using inv2 big by (simp add: mark_dirty_def get_info_def fb_inv_def sat_add_def Let_def)
  have inv3: "fb_inv i (?s3\<lparr>dirty := False\<rparr>)" using inv2 by (simp add: fb_inv_def)
  show "fb_runs i
    [exec (clear BLACK), exec set_not_dirty, exec (draw_rect 100 200 10 20 RED),
     exec (draw_rect 50 150 30 40 GREEN), fail_if (\<lambda>s. \<not> dirty s) ''dirty flag was not set'',
     fail_if (\<lambda>s. dirty_min_x s \<noteq> 50) ''dirty minimum X is incorrect'',
     fail_if (\<lambda>s. dirty_min_y s \<noteq> 150) ''dirty minimum Y is incorrect'',
     fail_if (\<lambda>s. dirty_max_x s \<noteq> 110) ''dirty maximum X is incorrect'',
     fail_if (\<lambda>s. dirty_max_y s \<noteq> 220) ''dirty maximum Y is incorrect'', exec set_not_dirty] s"
    using s1(1) m2 m3 inv3 by (simp add: fb_runs_def exec_def set_not_dirty_def fail_if_def)
qed

lemma framebuffer_present_clears_dirty_state_passes:
  assumes "big_screen i"
  shows "fb_test_passes i framebuffer_present_clears_dirty_state"
  unfolding framebuffer_present_clears_dirty_state_def
proof (rule on_framebuffer_runs)
  fix s assume s: "fb_inv i s"
  obtain s1 where s1: "clear BLACK s = Done s1" "fb_inv i s1" by (rule clear_runs [OF s])
  obtain s2 where s2: "put_pixel 20 20 RED s1 = Done s2"
    "drawn i (\<lambda>px py. px = 20 \<and> py = 20) (\<lambda>_ _. pixel_of i RED) s1 s2"
    using put_pixel_drawn [OF s1(2)] by blast
  have d2: "dirty s2" "fb_inv i s2"
    using drawn_dirty [OF s2(2), of 20 20] s2(2) big_screenD [OF assms] by (simp_all add: on_screen_def drawn_def)
  obtain s3 where "present s2 = Done s3" "fb_inv i s3" "\<not> dirty s3" using present_spec [OF d2(2)] by blast
  then show "fb_runs i
    [exec (clear BLACK), exec (put_pixel 20 20 RED), fail_if (\<lambda>s. \<not> dirty s) ''test setup did not mark dirty'',
     exec present, fail_if dirty ''present did not clear dirty state''] s"
    using s1(1) s2(1) d2(1) by (simp add: fb_runs_def exec_def fail_if_def)
qed

lemma framebuffer_repeated_clear_is_stable_passes:
  assumes "big_screen i"
  shows "fb_test_passes i framebuffer_repeated_clear_is_stable"
  unfolding framebuffer_repeated_clear_is_stable_def
proof (rule on_framebuffer_runs)
  fix s assume s: "fb_inv i s"
  let ?body = "\<lambda>_ s. andthen (clear BLACK s) (\<lambda>s. andthen (clear WHITE s) (clear BLACK))"
  have body: "\<exists>s'. ?body x s = Done s' \<and> fb_inv i s' \<and> shows_picture i (\<lambda>_ _. pixel_of i BLACK) s'"
    if inv: "fb_inv i s" for s and x :: nat
  proof -
    obtain s1 where s1: "clear BLACK s = Done s1" "fb_inv i s1" by (rule clear_runs [OF inv])
    obtain s2 where s2: "clear WHITE s1 = Done s2" "fb_inv i s2" by (rule clear_runs [OF s1(2)])
    obtain s3 where "clear BLACK s2 = Done s3" "drawn i (\<lambda>_ _. True) (\<lambda>_ _. pixel_of i BLACK) s2 s3"
      using clear_drawn [OF s2(2)] by blast
    then show ?thesis using s1(1) s2(1) by (auto simp: drawn_def shows_picture_def)
  qed
  have loop: "\<exists>s'. for_each xs ?body s = Done s' \<and> fb_inv i s' \<and>
      (xs \<noteq> [] \<longrightarrow> shows_picture i (\<lambda>_ _. pixel_of i BLACK) s')" if "fb_inv i s" for s and xs :: "nat list"
    using that
  proof (induction xs arbitrary: s)
    case (Cons x xs)
    obtain s1 where s1: "?body x s = Done s1" "fb_inv i s1" "shows_picture i (\<lambda>_ _. pixel_of i BLACK) s1"
      using body [OF Cons.prems] by blast
    obtain s2 where "for_each xs ?body s1 = Done s2" "fb_inv i s2"
      "xs \<noteq> [] \<longrightarrow> shows_picture i (\<lambda>_ _. pixel_of i BLACK) s2" using Cons.IH [OF s1(2)] by blast
    then show ?case using s1 by (cases xs) auto
  qed simp
  have "[0 ..< 10 :: nat] \<noteq> []" by simp
  then obtain s' where s': "for_each [0 ..< 10 :: nat] ?body s = Done s'" "fb_inv i s'"
    "shows_picture i (\<lambda>_ _. pixel_of i BLACK) s'" using loop [OF s] by blast
  have "paint_runs i (\<lambda>_ _. pixel_of i BLACK) [unless_pixel 0 0 BLACK ''repeated clear produced incorrect result'']"
    by (rule paint_check, rule checks_pixel) (use big_screenD [OF assms] in \<open>auto simp: on_screen_def intro: paint_Nil\<close>)
  then show "fb_runs i [exec (for_each [0 ..< 10] ?body),
      unless_pixel 0 0 BLACK ''repeated clear produced incorrect result''] s"
    using s' script_exec [of "for_each [0 ..< 10 :: nat] ?body" s s'] by (simp only: fb_runs_def paint_runs_def)
qed

lemma all_framebuffer_tests_pass:
  assumes "big_screen i"
  shows "\<forall>t \<in> set framebuffer_tests. fb_test_passes i (test_function t)"
  by (simp add: framebuffer_tests_def registered_def
    framebuffer_has_valid_dimensions_passes
    framebuffer_pitch_is_large_enough_passes
    framebuffer_black_color_is_correct_passes
    framebuffer_colors_have_distinct_values_passes [OF assms]
    framebuffer_clear_fills_entire_backbuffer_passes
    framebuffer_clear_black_works_passes [OF assms]
    framebuffer_put_pixel_changes_exact_pixel_passes [OF assms]
    framebuffer_put_pixel_does_not_change_neighbors_passes [OF assms]
    framebuffer_put_pixel_out_of_bounds_is_safe_passes [OF assms]
    framebuffer_draw_rect_fills_rectangle_passes [OF assms]
    framebuffer_draw_rect_does_not_modify_outside_passes [OF assms]
    framebuffer_draw_rect_clips_right_edge_passes [OF assms]
    framebuffer_draw_rect_clips_bottom_edge_passes [OF assms]
    framebuffer_zero_sized_rect_does_nothing_passes [OF assms]
    framebuffer_copy_rect_copies_pixels_passes [OF assms]
    framebuffer_copy_rect_handles_overlap_passes [OF assms]
    framebuffer_scroll_moves_pixels_up_passes [OF assms]
    framebuffer_full_scroll_clears_screen_passes [OF assms]
    framebuffer_scroll_by_zero_does_nothing_passes [OF assms]
    framebuffer_draw_operations_mark_dirty_passes [OF assms]
    framebuffer_dirty_rectangle_expands_passes [OF assms]
    framebuffer_present_clears_dirty_state_passes [OF assms]
    framebuffer_repeated_clear_is_stable_passes [OF assms])

end
