(* ===== verification/Test_Fs.thy ===== *)
theory Test_Fs
  imports Test_Console
begin

text \<open>
  The file system's own tests, in \<open>src/fs.rs\<close>. They run on the kernel's file system and leave
  their files and directories behind. A call is an \<open>attempt\<close>: it changes the file system and its
  result is judged, by an \<open>is_err()\<close> or by a \<open>match\<close>.
\<close>

definition on_fs :: "tmpfs stmt list \<Rightarrow> kernel_test" where
  "on_fs statements k =
     andthen (script statements (k_fs k)) (\<lambda>(result, fs). Done (result, k\<lparr>k_fs := fs\<rparr>))"

definition attempt :: "(tmpfs \<Rightarrow> 'r \<times> tmpfs) \<Rightarrow> ('r \<Rightarrow> test_result) \<Rightarrow> tmpfs stmt" where
  "attempt operation judge fs = (case operation fs of (r, fs') \<Rightarrow> Done (judge r, fs'))"

definition enquire :: "(tmpfs \<Rightarrow> 'r) \<Rightarrow> ('r \<Rightarrow> test_result) \<Rightarrow> tmpfs stmt" where
  "enquire operation judge fs = Done (judge (operation fs), fs)"

text \<open>\<open>if r.is_err() { return Fail(reason) }\<close>, and \<open>match r { Err(e) => Pass, _ => Fail(reason) }\<close>.\<close>

primrec unless_err :: "string \<Rightarrow> fs_error + 'r \<Rightarrow> test_result" where
  "unless_err reason (Inl e) = Fail reason"
| "unless_err reason (Inr x) = Pass"

primrec only_err :: "fs_error \<Rightarrow> string \<Rightarrow> fs_error + 'r \<Rightarrow> test_result" where
  "only_err e reason (Inl e') = (if e' = e then Pass else Fail reason)"
| "only_err e reason (Inr x) = Fail reason"

definition bytes_of_text :: "string \<Rightarrow> byte list" where
  "bytes_of_text s = map (\<lambda>c. word_of_nat (of_char c)) s"

section \<open>\<open>touch\<close> and \<open>mkdir\<close>\<close>

definition test_touch_creates_root_file :: kernel_test where
  "test_touch_creates_root_file = on_fs
    [attempt (touch ''/test_touch_root.txt'') (unless_err ''touch on root failed unexpectedly''),
     enquire (\<lambda>fs. read_file fs ''/test_touch_root.txt'') (\<lambda>r. case r of
         Inr content \<Rightarrow> if content = [] then Pass else Fail ''new file was not empty''
       | Inl _ \<Rightarrow> Fail ''could not read freshly touched file'')]"

definition test_touch_missing_parent_fails :: kernel_test where
  "test_touch_missing_parent_fails = on_fs
    [attempt (touch ''/test_touch_missing_parent/file.txt'') (\<lambda>r. case r of
         Inl e \<Rightarrow> if e = NotFound then Pass else Fail ''wrong error kind for missing parent''
       | Inr _ \<Rightarrow> Fail ''touch succeeded with missing parent'')]"

definition test_touch_on_directory_fails :: kernel_test where
  "test_touch_on_directory_fails = on_fs
    [attempt (mkdir ''/test_touch_on_dir'') (unless_err ''setup mkdir failed''),
     attempt (touch ''/test_touch_on_dir'')
       (only_err IsADirectory ''touch on a directory did not fail as IsADirectory'')]"

definition test_mkdir_creates_dir :: kernel_test where
  "test_mkdir_creates_dir = on_fs
    [attempt (mkdir ''/test_mkdir_new'') (unless_err ''mkdir failed unexpectedly''),
     enquire (\<lambda>fs. list_entries fs ''/'') (\<lambda>r. case r of
         Inr entries \<Rightarrow>
           if list_ex (\<lambda>e. case e of Dir name \<Rightarrow> name = ''test_mkdir_new'' | File _ \<Rightarrow> False) entries
           then Pass else Fail ''new directory not visible in parent listing''
       | Inl _ \<Rightarrow> Fail ''could not list root'')]"

definition test_mkdir_duplicate_fails :: kernel_test where
  "test_mkdir_duplicate_fails = on_fs
    [attempt (mkdir ''/test_mkdir_dup'') (unless_err ''setup mkdir failed''),
     attempt (mkdir ''/test_mkdir_dup'')
       (only_err AlreadyExists ''duplicate mkdir did not fail as AlreadyExists'')]"

definition test_mkdir_missing_parent_fails :: kernel_test where
  "test_mkdir_missing_parent_fails = on_fs
    [attempt (mkdir ''/test_mkdir_missing_parent/child'')
       (only_err NotFound ''mkdir with missing parent did not fail as NotFound'')]"

section \<open>Listing\<close>

definition test_ls_lists_files_and_dirs :: kernel_test where
  "test_ls_lists_files_and_dirs = on_fs
    [attempt (mkdir ''/test_ls_dir'') (unless_err ''setup for ls test failed''),
     attempt (touch ''/test_ls_dir/a.txt'') (unless_err ''setup for ls test failed''),
     attempt (touch ''/test_ls_dir/b.txt'') (unless_err ''setup for ls test failed''),
     attempt (mkdir ''/test_ls_dir/sub'') (unless_err ''setup for ls test failed''),
     enquire (\<lambda>fs. list_names fs ''/test_ls_dir'') (\<lambda>r. case r of
         Inr names \<Rightarrow>
           if sort names = [''a.txt'', ''b.txt'', ''sub/'']
           then Pass else Fail ''ls did not return expected entries''
       | Inl _ \<Rightarrow> Fail ''ls on valid directory failed'')]"

definition test_ls_missing_dir_fails :: kernel_test where
  "test_ls_missing_dir_fails = on_fs
    [enquire (\<lambda>fs. list_names fs ''/test_ls_does_not_exist'')
       (only_err NotFound ''ls on missing directory did not fail as NotFound'')]"

section \<open>\<open>write\<close>, \<open>read\<close> and \<open>remove\<close>\<close>

definition test_write_read_roundtrip :: kernel_test where
  "test_write_read_roundtrip = on_fs
    [attempt (write_file ''/test_write_read.txt'' (bytes_of_text ''hello from sillos''))
       (unless_err ''write failed unexpectedly''),
     enquire (\<lambda>fs. read_file fs ''/test_write_read.txt'') (\<lambda>r. case r of
         Inr content \<Rightarrow> if content = bytes_of_text ''hello from sillos'' then Pass
           else Fail ''read data did not match written data''
       | Inl _ \<Rightarrow> Fail ''read failed after successful write'')]"

definition test_write_on_directory_fails :: kernel_test where
  "test_write_on_directory_fails = on_fs
    [attempt (mkdir ''/test_write_on_dir'') (unless_err ''setup mkdir failed''),
     attempt (write_file ''/test_write_on_dir'' (bytes_of_text ''nope''))
       (only_err IsADirectory ''write on a directory did not fail as IsADirectory'')]"

definition test_remove_file :: kernel_test where
  "test_remove_file = on_fs
    [attempt (write_file ''/test_remove.txt'' (bytes_of_text ''bye'')) (unless_err ''setup write failed''),
     attempt (remove_file ''/test_remove.txt'') (unless_err ''remove failed unexpectedly''),
     enquire (\<lambda>fs. read_file fs ''/test_remove.txt'')
       (only_err NotFound ''file still readable after remove'')]"

definition test_remove_missing_file_fails :: kernel_test where
  "test_remove_missing_file_fails = on_fs
    [attempt (remove_file ''/test_remove_missing.txt'')
       (only_err NotFound ''removing a missing file did not fail as NotFound'')]"

definition test_read_missing_file_fails :: kernel_test where
  "test_read_missing_file_fails = on_fs
    [enquire (\<lambda>fs. read_file fs ''/test_read_missing.txt'')
       (only_err NotFound ''reading a missing file did not fail as NotFound'')]"

section \<open>The registered tests\<close>

definition fs_tests :: "test list" where
  "fs_tests =
    [registered ''test_touch_creates_root_file'' test_touch_creates_root_file,
     registered ''test_touch_missing_parent_fails'' test_touch_missing_parent_fails,
     registered ''test_touch_on_directory_fails'' test_touch_on_directory_fails,
     registered ''test_mkdir_creates_dir'' test_mkdir_creates_dir,
     registered ''test_mkdir_duplicate_fails'' test_mkdir_duplicate_fails,
     registered ''test_mkdir_missing_parent_fails'' test_mkdir_missing_parent_fails,
     registered ''test_ls_lists_files_and_dirs'' test_ls_lists_files_and_dirs,
     registered ''test_ls_missing_dir_fails'' test_ls_missing_dir_fails,
     registered ''test_write_read_roundtrip'' test_write_read_roundtrip,
     registered ''test_write_on_directory_fails'' test_write_on_directory_fails,
     registered ''test_remove_file'' test_remove_file,
     registered ''test_remove_missing_file_fails'' test_remove_missing_file_fails,
     registered ''test_read_missing_file_fails'' test_read_missing_file_fails]"

end
