(* ===== verification/Test_Fs_Props.thy ===== *)
theory Test_Fs_Props
  imports Test_Fs
begin

text \<open>
  The kernel's file system tests pass on every well-formed file system that does not hold the paths
  the test is about; what they leave behind are these paths only. A script is followed on a file
  system seen as its set of directories and its contents by path (\<open>fs_shows\<close>).
\<close>

section \<open>Statements on directories and contents\<close>

definition fs_shows :: "(string \<Rightarrow> bool) \<Rightarrow> (string \<Rightarrow> byte list option) \<Rightarrow> tmpfs \<Rightarrow> bool" where
  "fs_shows d f fs \<longleftrightarrow> tmpfs_ok fs \<and> rooted fs \<and> is_dir fs = d \<and> (\<lambda>p. btree_get p (files fs)) = f"

definition fs_runs :: "string set \<Rightarrow> (string \<Rightarrow> bool) \<Rightarrow> (string \<Rightarrow> byte list option) \<Rightarrow> tmpfs stmt list \<Rightarrow> bool" where
  "fs_runs A d f cs \<longleftrightarrow> (\<forall>fs. fs_shows d f fs \<longrightarrow>
     (\<exists>fs'. script cs fs = Done (Pass, fs') \<and> tmpfs_ok fs' \<and> rooted fs' \<and>
       (\<forall>p. p \<notin> A \<longrightarrow> exists_path fs' p = (d p \<or> f p \<noteq> None))))"

lemma fs_showsD:
  assumes "fs_shows d f fs"
  shows "tmpfs_ok fs" and "rooted fs" and "is_dir fs p = d p" and "btree_get p (files fs) = f p"
    and "exists_path fs p \<longleftrightarrow> d p \<or> f p \<noteq> None" and "d p \<or> f p \<noteq> None \<Longrightarrow> d (parent_of p)"
  using assms by (auto simp: fs_shows_def exists_path_def rooted_def)

lemma fs_shows_root: "fs_shows d f fs \<Longrightarrow> d root"
  by (auto simp: fs_shows_def is_dir_def)

lemma fs_runs_Nil: "fs_runs A d f []"
  by (simp add: fs_runs_def fs_showsD)

lemma fs_runs_change:
  assumes "\<And>fs. fs_shows d f fs \<Longrightarrow> \<exists>r fs'. operation fs = (r, fs') \<and> judge r = Pass \<and> fs_shows d' f' fs'"
    and "fs_runs A d' f' cs" and "\<And>p. p \<notin> A \<Longrightarrow> d' p = d p \<and> f' p = f p"
  shows "fs_runs A d f (attempt operation judge # cs)"
  unfolding fs_runs_def
proof (intro allI impI)
  fix fs assume "fs_shows d f fs"
  then obtain r fs1 where s: "operation fs = (r, fs1)" "judge r = Pass" "fs_shows d' f' fs1"
    using assms(1) by blast
  then obtain fs' where "script cs fs1 = Done (Pass, fs')" "tmpfs_ok fs'" "rooted fs'"
    "\<And>p. p \<notin> A \<Longrightarrow> exists_path fs' p = (d' p \<or> f' p \<noteq> None)"
    using assms(2) unfolding fs_runs_def by blast
  then show "\<exists>fs'. script (attempt operation judge # cs) fs = Done (Pass, fs') \<and> tmpfs_ok fs' \<and> rooted fs' \<and>
      (\<forall>p. p \<notin> A \<longrightarrow> exists_path fs' p = (d p \<or> f p \<noteq> None))"
    using s(1,2) assms(3) by (auto simp: attempt_def)
qed

lemma runs_mkdir:
  assumes "fs_runs A (d(p := True)) f cs" and "\<not> d p" and "f p = None" and "d (parent_of p)" and "p \<in> A"
    and "judge (Inr ()) = Pass"
  shows "fs_runs A d f (attempt (mkdir p) judge # cs)"
proof (rule fs_runs_change [OF _ assms(1)])
  fix fs assume s: "fs_shows d f fs"
  note v = fs_showsD [OF s]
  have m: "mkdir p fs = (Inr (), fs\<lparr>dirs := btree_insert p () (dirs fs)\<rparr>)"
    using assms(2-4) fs_shows_root [OF s] by (auto simp: mkdir_def v)
  moreover have "fs_shows (d(p := True)) f (fs\<lparr>dirs := btree_insert p () (dirs fs)\<rparr>)"
    using mkdir_ok [OF v(1) m] mkdir_rooted [OF v(1,2) m] s
    by (auto simp: fs_shows_def is_dir_mkdir [OF v(1)] fun_eq_iff)
  ultimately show "\<exists>r fs'. mkdir p fs = (r, fs') \<and> judge r = Pass \<and> fs_shows (d(p := True)) f fs'"
    using assms(6) by blast
qed (use assms(5) in auto)

lemma runs_touch:
  assumes "fs_runs A d (f(p \<mapsto> [])) cs" and "\<not> d p" and "f p = None" and "d (parent_of p)" and "p \<in> A"
    and "judge (Inr ()) = Pass"
  shows "fs_runs A d f (attempt (touch p) judge # cs)"
proof (rule fs_runs_change [OF _ assms(1)])
  fix fs assume s: "fs_shows d f fs"
  note v = fs_showsD [OF s]
  have m: "touch p fs = (Inr (), fs\<lparr>files := btree_insert p [] (files fs)\<rparr>)"
    using assms(2-4) by (auto simp: touch_def v)
  moreover have "fs_shows d (f(p \<mapsto> [])) (fs\<lparr>files := btree_insert p [] (files fs)\<rparr>)"
    using touch_ok [OF v(1) m] touch_rooted [OF v(1,2) m] s tmpfs_okD(1) [OF v(1)]
    by (auto simp: fs_shows_def btree_laws)
  ultimately show "\<exists>r fs'. touch p fs = (r, fs') \<and> judge r = Pass \<and> fs_shows d (f(p \<mapsto> [])) fs'"
    using assms(6) by blast
qed (use assms(5) in auto)

lemma runs_write:
  assumes "fs_runs A d (f(p \<mapsto> content)) cs" and "\<not> d p" and "d (parent_of p)" and "p \<in> A"
    and "judge (Inr ()) = Pass"
  shows "fs_runs A d f (attempt (write_file p content) judge # cs)"
proof (rule fs_runs_change [OF _ assms(1)])
  fix fs assume s: "fs_shows d f fs"
  note v = fs_showsD [OF s]
  let ?fs' = "fs\<lparr>files := btree_insert p content (files fs)\<rparr>"
  have m: "write_file p content fs = (Inr (), ?fs')"
    using assms(2) by (simp add: write_file_def v)
  moreover have "rooted ?fs'"
    using v(2) assms(3) tmpfs_okD(1) [OF v(1)] v(3)
    by (auto simp: rooted_def exists_path_def btree_laws)
  then have "fs_shows d (f(p \<mapsto> content)) ?fs'"
    using write_file_ok [OF v(1) m] s tmpfs_okD(1) [OF v(1)]
    by (auto simp: fs_shows_def btree_laws)
  ultimately show "\<exists>r fs'. write_file p content fs = (r, fs') \<and> judge r = Pass \<and> fs_shows d (f(p \<mapsto> content)) fs'"
    using assms(5) by blast
qed (use assms(4) in auto)

lemma runs_remove:
  assumes "fs_runs A d (f(p := None)) cs" and "f p \<noteq> None" and "p \<in> A" and "judge (Inr ()) = Pass"
  shows "fs_runs A d f (attempt (remove_file p) judge # cs)"
proof (rule fs_runs_change [OF _ assms(1)])
  fix fs assume s: "fs_shows d f fs"
  note v = fs_showsD [OF s]
  have m: "remove_file p fs = (Inr (), fs\<lparr>files := btree_remove p (files fs)\<rparr>)"
    using assms(2) by (auto simp: remove_file_def v)
  moreover have "fs_shows d (f(p := None)) (fs\<lparr>files := btree_remove p (files fs)\<rparr>)"
    using remove_file_ok [OF v(1) m] remove_rooted [OF v(1,2) m] s tmpfs_okD(1) [OF v(1)]
    by (auto simp: fs_shows_def btree_laws)
  ultimately show "\<exists>r fs'. remove_file p fs = (r, fs') \<and> judge r = Pass \<and> fs_shows d (f(p := None)) fs'"
    using assms(4) by blast
qed (use assms(3) in auto)

text \<open>A call that is refused, and a question.\<close>

lemma runs_refused:
  assumes "fs_runs A d f cs" and "\<And>fs. fs_shows d f fs \<Longrightarrow> \<exists>e. operation fs = (Inl e, fs) \<and> judge (Inl e) = Pass"
  shows "fs_runs A d f (attempt operation judge # cs)"
  by (rule fs_runs_change [OF _ assms(1)]) (use assms(2) in fastforce)+

lemma runs_enquire:
  assumes "fs_runs A d f cs" and "\<And>fs. fs_shows d f fs \<Longrightarrow> judge (operation fs) = Pass"
  shows "fs_runs A d f (enquire operation judge # cs)"
  using assms by (simp add: fs_runs_def enquire_def)

lemma fs_refuses:
  assumes "fs_shows d f fs"
  shows "d p \<Longrightarrow> mkdir p fs = (Inl AlreadyExists, fs)"
    and "\<not> d p \<Longrightarrow> f p = None \<Longrightarrow> \<not> d (parent_of p) \<Longrightarrow> mkdir p fs = (Inl NotFound, fs)"
    and "d p \<Longrightarrow> touch p fs = (Inl IsADirectory, fs)"
    and "\<not> d p \<Longrightarrow> \<not> d (parent_of p) \<Longrightarrow> touch p fs = (Inl NotFound, fs)"
    and "d p \<Longrightarrow> write_file p content fs = (Inl IsADirectory, fs)"
    and "f p = None \<Longrightarrow> remove_file p fs = (Inl NotFound, fs)"
    and "f p = None \<Longrightarrow> read_file fs p = Inl NotFound"
    and "f p = Some content \<Longrightarrow> read_file fs p = Inr content"
    and "\<not> d p \<Longrightarrow> list_names fs p = Inl NotFound"
  using fs_shows_root [OF assms]
  by (auto simp: mkdir_def touch_def write_file_def remove_file_def read_file_def list_names_def
      list_entries_def fs_showsD(3,4) [OF assms])

section \<open>The tests\<close>

definition fs_test_passes :: "string set \<Rightarrow> kernel_test \<Rightarrow> bool" where
  "fs_test_passes A t \<longleftrightarrow> (\<forall>k. tmpfs_ok (k_fs k) \<longrightarrow> rooted (k_fs k) \<longrightarrow> (\<forall>p \<in> A. \<not> exists_path (k_fs k) p) \<longrightarrow>
     (\<exists>fs'. t k = Done (Pass, k\<lparr>k_fs := fs'\<rparr>) \<and> tmpfs_ok fs' \<and> rooted fs' \<and>
       (\<forall>p. p \<notin> A \<longrightarrow> exists_path fs' p = exists_path (k_fs k) p)))"

lemma on_fs_runs:
  assumes "\<And>d f. d root \<Longrightarrow> (\<And>p. p \<in> A \<Longrightarrow> \<not> d p \<and> f p = None) \<Longrightarrow>
     (\<And>p. d p \<or> f p \<noteq> None \<Longrightarrow> d (parent_of p)) \<Longrightarrow> fs_runs A d f cs"
  shows "fs_test_passes A (on_fs cs)"
  unfolding fs_test_passes_def
proof (intro allI impI)
  fix k :: kernel assume k: "tmpfs_ok (k_fs k)" "rooted (k_fs k)" "\<forall>p \<in> A. \<not> exists_path (k_fs k) p"
  let ?d = "is_dir (k_fs k)" and ?f = "\<lambda>p. btree_get p (files (k_fs k))"
  have "fs_runs A ?d ?f cs"
    by (rule assms) (use k in \<open>auto simp: is_dir_def exists_path_def rooted_def\<close>)
  moreover have "fs_shows ?d ?f (k_fs k)" using k by (simp add: fs_shows_def)
  ultimately obtain fs' where "script cs (k_fs k) = Done (Pass, fs')" "tmpfs_ok fs'" "rooted fs'"
    "\<And>p. p \<notin> A \<Longrightarrow> exists_path fs' p = (?d p \<or> ?f p \<noteq> None)"
    unfolding fs_runs_def by blast
  then show "\<exists>fs'. on_fs cs k = Done (Pass, k\<lparr>k_fs := fs'\<rparr>) \<and> tmpfs_ok fs' \<and> rooted fs' \<and>
      (\<forall>p. p \<notin> A \<longrightarrow> exists_path fs' p = exists_path (k_fs k) p)"
    by (auto simp: on_fs_def exists_path_def)
qed

lemmas path_eval = parent_of_def trim_end_matches_def last_segment_def

lemma test_touch_creates_root_file_passes:
  "fs_test_passes {''/test_touch_root.txt''} test_touch_creates_root_file"
  unfolding test_touch_creates_root_file_def
  by (rule on_fs_runs, rule runs_touch, rule runs_enquire, rule fs_runs_Nil)
    (simp_all add: path_eval fs_refuses)

lemma test_touch_missing_parent_fails_passes:
  "fs_test_passes {''/test_touch_missing_parent'', ''/test_touch_missing_parent/file.txt''} test_touch_missing_parent_fails"
  unfolding test_touch_missing_parent_fails_def
  by (rule on_fs_runs, rule runs_refused, rule fs_runs_Nil)
    (simp_all add: path_eval fs_refuses)

lemma test_touch_on_directory_fails_passes:
  "fs_test_passes {''/test_touch_on_dir''} test_touch_on_directory_fails"
  unfolding test_touch_on_directory_fails_def
  by (rule on_fs_runs, rule runs_mkdir, rule runs_refused, rule fs_runs_Nil)
    (simp_all add: path_eval fs_refuses)

lemma test_mkdir_duplicate_fails_passes:
  "fs_test_passes {''/test_mkdir_dup''} test_mkdir_duplicate_fails"
  unfolding test_mkdir_duplicate_fails_def
  by (rule on_fs_runs, rule runs_mkdir, rule runs_refused, rule fs_runs_Nil)
    (simp_all add: path_eval fs_refuses)

lemma test_mkdir_missing_parent_fails_passes:
  "fs_test_passes {''/test_mkdir_missing_parent'', ''/test_mkdir_missing_parent/child''} test_mkdir_missing_parent_fails"
  unfolding test_mkdir_missing_parent_fails_def
  by (rule on_fs_runs, rule runs_refused, rule fs_runs_Nil)
    (simp_all add: path_eval fs_refuses)

lemma test_ls_missing_dir_fails_passes:
  "fs_test_passes {''/test_ls_does_not_exist''} test_ls_missing_dir_fails"
  unfolding test_ls_missing_dir_fails_def
  by (rule on_fs_runs, rule runs_enquire, rule fs_runs_Nil)
    (simp_all add: path_eval fs_refuses)

lemma test_write_read_roundtrip_passes:
  "fs_test_passes {''/test_write_read.txt''} test_write_read_roundtrip"
  unfolding test_write_read_roundtrip_def
  by (rule on_fs_runs, rule runs_write, rule runs_enquire, rule fs_runs_Nil)
    (simp_all add: path_eval fs_refuses)

lemma test_write_on_directory_fails_passes:
  "fs_test_passes {''/test_write_on_dir''} test_write_on_directory_fails"
  unfolding test_write_on_directory_fails_def
  by (rule on_fs_runs, rule runs_mkdir, rule runs_refused, rule fs_runs_Nil)
    (simp_all add: path_eval fs_refuses)

lemma test_remove_file_passes:
  "fs_test_passes {''/test_remove.txt''} test_remove_file"
  unfolding test_remove_file_def
  by (rule on_fs_runs, rule runs_write, rule runs_remove, rule runs_enquire, rule fs_runs_Nil)
    (simp_all add: path_eval fs_refuses)

lemma test_remove_missing_file_fails_passes:
  "fs_test_passes {''/test_remove_missing.txt''} test_remove_missing_file_fails"
  unfolding test_remove_missing_file_fails_def
  by (rule on_fs_runs, rule runs_refused, rule fs_runs_Nil)
    (simp_all add: path_eval fs_refuses)

lemma test_read_missing_file_fails_passes:
  "fs_test_passes {''/test_read_missing.txt''} test_read_missing_file_fails"
  unfolding test_read_missing_file_fails_def
  by (rule on_fs_runs, rule runs_enquire, rule fs_runs_Nil)
    (simp_all add: path_eval fs_refuses)

text \<open>The two tests that look at a listing.\<close>

lemma listed_dirs: "fs_shows d f fs \<Longrightarrow> set (btree_keys (dirs fs)) = {p. p \<noteq> root \<and> d p}"
  using btree_map.keys_get [OF tmpfs_okD(2) [OF fs_showsD(1)]] tmpfs_okD(4) [OF fs_showsD(1)]
  by (auto simp: fs_shows_def is_dir_def)

lemma listed_files: "fs_shows d f fs \<Longrightarrow> set (btree_keys (files fs)) = {p. f p \<noteq> None}"
  using btree_map.keys_get [OF tmpfs_okD(1) [OF fs_showsD(1)]] by (auto simp: fs_shows_def)

lemma sorted_keys:
  assumes "fs_shows d f fs"
  shows "filter P (btree_keys (dirs fs)) = sorted_list_of_set {p. p \<noteq> root \<and> d p \<and> P p}"
    and "filter P (btree_keys (files fs)) = sorted_list_of_set {p. f p \<noteq> None \<and> P p}"
proof -
  note ok = tmpfs_okD [OF fs_showsD(1) [OF assms]]
  have "filter P (btree_keys (dirs fs)) = sorted_list_of_set (set (filter P (btree_keys (dirs fs))))"
    "filter P (btree_keys (files fs)) = sorted_list_of_set (set (filter P (btree_keys (files fs))))"
    using btree_map.keys_sorted [OF ok(1)] btree_map.keys_sorted [OF ok(2)]
    by (simp_all only: sorted_list_of_set.idem_if_sorted_distinct sorted_wrt_filter distinct_filter)
  then show "filter P (btree_keys (dirs fs)) = sorted_list_of_set {p. p \<noteq> root \<and> d p \<and> P p}"
    "filter P (btree_keys (files fs)) = sorted_list_of_set {p. f p \<noteq> None \<and> P p}"
    using listed_dirs [OF assms] listed_files [OF assms]
    by (simp_all add: set_filter conj_ac cong: Collect_cong)
qed

lemma test_mkdir_creates_dir_passes: "fs_test_passes {''/test_mkdir_new''} test_mkdir_creates_dir"
  unfolding test_mkdir_creates_dir_def
proof (rule on_fs_runs, rule runs_mkdir, rule runs_enquire, rule fs_runs_Nil)
  fix d f fs
  assume s: "fs_shows (d(''/test_mkdir_new'' := True)) f fs"
  have "''/test_mkdir_new'' \<in> set (btree_keys (dirs fs))"
    by (simp add: listed_dirs [OF s])
  moreover have "parent_of ''/test_mkdir_new'' = root" "last_segment ''/test_mkdir_new'' = ''test_mkdir_new''"
    by (simp_all add: path_eval)
  ultimately have "Dir ''test_mkdir_new'' \<in> set (map (\<lambda>p. Dir (last_segment p))
      (filter (\<lambda>p. parent_of p = root) (btree_keys (dirs fs))))"
    by (force simp: image_iff)
  moreover have "is_dir fs root" by (simp add: is_dir_def)
  ultimately obtain entries where "list_entries fs root = Inr entries" "Dir ''test_mkdir_new'' \<in> set entries"
    by (simp add: list_entries_def)
  then show "(case list_entries fs root of
         Inl _ \<Rightarrow> Fail ''could not list root''
       | Inr entries \<Rightarrow>
           if list_ex (\<lambda>e. case e of File _ \<Rightarrow> False | Dir name \<Rightarrow> name = ''test_mkdir_new'') entries
           then Pass else Fail ''new directory not visible in parent listing'') = Pass"
    by (force simp: list_ex_iff)
qed (simp_all add: path_eval)

abbreviation ls_paths :: "string set" where
  "ls_paths \<equiv> {''/test_ls_dir'', ''/test_ls_dir/a.txt'', ''/test_ls_dir/b.txt'', ''/test_ls_dir/sub''}"

lemma ls_listing:
  assumes "fs_shows (d(''/test_ls_dir'' := True, ''/test_ls_dir/sub'' := True))
      (f(''/test_ls_dir/a.txt'' \<mapsto> [], ''/test_ls_dir/b.txt'' \<mapsto> [])) fs"
    and "\<not> d ''/test_ls_dir''" and "\<And>p. d p \<or> f p \<noteq> None \<Longrightarrow> d (parent_of p)"
  shows "list_names fs ''/test_ls_dir'' = Inr [''sub/'', ''a.txt'', ''b.txt'']"
proof -
  have p: "parent_of ''/test_ls_dir'' = root" "parent_of ''/test_ls_dir/sub'' = ''/test_ls_dir''"
    "parent_of ''/test_ls_dir/a.txt'' = ''/test_ls_dir''" "parent_of ''/test_ls_dir/b.txt'' = ''/test_ls_dir''"
    and l: "last_segment ''/test_ls_dir/sub'' = ''sub''" "last_segment ''/test_ls_dir/a.txt'' = ''a.txt''"
      "last_segment ''/test_ls_dir/b.txt'' = ''b.txt''"
    by (simp_all add: path_eval)
  have none: "parent_of q \<noteq> ''/test_ls_dir''" if "d q \<or> f q \<noteq> None" for q
    using assms(2) assms(3) [OF that] by metis
  let ?d = "d(''/test_ls_dir'' := True, ''/test_ls_dir/sub'' := True)"
  let ?f = "f(''/test_ls_dir/a.txt'' \<mapsto> [], ''/test_ls_dir/b.txt'' \<mapsto> [])"
  have "{q. q \<noteq> root \<and> ?d q \<and> parent_of q = ''/test_ls_dir''} = {''/test_ls_dir/sub''}"
    "{q. ?f q \<noteq> None \<and> parent_of q = ''/test_ls_dir''} = {''/test_ls_dir/a.txt'', ''/test_ls_dir/b.txt''}"
    using none p by (auto split: if_splits)
  moreover have "is_dir fs ''/test_ls_dir''" using fs_showsD(3) [OF assms(1)] by simp
  ultimately show ?thesis
    by (simp add: list_names_def list_entries_def sorted_keys [OF assms(1)] l)
qed

lemma test_ls_lists_files_and_dirs_passes: "fs_test_passes ls_paths test_ls_lists_files_and_dirs"
  unfolding test_ls_lists_files_and_dirs_def
proof (rule on_fs_runs, rule runs_mkdir, rule runs_touch, rule runs_touch, rule runs_mkdir,
    rule runs_enquire, rule fs_runs_Nil)
  fix d f fs
  assume d: "\<And>p. p \<in> ls_paths \<Longrightarrow> \<not> d p \<and> f p = None" "\<And>p. d p \<or> f p \<noteq> None \<Longrightarrow> d (parent_of p)"
    and s: "fs_shows (d(''/test_ls_dir'' := True, ''/test_ls_dir/sub'' := True))
      (f(''/test_ls_dir/a.txt'' \<mapsto> [], ''/test_ls_dir/b.txt'' \<mapsto> [])) fs"
  have "\<not> d ''/test_ls_dir''" using d(1) by simp
  from ls_listing [OF s this d(2)]
  show "(case list_names fs ''/test_ls_dir'' of
         Inl _ \<Rightarrow> Fail ''ls on valid directory failed''
       | Inr names \<Rightarrow>
           if sort names = [''a.txt'', ''b.txt'', ''sub/'']
           then Pass else Fail ''ls did not return expected entries'') = Pass"
    by simp
qed (simp_all add: path_eval)

text \<open>The paths the tests are about, each with its test.\<close>

definition scratch_paths :: "(string \<times> string) list" where
  "scratch_paths =
    [(''/test_touch_root.txt'', ''test_touch_creates_root_file''),
     (''/test_touch_missing_parent'', ''test_touch_missing_parent_fails''),
     (''/test_touch_missing_parent/file.txt'', ''test_touch_missing_parent_fails''),
     (''/test_touch_on_dir'', ''test_touch_on_directory_fails''),
     (''/test_mkdir_new'', ''test_mkdir_creates_dir''),
     (''/test_mkdir_dup'', ''test_mkdir_duplicate_fails''),
     (''/test_mkdir_missing_parent'', ''test_mkdir_missing_parent_fails''),
     (''/test_mkdir_missing_parent/child'', ''test_mkdir_missing_parent_fails''),
     (''/test_ls_dir'', ''test_ls_lists_files_and_dirs''),
     (''/test_ls_dir/a.txt'', ''test_ls_lists_files_and_dirs''),
     (''/test_ls_dir/b.txt'', ''test_ls_lists_files_and_dirs''),
     (''/test_ls_dir/sub'', ''test_ls_lists_files_and_dirs''),
     (''/test_ls_does_not_exist'', ''test_ls_missing_dir_fails''),
     (''/test_write_read.txt'', ''test_write_read_roundtrip''),
     (''/test_write_on_dir'', ''test_write_on_directory_fails''),
     (''/test_remove.txt'', ''test_remove_file''),
     (''/test_remove_missing.txt'', ''test_remove_missing_file_fails''),
     (''/test_read_missing.txt'', ''test_read_missing_file_fails'')]"

definition fs_scratch :: "string \<Rightarrow> string set" where
  "fs_scratch name = {p. map_of scratch_paths p = Some name}"

lemma fs_scratch_apart: "a \<noteq> b \<Longrightarrow> fs_scratch a \<inter> fs_scratch b = {}"
  by (auto simp: fs_scratch_def)

lemma fs_test_passes_mono: "fs_test_passes A t \<Longrightarrow> A \<subseteq> B \<Longrightarrow> fs_test_passes B t"
  unfolding fs_test_passes_def by (meson subsetD)

lemmas fs_test_lemmas =
  test_touch_creates_root_file_passes
  test_touch_missing_parent_fails_passes
  test_touch_on_directory_fails_passes
  test_mkdir_creates_dir_passes
  test_mkdir_duplicate_fails_passes
  test_mkdir_missing_parent_fails_passes
  test_ls_lists_files_and_dirs_passes
  test_ls_missing_dir_fails_passes
  test_write_read_roundtrip_passes
  test_write_on_directory_fails_passes
  test_remove_file_passes
  test_remove_missing_file_fails_passes
  test_read_missing_file_fails_passes

lemma all_fs_tests_pass: "\<forall>t \<in> set fs_tests. fs_test_passes (fs_scratch (test_name t)) (test_function t)"
  unfolding fs_tests_def registered_def
  by (simp only: list.set ball_simps test.select_convs simp_thms)
    (intro conjI; rule fs_test_passes_mono, rule fs_test_lemmas, simp add: fs_scratch_def scratch_paths_def)

end
