(* ===== verification/Test_Heap.thy ===== *)
theory Test_Heap
  imports Test_Console
begin

text \<open>
  The tests of the kernel heap, \<open>src/kmem/memtests.rs\<close>. They call \<open>alloc\<close> and \<open>dealloc\<close> of the
  global allocator; the state of a test is the heap with the test's two local arrays. A statement that
  binds a layout or a pointer takes the rest of its scope as a function.
\<close>

record heap_frame =
  heap :: buddy
  allocations :: "nat list"
  layouts :: "layout option list"

definition on_heap :: "heap_frame stmt list \<Rightarrow> kernel_test" where
  "on_heap statements k =
     andthen (script statements \<lparr>heap = k_heap k, allocations = [], layouts = []\<rparr>) (\<lambda>(result, s).
       Done (result, k\<lparr>k_heap := heap s\<rparr>))"

text \<open>\<open>let layout = match Layout::from_size_align(sz, al) { Ok(layout) => layout, Err(_) => return Fail }\<close>\<close>

definition with_layout :: "nat \<Rightarrow> nat \<Rightarrow> string \<Rightarrow> (layout \<Rightarrow> heap_frame stmt list) \<Rightarrow> heap_frame stmt" where
  "with_layout sz al reason body s =
     (case from_size_align sz al of None \<Rightarrow> Done (Fail reason, s) | Some l \<Rightarrow> script (body l) s)"

text \<open>\<open>allocate\<close> and \<open>deallocate\<close>.\<close>

definition allocate :: "layout \<Rightarrow> (nat \<Rightarrow> heap_frame stmt list) \<Rightarrow> heap_frame stmt" where
  "allocate l body s =
     andthen (buddy_alloc l (heap s)) (\<lambda>(ptr, h). script (body ptr) (s\<lparr>heap := h\<rparr>))"

definition deallocate :: "nat \<Rightarrow> layout \<Rightarrow> heap_frame stmt" where
  "deallocate ptr l = exec (\<lambda>s. andthen (buddy_dealloc ptr l (heap s)) (\<lambda>h. Done (s\<lparr>heap := h\<rparr>)))"

text \<open>\<open>if bad { cleanup; return Fail(reason) }\<close> and \<open>if !ptr.is_null() { deallocate(ptr, layout) }\<close>\<close>

definition bail_if :: "bool \<Rightarrow> heap_frame stmt list \<Rightarrow> string \<Rightarrow> heap_frame stmt" where
  "bail_if bad cleanup reason = (if bad then script (cleanup @ [fail_if (\<lambda>_. True) reason]) else script [])"

definition deallocate_non_null :: "nat \<Rightarrow> layout \<Rightarrow> heap_frame stmt" where
  "deallocate_non_null ptr l = (if ptr \<noteq> 0 then deallocate ptr l else script [])"

section \<open>Single blocks\<close>

definition kmem_allocates_small_block :: kernel_test where
  "kmem_allocates_small_block = on_heap
    [with_layout 8 8 ''failed to construct allocation layout'' (\<lambda>l.
       [allocate l (\<lambda>ptr.
         [bail_if (ptr = 0) [] ''small allocation returned null'',
          deallocate ptr l])])]"

definition kmem_allocates_multiple_blocks :: kernel_test where
  "kmem_allocates_multiple_blocks = on_heap
    [with_layout 64 8 ''failed to construct allocation layout'' (\<lambda>l.
       [allocate l (\<lambda>a. [allocate l (\<lambda>b. [allocate l (\<lambda>c.
         [bail_if (a = 0 \<or> b = 0 \<or> c = 0)
            [deallocate_non_null a l, deallocate_non_null b l, deallocate_non_null c l]
            ''one or more allocations returned null'',
          bail_if (a = b \<or> a = c \<or> b = c)
            [deallocate a l, deallocate b l, deallocate c l]
            ''allocator returned duplicate addresses'',
          deallocate a l, deallocate b l, deallocate c l])])])])]"

definition kmem_respects_alignment :: kernel_test where
  "kmem_respects_alignment = on_heap
    [loop [(1, 1), (8, 2), (16, 4), (32, 8), (32, 16), (64, 32), (128, 64), (256, 128)] (\<lambda>(sz, alignment).
       [with_layout sz alignment ''failed to construct alignment layout'' (\<lambda>l.
         [allocate l (\<lambda>ptr.
           [bail_if (ptr = 0) [] ''aligned allocation returned null'',
            bail_if (ptr mod alignment \<noteq> 0) [deallocate ptr l]
              ''allocation does not satisfy requested alignment'',
            deallocate ptr l])])])]"

section \<open>Memory access\<close>

text \<open>
  The tests' accesses are to single bytes, the model's memory is one of words at every address
  (\<open>node_next a\<close> is made of the bytes from \<open>a\<close> to \<open>a + 7\<close>, the lowest first): a byte written at \<open>a\<close>
  changes the eight words it belongs to.
\<close>

definition put_byte :: "nat \<Rightarrow> nat \<Rightarrow> nat \<Rightarrow> nat" where
  "put_byte i v x = x div 256 ^ Suc i * 256 ^ Suc i + v * 256 ^ i + x mod 256 ^ i"

definition write_byte :: "nat \<Rightarrow> nat \<Rightarrow> buddy \<Rightarrow> buddy" where
  "write_byte a v h = h\<lparr>node_next := \<lambda>w.
     if w \<le> a \<and> a < w + 8 then put_byte (a - w) v (node_next h w) else node_next h w\<rparr>"

definition read_byte :: "nat \<Rightarrow> buddy \<Rightarrow> nat" where
  "read_byte a h = node_next h a mod 256"

definition kmem_allocated_memory_is_writable :: kernel_test where
  "kmem_allocated_memory_is_writable = on_heap
    [with_layout 4096 8 ''failed to construct layout'' (\<lambda>l.
       [allocate l (\<lambda>ptr.
         [bail_if (ptr = 0) [] ''allocation returned null'',
          loop [0 ..< 4096] (\<lambda>i. [exec (\<lambda>s. Done (s\<lparr>heap := write_byte (ptr + i) (i mod 256) (heap s)\<rparr>))]),
          loop [0 ..< 4096] (\<lambda>i.
            [\<lambda>s. bail_if (read_byte (ptr + i) (heap s) \<noteq> i mod 256) [deallocate ptr l]
               ''memory read-back did not match written data'' s]),
          deallocate ptr l])])]"

section \<open>Freeing\<close>

definition kmem_can_free_memory :: kernel_test where
  "kmem_can_free_memory = on_heap
    [with_layout 128 8 ''failed to construct layout'' (\<lambda>l.
       [allocate l (\<lambda>ptr.
         [bail_if (ptr = 0) [] ''initial allocation failed'',
          deallocate ptr l,
          allocate l (\<lambda>ptr2.
            [bail_if (ptr2 = 0) [] ''allocation after free failed'',
             deallocate ptr2 l])])])]"

definition kmem_reuses_freed_memory :: kernel_test where
  "kmem_reuses_freed_memory = on_heap
    [with_layout 256 8 ''failed to construct layout'' (\<lambda>l.
       [allocate l (\<lambda>first.
         [bail_if (first = 0) [] ''initial allocation failed'',
          deallocate first l,
          allocate l (\<lambda>second.
            [bail_if (second = 0) [] ''allocation after free failed'',
             deallocate second l,
             fail_if (\<lambda>_. first \<noteq> second) ''allocator did not reuse recently freed memory''])])])]"

section \<open>Many blocks\<close>

definition new_arrays :: "nat \<Rightarrow> heap_frame stmt" where
  "new_arrays n = exec (\<lambda>s. Done (s\<lparr>allocations := replicate n 0, layouts := replicate n None\<rparr>))"

definition store_allocation :: "nat \<Rightarrow> nat \<Rightarrow> heap_frame stmt" where
  "store_allocation i ptr =
     exec (\<lambda>s. andthen (store (allocations s) i ptr) (\<lambda>ptrs. Done (s\<lparr>allocations := ptrs\<rparr>)))"

definition store_layout :: "nat \<Rightarrow> layout \<Rightarrow> heap_frame stmt" where
  "store_layout i l =
     exec (\<lambda>s. andthen (store (layouts s) i (Some l)) (\<lambda>ls. Done (s\<lparr>layouts := ls\<rparr>)))"

definition with_allocation :: "nat \<Rightarrow> (nat \<Rightarrow> heap_frame stmt list) \<Rightarrow> heap_frame stmt" where
  "with_allocation i body s = andthen (fetch (allocations s) i) (\<lambda>ptr. script (body ptr) s)"

definition with_stored_layout :: "nat \<Rightarrow> (layout \<Rightarrow> heap_frame stmt list) \<Rightarrow> heap_frame stmt" where
  "with_stored_layout i body s = andthen (fetch (layouts s) i) (\<lambda>l.
     case l of Some l' \<Rightarrow> script (body l') s
     | None \<Rightarrow> Panic (Explicit ''called Option::unwrap() on a None value''))"

definition for_allocations :: "(nat \<Rightarrow> heap_frame stmt list) \<Rightarrow> heap_frame stmt" where
  "for_allocations body s = loop (allocations s) body s"

definition kmem_handles_different_sizes :: kernel_test where
  "kmem_handles_different_sizes =
    (let sizes = [1, 2, 4, 8, 16, 32, 64, 128, 256, 512, 1024] in on_heap
      [new_arrays 11,
       loop [0 ..< length sizes] (\<lambda>i. [\<lambda>s. andthen (fetch sizes i) (\<lambda>sz.
         with_layout sz 8 ''failed to construct size layout'' (\<lambda>l.
           [allocate l (\<lambda>allocation.
             [bail_if (allocation = 0)
                [loop [0 ..< i] (\<lambda>j. [with_allocation j (\<lambda>ptr.
                   if ptr \<noteq> 0 then [with_stored_layout j (\<lambda>l'. [deallocate ptr l'])] else [])])]
                ''allocation failed for one of the requested sizes'',
              store_allocation i allocation,
              store_layout i l])]) s)]),
       loop [0 ..< length sizes] (\<lambda>i. [with_allocation i (\<lambda>ptr.
         [with_stored_layout i (\<lambda>l. [deallocate ptr l])])])])"

definition kmem_handles_many_allocations :: kernel_test where
  "kmem_handles_many_allocations = on_heap
    [with_layout 64 8 ''failed to construct layout'' (\<lambda>l.
       [new_arrays 128,
        loop [0 ..< 128] (\<lambda>i.
          [allocate l (\<lambda>allocation.
            [bail_if (allocation = 0)
               [for_allocations (\<lambda>ptr. [deallocate_non_null ptr l])]
               ''allocator failed during repeated allocation'',
             store_allocation i allocation])]),
        loop [0 ..< 128] (\<lambda>i. [loop [i + 1 ..< 128] (\<lambda>j.
          [with_allocation i (\<lambda>p. [with_allocation j (\<lambda>q.
             [bail_if (p = q) [for_allocations (\<lambda>ptr. [deallocate_non_null ptr l])]
                ''allocator returned duplicate addresses''])])])]),
        for_allocations (\<lambda>ptr. [deallocate ptr l])])]"

section \<open>Fragmentation, large blocks and alignments\<close>

definition kmem_handles_fragmentation :: kernel_test where
  "kmem_handles_fragmentation = on_heap
    [with_layout 128 8 ''failed to construct layout'' (\<lambda>l.
       [allocate l (\<lambda>a. [allocate l (\<lambda>b. [allocate l (\<lambda>c.
         [bail_if (a = 0 \<or> b = 0 \<or> c = 0)
            [deallocate_non_null a l, deallocate_non_null b l, deallocate_non_null c l]
            ''initial allocations failed'',
          deallocate b l,
          allocate l (\<lambda>d.
            [bail_if (d = 0) [deallocate a l, deallocate c l] ''allocator failed after fragmentation'',
             deallocate a l, deallocate c l, deallocate d l])])])])])]"

definition kmem_allocates_large_block :: kernel_test where
  "kmem_allocates_large_block = on_heap
    [with_layout (16 * 1024) 16 ''failed to construct large layout'' (\<lambda>l.
       [allocate l (\<lambda>ptr.
         [bail_if (ptr = 0) [] ''large allocation failed'',
          bail_if (ptr mod 16 \<noteq> 0) [deallocate ptr l] ''large allocation has invalid alignment'',
          deallocate ptr l])])]"

definition kmem_handles_high_alignment :: kernel_test where
  "kmem_handles_high_alignment = on_heap
    [with_layout 128 256 ''failed to construct high-alignment layout'' (\<lambda>l.
       [allocate l (\<lambda>ptr.
         [bail_if (ptr = 0) [] ''high-alignment allocation failed'',
          bail_if (ptr mod 256 \<noteq> 0) [deallocate ptr l] ''allocation is not 256-byte aligned'',
          deallocate ptr l])])]"

section \<open>The registered tests\<close>

definition heap_tests :: "test list" where
  "heap_tests =
    [registered ''kmem_allocates_small_block'' kmem_allocates_small_block,
     registered ''kmem_allocates_multiple_blocks'' kmem_allocates_multiple_blocks,
     registered ''kmem_respects_alignment'' kmem_respects_alignment,
     registered ''kmem_allocated_memory_is_writable'' kmem_allocated_memory_is_writable,
     registered ''kmem_can_free_memory'' kmem_can_free_memory,
     registered ''kmem_reuses_freed_memory'' kmem_reuses_freed_memory,
     registered ''kmem_handles_different_sizes'' kmem_handles_different_sizes,
     registered ''kmem_handles_many_allocations'' kmem_handles_many_allocations,
     registered ''kmem_handles_fragmentation'' kmem_handles_fragmentation,
     registered ''kmem_allocates_large_block'' kmem_allocates_large_block,
     registered ''kmem_handles_high_alignment'' kmem_handles_high_alignment]"

end
