(* ===== verification/Test_Heap_Props.thy ===== *)
theory Test_Heap_Props
  imports Test_Heap Buddy_Coalesce
begin

text \<open>
  The kernel's heap tests pass on every idle heap that any use of the kernel heap can leave behind
  (\<open>heap_roomy 0 h {}\<close>), and leave it idle. A script is followed on the set of live blocks and the
  number of requests that are sure to succeed.
\<close>

section \<open>Statements on live blocks\<close>

definition heap_runs ::
    "nat \<Rightarrow> block set \<Rightarrow> nat list \<Rightarrow> layout option list \<Rightarrow> heap_frame stmt list \<Rightarrow> bool" where
  "heap_runs n L xs ls cs \<longleftrightarrow> (\<forall>h. heap_roomy n h L \<longrightarrow>
     (\<exists>s'. script cs \<lparr>heap = h, allocations = xs, layouts = ls\<rparr> = Done (Pass, s') \<and> heap_roomy 0 (heap s') {}))"

lemma roomy_less: "heap_roomy n h L \<Longrightarrow> m \<le> n \<Longrightarrow> heap_roomy m h L"
  by (auto simp: heap_roomy_def intro: order_trans)

lemma heap_runs_Nil: "L = {} \<Longrightarrow> heap_runs n L xs ls []"
  by (auto simp: heap_runs_def intro: roomy_less)

text \<open>Once everything is given back there is room for 6400 requests again.\<close>

lemma heap_runs_idle: "heap_runs 6400 {} xs ls cs \<Longrightarrow> heap_runs n {} xs ls cs"
  using roomy_idle by (auto simp: heap_runs_def)

lemma heap_runs_weaken: "heap_runs m L xs ls cs \<Longrightarrow> m \<le> n \<Longrightarrow> heap_runs n L xs ls cs"
  using roomy_less by (auto simp: heap_runs_def)

lemma script_loop: "script (loop ys body # cs) s = script (concat (map body ys) @ cs) s"
  by (induction ys arbitrary: s)
    (auto simp: loop_def script_append andthen_assoc intro!: andthen_cong split: test_result.splits)

lemma heap_runs_loop: "heap_runs n L xs ls (concat (map body ys) @ cs) \<Longrightarrow> heap_runs n L xs ls (loop ys body # cs)"
  unfolding heap_runs_def script_loop .

lemma runs_layout:
  assumes "heap_runs n L xs ls (body \<lparr>lsize = sz, lalign = al\<rparr> @ cs)"
    and "from_size_align sz al = Some \<lparr>lsize = sz, lalign = al\<rparr>"
  shows "heap_runs n L xs ls (with_layout sz al reason body # cs)"
  using assms by (simp add: heap_runs_def with_layout_def script_append)

lemma roomy_block:
  assumes "heap_roomy n h L" and "(k, p) \<in> L"
  shows "2 ^ min k 18 dvd p" and "6 \<le> k"
proof -
  obtain F where F: "heap_state kernel_heap 18 h F L" using assms(1) by (auto simp: heap_roomy_def)
  show "2 ^ min k 18 dvd p" "6 \<le> k" using ownedD(4,6) [OF heap_stateD(6) [OF F], of "(k, p)"] assms(2) by simp_all
qed

lemma runs_allocate:
  assumes "\<And>p. p \<noteq> 0 \<Longrightarrow> (k, p) \<notin> L \<Longrightarrow> 2 ^ k dvd p \<Longrightarrow> heap_runs (n - 1) (insert (k, p) L) xs ls (body p @ cs)"
    and "buddy_order l = Some k" and "k \<le> 14" and "0 < n"
  shows "heap_runs n L xs ls (allocate l body # cs)"
  unfolding heap_runs_def
proof (intro allI impI)
  fix h assume "heap_roomy n h L"
  then have "heap_roomy (Suc (n - 1)) h L" using assms(4) by simp
  then obtain p h' where p: "buddy_alloc l h = Done (p, h')" "p \<noteq> 0" "(k, p) \<notin> L"
    "heap_roomy (n - 1) h' (insert (k, p) L)"
    by (rule roomy_alloc [OF _ assms(2,3)])
  have "2 ^ k dvd p" using roomy_block(1) [OF p(4), of k p] assms(3) by (simp add: min_def)
  from assms(1) [OF p(2,3) this] p(1,4)
  show "\<exists>s'. script (allocate l body # cs) \<lparr>heap = h, allocations = xs, layouts = ls\<rparr> = Done (Pass, s') \<and>
      heap_roomy 0 (heap s') {}"
    by (simp add: heap_runs_def allocate_def script_append)
qed

lemma runs_deallocate:
  assumes "heap_runs n (L - {(k, p)}) xs ls cs" and "(k, p) \<in> L" and "buddy_order l = Some k"
  shows "heap_runs n L xs ls (deallocate p l # cs)"
  unfolding heap_runs_def
proof (intro allI impI)
  fix h assume h: "heap_roomy n h L"
  have "insert (k, p) (L - {(k, p)}) = L" using assms(2) by auto
  then have "heap_roomy n h (insert (k, p) (L - {(k, p)}))" using h by simp
  then obtain h' where "buddy_dealloc p l h = Done h'" "heap_roomy n h' (L - {(k, p)})"
    by (rule roomy_dealloc [OF _ _ assms(3)]) simp_all
  then show "\<exists>s'. script (deallocate p l # cs) \<lparr>heap = h, allocations = xs, layouts = ls\<rparr> = Done (Pass, s') \<and>
      heap_roomy 0 (heap s') {}"
    using assms(1) by (simp add: heap_runs_def deallocate_def exec_def)
qed

lemma runs_bail: "heap_runs n L xs ls cs \<Longrightarrow> \<not> bad \<Longrightarrow> heap_runs n L xs ls (bail_if bad cleanup reason # cs)"
  by (simp add: heap_runs_def bail_if_def)

section \<open>The tests\<close>

definition heap_test_passes :: "kernel_test \<Rightarrow> bool" where
  "heap_test_passes t \<longleftrightarrow> (\<forall>k. heap_roomy 0 (k_heap k) {} \<longrightarrow>
     (\<exists>h'. t k = Done (Pass, k\<lparr>k_heap := h'\<rparr>) \<and> heap_roomy 0 h' {}))"

lemma on_heap_runs:
  assumes "heap_runs 6400 {} [] [] cs"
  shows "heap_test_passes (on_heap cs)"
  using heap_runs_idle [OF assms, of 0]
  by (fastforce simp: heap_test_passes_def on_heap_def heap_runs_def)

lemma layout_ok: "from_size_align sz (2 ^ j) = Some \<lparr>lsize = sz, lalign = 2 ^ j\<rparr>" if "sz \<le> 2 ^ 62" "j \<le> 62"
proof -
  have "(2::nat) ^ j \<le> 2 ^ 62" using that(2) by (intro power_increasing) simp_all
  then show ?thesis using that(1) by (auto simp: from_size_align_def power_of_two_iff)
qed

lemmas small_layouts =
  layout_ok [of _ 0, simplified] layout_ok [of _ 1, simplified] layout_ok [of _ 2, simplified]
  layout_ok [of _ 3, simplified] layout_ok [of _ 4, simplified] layout_ok [of _ 5, simplified]
  layout_ok [of _ 6, simplified] layout_ok [of _ 7, simplified] layout_ok [of _ 8, simplified]

lemma order_of: "buddy_order \<lparr>lsize = sz, lalign = al\<rparr> = order_for_size (max sz al)"
  by (simp add: buddy_order_def)

lemmas order_eval = order_of order_for_size_def order_for_size_loop_branches block_size_def

lemma kmem_allocates_small_block_passes: "heap_test_passes kmem_allocates_small_block"
  unfolding kmem_allocates_small_block_def
  by (rule on_heap_runs, rule runs_layout)
    ((rule runs_bail runs_allocate [where k = 6] runs_deallocate [where k = 6] heap_runs_Nil
        | simp only: append.simps)+, auto simp: order_eval small_layouts)

lemma kmem_allocates_multiple_blocks_passes: "heap_test_passes kmem_allocates_multiple_blocks"
  unfolding kmem_allocates_multiple_blocks_def
  by (rule on_heap_runs, rule runs_layout)
    ((rule runs_bail runs_allocate [where k = 6] runs_deallocate [where k = 6] heap_runs_Nil
        | simp only: append.simps)+, auto simp: order_eval small_layouts)

lemma kmem_can_free_memory_passes: "heap_test_passes kmem_can_free_memory"
  unfolding kmem_can_free_memory_def
  by (rule on_heap_runs, rule runs_layout)
    ((rule runs_bail runs_allocate [where k = 7] runs_deallocate [where k = 7] heap_runs_Nil
        | simp only: append.simps)+, auto simp: order_eval small_layouts)

lemma kmem_handles_fragmentation_passes: "heap_test_passes kmem_handles_fragmentation"
  unfolding kmem_handles_fragmentation_def
  by (rule on_heap_runs, rule runs_layout)
    ((rule runs_bail runs_allocate [where k = 7] runs_deallocate [where k = 7] heap_runs_Nil
        | simp only: append.simps)+, auto simp: order_eval small_layouts)

text \<open>One block of every size and alignment.\<close>

lemma runs_aligned_block:
  assumes "heap_runs 6400 {} xs ls cs" and "from_size_align sz al = Some \<lparr>lsize = sz, lalign = al\<rparr>"
    and "order_for_size (max sz al) = Some k" and "k \<le> 14" and "al dvd 2 ^ k" and "0 < n"
  shows "heap_runs n {} xs ls (with_layout sz al r1 (\<lambda>l. [allocate l (\<lambda>ptr.
      [bail_if (ptr = 0) [] r2, bail_if (ptr mod al \<noteq> 0) [deallocate ptr l] r3, deallocate ptr l])]) # cs)"
  by (rule runs_layout)
    ((rule runs_bail runs_allocate [where k = k] runs_deallocate [where k = k]
        | simp only: append.simps)+,
      use assms heap_runs_idle in \<open>auto simp: order_of dvd_eq_mod_eq_0 [symmetric] intro: dvd_trans\<close>)

lemma kmem_respects_alignment_passes: "heap_test_passes kmem_respects_alignment"
  unfolding kmem_respects_alignment_def
  by (rule on_heap_runs, rule heap_runs_loop, simp only: list.map concat.simps append.simps prod.case)
    (rule runs_aligned_block [where k = 6], rule runs_aligned_block [where k = 6],
      rule runs_aligned_block [where k = 6], rule runs_aligned_block [where k = 6],
      rule runs_aligned_block [where k = 6], rule runs_aligned_block [where k = 6],
      rule runs_aligned_block [where k = 7], rule runs_aligned_block [where k = 8], rule heap_runs_Nil,
      simp_all add: order_eval small_layouts)

lemma kmem_allocates_large_block_passes: "heap_test_passes kmem_allocates_large_block"
  unfolding kmem_allocates_large_block_def
  by (rule on_heap_runs, rule runs_aligned_block [where k = 14], rule heap_runs_Nil)
    (simp_all add: order_eval small_layouts)

lemma kmem_handles_high_alignment_passes: "heap_test_passes kmem_handles_high_alignment"
  unfolding kmem_handles_high_alignment_def
  by (rule on_heap_runs, rule runs_aligned_block [where k = 8], rule heap_runs_Nil)
    (simp_all add: order_eval small_layouts)

section \<open>Bytes in a live block\<close>

lemma put_byte_mod: "v < 256 \<Longrightarrow> put_byte i v x mod 256 = (if i = 0 then v else x mod 256)"
proof (cases i)
  case (Suc j)
  have "put_byte i v x mod 256 = (x mod 256 ^ Suc j) mod 256"
    unfolding put_byte_def Suc by (simp add: mod_add_eq [symmetric] mult.assoc [symmetric] del: mod_add_eq)
  then show ?thesis using Suc by (simp add: mod_mod_cancel)
qed (simp add: put_byte_def)

lemma read_write_byte: "v < 256 \<Longrightarrow> read_byte a (write_byte b v h) = (if a = b then v else read_byte a h)"
  by (auto simp: read_byte_def write_byte_def put_byte_mod)

text \<open>The words at multiples of 64 outside the live blocks hold the free lists.\<close>

lemma roomy_memory:
  assumes "heap_roomy n h L" and "\<And>a. 64 dvd a \<Longrightarrow> (\<forall>b \<in> L. a \<notin> bytes_of b) \<Longrightarrow> m a = node_next h a"
  shows "heap_roomy n (h\<lparr>node_next := m\<rparr>) L"
proof -
  obtain F where F: "heap_state kernel_heap 18 h F L" "heap_start h = HEAP_START" "max_order h = 26"
    "reduced HEAP_START 25 F" "n \<le> capacity 14 26 F" using assms(1) by (auto simp: heap_roomy_def)
  note hs = heap_stateD [OF F(1)]
  have "m a = node_next h a" if a: "a \<in> set (F k)" for a k
  proof (rule assms(2))
    have "2 ^ min k 18 dvd a" "6 \<le> k" using ownedD(4,6) [OF hs(6), of "(k, a)"] a by simp_all
    moreover have "(2::nat) ^ 6 dvd 2 ^ min k 18" by (rule le_imp_power_dvd) (use \<open>6 \<le> k\<close> in simp)
    ultimately show "64 dvd a" by (auto intro: dvd_trans)
    show "\<forall>b \<in> L. a \<notin> bytes_of b"
    proof
      fix b assume "b \<in> L"
      then show "a \<notin> bytes_of b" using owned_inside [OF hs(6), of "fst b" "snd b" a k] a by auto
    qed
  qed
  then have "repr (h\<lparr>node_next := m\<rparr>) F"
    using hs(5) chain_cong [of _ m "node_next h"] by (auto simp: repr_def)
  then have "heap_state kernel_heap 18 (h\<lparr>node_next := m\<rparr>) F L"
    by (intro heap_stateI [OF hs(1) _ hs(2,3,4) _ hs(6)]) (simp_all add: same_heap_def)
  then show ?thesis using F(2-5) by (auto simp: heap_roomy_def)
qed

lemma roomy_write_byte:
  assumes "heap_roomy n h L" and "(k, p) \<in> L" and "i < 2 ^ k"
  shows "heap_roomy n (write_byte (p + i) v h) L"
  unfolding write_byte_def
proof (rule roomy_memory [OF assms(1)])
  fix a assume a: "64 dvd a" "\<forall>b \<in> L. a \<notin> bytes_of b"
  have "(2::nat) ^ 6 dvd 2 ^ min k 18" by (rule le_imp_power_dvd) (use roomy_block(2) [OF assms(1,2)] in simp)
  then have p: "64 dvd p" using roomy_block(1) [OF assms(1,2)] by (auto intro: dvd_trans)
  have "\<not> (a \<le> p + i \<and> p + i < a + 8)"
  proof
    assume i: "a \<le> p + i \<and> p + i < a + 8"
    moreover have "a \<notin> bytes_of (k, p)" using a(2) assms(2) by blast
    ultimately have "a < p" using assms(3) by auto
    moreover from this have "a + 64 \<le> p" using a(1) p by (auto simp: dvd_def)
    ultimately show False using i by simp
  qed
  then show "(if a \<le> p + i \<and> p + i < a + 8 then put_byte (p + i - a) v (node_next h a) else node_next h a) = node_next h a"
    by (rule if_not_P)
qed

definition written :: "nat \<Rightarrow> nat \<Rightarrow> buddy \<Rightarrow> buddy" where
  "written p n = fold (\<lambda>i. write_byte (p + i) (i mod 256)) [0 ..< n]"

lemma read_written: "i < n \<Longrightarrow> read_byte (p + i) (written p n h) = i mod 256"
  by (induction n) (auto simp: written_def read_write_byte less_Suc_eq)

lemma roomy_written: "heap_roomy n h L \<Longrightarrow> (k, p) \<in> L \<Longrightarrow> m \<le> 2 ^ k \<Longrightarrow> heap_roomy n (written p m h) L"
  by (induction m) (auto simp: written_def intro: roomy_write_byte)

lemma write_loop:
  "loop js (\<lambda>i. [exec (\<lambda>s. Done (s\<lparr>heap := write_byte (p + i) (i mod 256) (heap s)\<rparr>))]) s =
     Done (Pass, s\<lparr>heap := fold (\<lambda>i. write_byte (p + i) (i mod 256)) js (heap s)\<rparr>)"
  by (induction js arbitrary: s) (simp_all add: loop_def exec_def)

lemma loop_checks:
  assumes "\<And>y. y \<in> set ys \<Longrightarrow> script (body y) s = Done (Pass, s)"
  shows "loop ys body s = Done (Pass, s)"
  using assms by (induction ys) (simp_all add: loop_def)

lemma runs_bytes:
  assumes "heap_runs n L xs ls cs" and "(k, p) \<in> L" and "m \<le> 2 ^ k"
  shows "heap_runs n L xs ls
    (loop [0 ..< m] (\<lambda>i. [exec (\<lambda>s. Done (s\<lparr>heap := write_byte (p + i) (i mod 256) (heap s)\<rparr>))]) #
     loop [0 ..< m] (\<lambda>i. [\<lambda>s. bail_if (read_byte (p + i) (heap s) \<noteq> i mod 256) cleanup reason s]) # cs)"
  unfolding heap_runs_def
proof (intro allI impI)
  fix h assume "heap_roomy n h L"
  then have "heap_roomy n (written p m h) L" using assms(2,3) by (rule roomy_written)
  moreover have "loop [0 ..< m] (\<lambda>i. [\<lambda>s. bail_if (read_byte (p + i) (heap s) \<noteq> i mod 256) cleanup reason s]) s = Done (Pass, s)"
    if "heap s = written p m h" for s
    by (rule loop_checks) (simp add: bail_if_def that read_written)
  ultimately show "\<exists>s'. script
     (loop [0 ..< m] (\<lambda>i. [exec (\<lambda>s. Done (s\<lparr>heap := write_byte (p + i) (i mod 256) (heap s)\<rparr>))]) #
      loop [0 ..< m] (\<lambda>i. [\<lambda>s. bail_if (read_byte (p + i) (heap s) \<noteq> i mod 256) cleanup reason s]) # cs)
     \<lparr>heap = h, allocations = xs, layouts = ls\<rparr> = Done (Pass, s') \<and> heap_roomy 0 (heap s') {}"
    using assms(1) by (simp add: write_loop written_def [symmetric] heap_runs_def)
qed

lemma kmem_allocated_memory_is_writable_passes: "heap_test_passes kmem_allocated_memory_is_writable"
  unfolding kmem_allocated_memory_is_writable_def
  by (rule on_heap_runs, rule runs_layout)
    ((rule runs_bail runs_allocate [where k = 12] runs_deallocate [where k = 12] heap_runs_Nil
        runs_bytes [where k = 12] | simp only: append.simps)+, auto simp: order_eval small_layouts)

section \<open>Reuse\<close>

lemma kmem_reuses_freed_memory_passes: "heap_test_passes kmem_reuses_freed_memory"
  unfolding heap_test_passes_def
proof (intro allI impI)
  fix k :: kernel
  let ?l = "\<lparr>lsize = 256, lalign = 8\<rparr>"
  assume k: "heap_roomy 0 (k_heap k) {}"
  have o: "buddy_order ?l = Some 8" by (simp add: order_eval)
  obtain p h1 h2 h3 where h: "buddy_alloc ?l (k_heap k) = Done (p, h1)" "p \<noteq> 0"
    "buddy_dealloc p ?l h1 = Done h2" "buddy_alloc ?l h2 = Done (p, h3)"
    by (rule roomy_reuse [OF k o]) simp_all
  have "heap_roomy 0 h1 {(8, p)}" using merged_alloc [OF k h(1) o] h(2) by simp
  then obtain h2' where "buddy_dealloc p ?l h1 = Done h2'" "heap_roomy 0 h2' {}"
    by (rule roomy_dealloc [OF _ _ o]) simp
  then have "heap_roomy 0 h2 {}" using h(3) by simp
  then have "heap_roomy 0 h3 {(8, p)}" using merged_alloc [OF _ h(4) o] h(2) by simp
  then obtain h4 where h4: "buddy_dealloc p ?l h3 = Done h4" "heap_roomy 0 h4 {}"
    by (rule roomy_dealloc [OF _ _ o]) simp
  have "kmem_reuses_freed_memory k = Done (Pass, k\<lparr>k_heap := h4\<rparr>)"
    using h h4(1) small_layouts by (simp add: kmem_reuses_freed_memory_def on_heap_def with_layout_def
        allocate_def deallocate_def bail_if_def exec_def fail_if_def)
  then show "\<exists>h'. kmem_reuses_freed_memory k = Done (Pass, k\<lparr>k_heap := h'\<rparr>) \<and> heap_roomy 0 h' {}"
    using h4(2) by blast
qed

section \<open>Arrays of blocks\<close>

lemma runs_new_arrays:
  "heap_runs n L (replicate m 0) (replicate m None) cs \<Longrightarrow> heap_runs n L xs ls (new_arrays m # cs)"
  by (simp add: heap_runs_def new_arrays_def exec_def)

lemma runs_store_allocation:
  "heap_runs n L (xs[i := p]) ls cs \<Longrightarrow> i < length xs \<Longrightarrow> heap_runs n L xs ls (store_allocation i p # cs)"
  by (simp add: heap_runs_def store_allocation_def exec_def store_def)

lemma runs_store_layout:
  "heap_runs n L xs (ls[i := Some l]) cs \<Longrightarrow> i < length ls \<Longrightarrow> heap_runs n L xs ls (store_layout i l # cs)"
  by (simp add: heap_runs_def store_layout_def exec_def store_def)

lemma runs_with_allocation:
  "heap_runs n L xs ls (body (xs ! i) @ cs) \<Longrightarrow> i < length xs \<Longrightarrow> heap_runs n L xs ls (with_allocation i body # cs)"
  by (simp add: heap_runs_def with_allocation_def fetch_def script_append)

lemma runs_with_stored_layout:
  "heap_runs n L xs ls (body l @ cs) \<Longrightarrow> i < length ls \<Longrightarrow> ls ! i = Some l \<Longrightarrow>
     heap_runs n L xs ls (with_stored_layout i body # cs)"
  by (simp add: heap_runs_def with_stored_layout_def fetch_def script_append)

lemma runs_for_allocations:
  "heap_runs n L xs ls (concat (map body xs) @ cs) \<Longrightarrow> heap_runs n L xs ls (for_allocations body # cs)"
  unfolding heap_runs_def for_allocations_def script.simps(2) heap_frame.select_convs
  by (fold script.simps(2)) (simp only: script_loop)

lemma heap_runs_check:
  assumes "heap_runs n L xs ls cs" and "\<And>h. c \<lparr>heap = h, allocations = xs, layouts = ls\<rparr> =
    Done (Pass, \<lparr>heap = h, allocations = xs, layouts = ls\<rparr>)"
  shows "heap_runs n L xs ls (c # cs)"
  using assms by (simp add: heap_runs_def)

text \<open>\<open>m\<close> blocks into the array, all different.\<close>

lemma runs_fill:
  assumes "buddy_order l = Some k" and "k \<le> 14"
    and "\<And>ps. length ps = m \<Longrightarrow> distinct ps \<Longrightarrow> heap_runs n (Pair k ` set ps) ps ls cs"
    and "j \<le> m" and "length qs = j" and "distinct qs"
  shows "heap_runs (n + (m - j)) (Pair k ` set qs) (qs @ replicate (m - j) 0) ls
    (concat (map (\<lambda>i. [allocate l (\<lambda>p. [bail_if (p = 0) cleanup reason, store_allocation i p])]) [j ..< m]) @ cs)"
  using assms(4-6)
proof (induction "m - j" arbitrary: j qs)
  case 0
  then show ?case using assms(3) [of qs] by simp
next
  case (Suc d)
  then have d: "m - j = Suc d" "m - Suc j = d" "j < m" by simp_all
  have rest: "heap_runs (n + d) (insert (k, p) (Pair k ` set qs)) ((qs @ replicate (Suc d) 0)[j := p]) ls
      (concat (map (\<lambda>i. [allocate l (\<lambda>p. [bail_if (p = 0) cleanup reason, store_allocation i p])]) [Suc j ..< m]) @ cs)"
    if "(k, p) \<notin> Pair k ` set qs" for p
  proof -
    have "p \<notin> set qs" using that by auto
    then have "heap_runs (n + (m - Suc j)) (Pair k ` set (qs @ [p])) ((qs @ [p]) @ replicate (m - Suc j) 0) ls
      (concat (map (\<lambda>i. [allocate l (\<lambda>p. [bail_if (p = 0) cleanup reason, store_allocation i p])]) [Suc j ..< m]) @ cs)"
      using Suc.prems d by (intro Suc.hyps(1)) auto
    then show ?thesis using Suc.prems(2) d by (simp add: list_update_append)
  qed
  show ?case
    unfolding upt_conv_Cons [OF d(3)] list.map concat.simps append.simps d(1)
  proof (rule runs_allocate [where k = k])
    fix p assume p: "p \<noteq> 0" "(k, p) \<notin> Pair k ` set qs"
    show "heap_runs (n + Suc d - 1) (insert (k, p) (Pair k ` set qs)) (qs @ replicate (Suc d) 0) ls
       ([bail_if (p = 0) cleanup reason, store_allocation j p] @
        concat (map (\<lambda>i. [allocate l (\<lambda>p. [bail_if (p = 0) cleanup reason, store_allocation i p])]) [Suc j ..< m]) @ cs)"
      using rest [OF p(2)] p(1) Suc.prems(2) d by (auto intro!: runs_bail runs_store_allocation)
  qed (use assms(1,2) in simp_all)
qed

lemma runs_release_all:
  assumes "buddy_order l = Some k" and "heap_runs n {} xs ls cs" and "distinct ps"
  shows "heap_runs n (Pair k ` set ps) xs ls (concat (map (\<lambda>p. [deallocate p l]) ps) @ cs)"
  using assms(3)
proof (induction ps)
  case (Cons p ps)
  then have "Pair k ` set (p # ps) - {(k, p)} = Pair k ` set ps" by auto
  then show ?case using Cons by (auto intro!: runs_deallocate [where k = k] simp: assms(1))
qed (simp add: assms(2))

lemma kmem_handles_many_allocations_passes: "heap_test_passes kmem_handles_many_allocations"
  unfolding kmem_handles_many_allocations_def
proof (rule on_heap_runs, rule runs_layout)
  let ?l = "\<lparr>lsize = 64, lalign = 8\<rparr>"
  let ?unique = "loop [0 ..< 128] (\<lambda>i. [loop [i + 1 ..< 128] (\<lambda>j.
    [with_allocation i (\<lambda>p. [with_allocation j (\<lambda>q.
       [bail_if (p = q) [for_allocations (\<lambda>ptr. [deallocate_non_null ptr ?l])]
          ''allocator returned duplicate addresses''])])])])"
  have o: "buddy_order ?l = Some 6" by (simp add: order_eval)
  have unique: "heap_runs n (Pair 6 ` set ps) ps ls [?unique, for_allocations (\<lambda>ptr. [deallocate ptr ?l])]"
    if ps: "length ps = 128" "distinct ps" for n ps ls
  proof (rule heap_runs_check)
    show "?unique \<lparr>heap = h, allocations = ps, layouts = ls\<rparr> = Done (Pass, \<lparr>heap = h, allocations = ps, layouts = ls\<rparr>)" for h
    proof (rule loop_checks)
      fix i :: nat assume i: "i \<in> set [0 ..< 128]"
      have "loop [i + 1 ..< 128] (\<lambda>j. [with_allocation i (\<lambda>p. [with_allocation j (\<lambda>q.
           [bail_if (p = q) [for_allocations (\<lambda>ptr. [deallocate_non_null ptr ?l])]
              ''allocator returned duplicate addresses''])])]) \<lparr>heap = h, allocations = ps, layouts = ls\<rparr> =
         Done (Pass, \<lparr>heap = h, allocations = ps, layouts = ls\<rparr>)"
      proof (rule loop_checks)
        fix j assume j: "j \<in> set [i + 1 ..< 128]"
        then have ij: "i < j" "j < 128" by simp_all
        then have "ps ! i \<noteq> ps ! j" using ps by (simp add: nth_eq_iff_index_eq)
        then show "script [with_allocation i (\<lambda>p. [with_allocation j (\<lambda>q.
           [bail_if (p = q) [for_allocations (\<lambda>ptr. [deallocate_non_null ptr ?l])]
              ''allocator returned duplicate addresses''])])] \<lparr>heap = h, allocations = ps, layouts = ls\<rparr> =
           Done (Pass, \<lparr>heap = h, allocations = ps, layouts = ls\<rparr>)"
          using ij ps(1) by (simp add: with_allocation_def fetch_def bail_if_def)
      qed
      then show "script [loop [i + 1 ..< 128] (\<lambda>j. [with_allocation i (\<lambda>p. [with_allocation j (\<lambda>q.
           [bail_if (p = q) [for_allocations (\<lambda>ptr. [deallocate_non_null ptr ?l])]
              ''allocator returned duplicate addresses''])])])] \<lparr>heap = h, allocations = ps, layouts = ls\<rparr> =
         Done (Pass, \<lparr>heap = h, allocations = ps, layouts = ls\<rparr>)"
        by simp
    qed
    show "heap_runs n (Pair 6 ` set ps) ps ls [for_allocations (\<lambda>ptr. [deallocate ptr ?l])]"
      by (rule runs_for_allocations, rule runs_release_all [OF o heap_runs_Nil ps(2)]) simp
  qed
  have "heap_runs (6272 + (128 - 0)) (Pair 6 ` set []) ([] @ replicate (128 - 0) 0) (replicate 128 None)
    (concat (map (\<lambda>i. [allocate ?l (\<lambda>p. [bail_if (p = 0) [for_allocations (\<lambda>ptr. [deallocate_non_null ptr ?l])]
        ''allocator failed during repeated allocation'', store_allocation i p])]) [0 ..< 128]) @
     [?unique, for_allocations (\<lambda>ptr. [deallocate ptr ?l])])"
    by (rule runs_fill [OF o]) (use unique in simp_all)
  then show "heap_runs 6400 {} [] [] ([new_arrays 128,
        loop [0 ..< 128] (\<lambda>i. [allocate ?l (\<lambda>p. [bail_if (p = 0) [for_allocations (\<lambda>ptr. [deallocate_non_null ptr ?l])]
          ''allocator failed during repeated allocation'', store_allocation i p])]),
        ?unique, for_allocations (\<lambda>ptr. [deallocate ptr ?l])] @ [])"
    unfolding append_Nil2 by (intro runs_new_arrays heap_runs_loop) (simp del: upt_rec_numeral)
qed (simp add: small_layouts)

lemma runs_fetch:
  "heap_runs n L xs ls (c (ys ! i) # cs) \<Longrightarrow> i < length ys \<Longrightarrow>
     heap_runs n L xs ls ((\<lambda>s. andthen (fetch ys i) (\<lambda>y. c y s)) # cs)"
  by (simp add: heap_runs_def fetch_def)

text \<open>One iteration of each loop of the test of all sizes, for a block of order \<open>k\<close>.\<close>

lemma runs_sized_block:
  assumes "\<And>p. (k, p) \<notin> L \<Longrightarrow> heap_runs (n - 1) (insert (k, p) L) (xs[i := p])
      (ls[i := Some \<lparr>lsize = sz, lalign = 8\<rparr>]) cs"
    and "from_size_align sz 8 = Some \<lparr>lsize = sz, lalign = 8\<rparr>" and "order_for_size (max sz 8) = Some k"
    and "k \<le> 14" and "0 < n" and "i < length xs" and "i < length ls"
  shows "heap_runs n L xs ls (with_layout sz 8 r1 (\<lambda>l. [allocate l (\<lambda>p.
      [bail_if (p = 0) (cleanup p l) r2, store_allocation i p, store_layout i l])]) # cs)"
  by (rule runs_layout)
    ((rule runs_bail runs_allocate [where k = k] runs_store_allocation runs_store_layout
        | simp only: append.simps)+, use assms in \<open>auto simp: order_of\<close>)

lemma runs_release_entry:
  assumes "heap_runs n (L - {(k, xs ! i)}) xs ls cs" and "i < length xs" and "i < length ls"
    and "ls ! i = Some l" and "buddy_order l = Some k" and "(k, xs ! i) \<in> L"
  shows "heap_runs n L xs ls (with_allocation i (\<lambda>p. [with_stored_layout i (\<lambda>l. [deallocate p l])]) # cs)"
  by ((rule runs_with_allocation runs_with_stored_layout runs_deallocate [where k = k]
        | simp only: append.simps)+, use assms in auto)

text \<open>The blocks \<open>bs\<close>, with their orders, that belong to the sizes.\<close>

abbreviation sized_layout :: "nat \<Rightarrow> layout" where
  "sized_layout sz \<equiv> \<lparr>lsize = sz, lalign = 8\<rparr>"

definition sized_blocks :: "nat list \<Rightarrow> block list \<Rightarrow> bool" where
  "sized_blocks sizes bs \<longleftrightarrow> distinct bs \<and>
     list_all2 (\<lambda>sz b. order_for_size (max sz 8) = Some (fst b)) sizes bs"

lemma sized_blocks_length: "sized_blocks sizes bs \<Longrightarrow> length bs = length sizes"
  by (auto simp: sized_blocks_def dest: list_all2_lengthD)

lemma runs_fill_sizes:
  assumes sizes: "\<And>sz. sz \<in> set sizes \<Longrightarrow> from_size_align sz 8 = Some (sized_layout sz) \<and>
      (\<exists>k \<le> 14. order_for_size (max sz 8) = Some k)"
    and rest: "\<And>bs. sized_blocks sizes bs \<Longrightarrow>
      heap_runs n (set bs) (map snd bs) (map (\<lambda>sz. Some (sized_layout sz)) sizes) cs"
    and "sized_blocks (take j sizes) bs" and "j \<le> length sizes"
  shows "heap_runs (n + (length sizes - j)) (set bs) (map snd bs @ replicate (length sizes - j) 0)
    (map (\<lambda>sz. Some (sized_layout sz)) (take j sizes) @ replicate (length sizes - j) None)
    (concat (map (\<lambda>i. [\<lambda>s. andthen (fetch sizes i) (\<lambda>sz. with_layout sz 8 r1 (\<lambda>l. [allocate l (\<lambda>p.
        [bail_if (p = 0) (cleanup i) r2, store_allocation i p, store_layout i l])]) s)]) [j ..< length sizes]) @ cs)"
  using assms(3,4)
proof (induction "length sizes - j" arbitrary: j bs)
  case 0
  then show ?case using rest [of bs] by simp
next
  case (Suc d)
  let ?m = "length sizes" and ?sz = "sizes ! j"
  have d: "?m - j = Suc d" "?m - Suc j = d" "j < ?m" using Suc.hyps(2) by simp_all
  have bs: "length bs = j" using sized_blocks_length [OF Suc.prems(1)] d by simp
  have "?sz \<in> set sizes" using d(3) by simp
  from sizes [OF this] obtain k where k: "from_size_align ?sz 8 = Some (sized_layout ?sz)" "k \<le> 14"
    "order_for_size (max ?sz 8) = Some k" by blast
  show ?case
    unfolding upt_conv_Cons [OF d(3)] list.map concat.simps append.simps d(1)
  proof (rule runs_fetch [OF runs_sized_block [where k = k] d(3)])
    fix p assume p: "(k, p) \<notin> set bs"
    have "sized_blocks (take (Suc j) sizes) (bs @ [(k, p)])"
      using Suc.prems(1) p k(3) d(3) by (auto simp: sized_blocks_def take_Suc_conv_app_nth intro: list_all2_appendI)
    note ih = Suc.hyps(1) [OF _ this]
    have lists: "(map snd bs @ replicate (Suc d) 0)[j := p] = map snd (bs @ [(k, p)]) @ replicate (?m - Suc j) 0"
      "(map (\<lambda>sz. Some (sized_layout sz)) (take j sizes) @ replicate (Suc d) None)[j := Some (sized_layout ?sz)] =
       map (\<lambda>sz. Some (sized_layout sz)) (take (Suc j) sizes) @ replicate (?m - Suc j) None"
      using bs d by (simp_all add: list_update_append take_Suc_conv_app_nth)
    have set: "insert (k, p) (set bs) = set (bs @ [(k, p)])" by simp
    show "heap_runs (n + Suc d - 1) (insert (k, p) (set bs)) ((map snd bs @ replicate (Suc d) 0)[j := p])
       ((map (\<lambda>sz. Some (sized_layout sz)) (take j sizes) @ replicate (Suc d) None)[j := Some (sized_layout ?sz)])
       (concat (map (\<lambda>i. [\<lambda>s. andthen (fetch sizes i) (\<lambda>sz. with_layout sz 8 r1 (\<lambda>l. [allocate l (\<lambda>p.
          [bail_if (p = 0) (cleanup i) r2, store_allocation i p, store_layout i l])]) s)]) [Suc j ..< ?m]) @ cs)"
      unfolding lists set using ih d by simp
  qed (use k bs d in simp_all)
qed

lemma runs_release_sizes:
  assumes "sized_blocks sizes bs" and "heap_runs n {} (map snd bs) (map (\<lambda>sz. Some (sized_layout sz)) sizes) cs"
    and "j \<le> length sizes"
  shows "heap_runs n (set (drop j bs)) (map snd bs) (map (\<lambda>sz. Some (sized_layout sz)) sizes)
    (concat (map (\<lambda>i. [with_allocation i (\<lambda>p. [with_stored_layout i (\<lambda>l. [deallocate p l])])]) [j ..< length sizes]) @ cs)"
  using assms(3)
proof (induction "length sizes - j" arbitrary: j)
  case 0
  then show ?case using assms(2) sized_blocks_length [OF assms(1)] by simp
next
  case (Suc d)
  then have d: "j < length sizes" "length sizes - Suc j = d" by simp_all
  note len = sized_blocks_length [OF assms(1)]
  have j: "drop j bs = bs ! j # drop (Suc j) bs" using d len by (simp add: Cons_nth_drop_Suc)
  have "distinct (drop j bs)" using assms(1) by (simp add: sized_blocks_def)
  then have "set (drop j bs) - {bs ! j} = set (drop (Suc j) bs)" unfolding j by auto
  then have shrink: "set (drop j bs) - {(fst (bs ! j), map snd bs ! j)} = set (drop (Suc j) bs)"
    using d len by simp
  have order: "order_for_size (max (sizes ! j) 8) = Some (fst (bs ! j))"
    using assms(1) d by (auto simp: sized_blocks_def list_all2_conv_all_nth)
  show ?case
    unfolding upt_conv_Cons [OF d(1)] list.map concat.simps append.simps
    by (rule runs_release_entry [where k = "fst (bs ! j)" and l = "sized_layout (sizes ! j)"], unfold shrink)
      (use Suc.hyps d len order in \<open>simp_all add: order_of j\<close>)
qed

lemma kmem_handles_different_sizes_passes: "heap_test_passes kmem_handles_different_sizes"
  unfolding kmem_handles_different_sizes_def Let_def
proof (rule on_heap_runs, rule runs_new_arrays, rule heap_runs_loop)
  let ?sizes = "[1, 2, 4, 8, 16, 32, 64, 128, 256, 512, 1024 :: nat]"
  let ?fill = "\<lambda>i. [\<lambda>s. andthen (fetch ?sizes i) (\<lambda>sz. with_layout sz 8 ''failed to construct size layout'' (\<lambda>l.
      [allocate l (\<lambda>p. [bail_if (p = 0)
         [loop [0 ..< i] (\<lambda>j. [with_allocation j (\<lambda>ptr.
            if ptr \<noteq> 0 then [with_stored_layout j (\<lambda>l'. [deallocate ptr l'])] else [])])]
         ''allocation failed for one of the requested sizes'', store_allocation i p, store_layout i l])]) s)]"
  let ?free = "loop [0 ..< length ?sizes] (\<lambda>i. [with_allocation i (\<lambda>ptr. [with_stored_layout i (\<lambda>l. [deallocate ptr l])])])"
  have n: "length ?sizes - 0 = 11" "6389 + 11 = (6400 :: nat)" by simp_all
  have "heap_runs (6389 + (length ?sizes - 0)) (set []) (map snd ([] :: block list) @ replicate (length ?sizes - 0) 0)
    (map (\<lambda>sz. Some (sized_layout sz)) (take 0 ?sizes) @ replicate (length ?sizes - 0) None)
    (concat (map ?fill [0 ..< length ?sizes]) @ [?free])"
  proof (rule runs_fill_sizes)
    fix bs assume bs: "sized_blocks ?sizes bs"
    from runs_release_sizes [OF bs heap_runs_Nil [OF refl] le0, of 6389]
    show "heap_runs 6389 (set bs) (map snd bs) (map (\<lambda>sz. Some (sized_layout sz)) ?sizes) [?free]"
      by (intro heap_runs_loop) (simp only: drop_0)
  qed (auto simp: sized_blocks_def small_layouts order_eval)
  then show "heap_runs 6400 {} (replicate 11 0) (replicate 11 None) (concat (map ?fill [0 ..< length ?sizes]) @ [?free])"
    unfolding n by (simp only: list.map(1) list.set(1) append_Nil take_0)
qed

lemmas heap_test_lemmas =
  kmem_allocates_small_block_passes kmem_allocates_multiple_blocks_passes kmem_respects_alignment_passes
  kmem_allocated_memory_is_writable_passes kmem_can_free_memory_passes kmem_reuses_freed_memory_passes
  kmem_handles_different_sizes_passes kmem_handles_many_allocations_passes kmem_handles_fragmentation_passes
  kmem_allocates_large_block_passes kmem_handles_high_alignment_passes

lemma all_heap_tests_pass: "\<forall>t \<in> set heap_tests. heap_test_passes (test_function t)"
  by (simp add: heap_tests_def registered_def heap_test_lemmas)

end
