(* ===== verification/Test_Shell.thy ===== *)
theory Test_Shell
  imports Test_Console
begin

text \<open>
  The shell's colour tests, at the end of \<open>src/shell.rs\<close>, and the three small test files
  \<open>src/unit_tests.rs\<close>, \<open>tests/trivial_assert.rs\<close> and \<open>tests/interrupts.rs\<close>. A call into the kernel
  that never returns makes the test hang.
\<close>

definition after_call :: "run \<Rightarrow> (kernel \<Rightarrow> 'a outcome) \<Rightarrow> 'a outcome" where
  "after_call m f = andthen m (\<lambda>e. case e of Returns k \<Rightarrow> f k | Diverges _ \<Rightarrow> Hang)"

definition get_background :: "console \<Rightarrow> color" where
  "get_background con = background con"

definition get_foreground :: "console \<Rightarrow> color" where
  "get_foreground con = foreground con"

definition test_set_color ::
    "string \<Rightarrow> color \<Rightarrow> (string list \<Rightarrow> kernel \<Rightarrow> run) \<Rightarrow> (console \<Rightarrow> color) \<Rightarrow> string \<Rightarrow> kernel_test" where
  "test_set_color color_name expected set_color get_color error_message k =
     after_call (set_color (split_whitespace color_name) k) (\<lambda>k1.
       case ui_console (k_ui k1) of
         None \<Rightarrow> Panic (Explicit ''console used before console::init()'')
       | Some con \<Rightarrow> Done (if get_color con = expected then Pass else Fail error_message, k1))"

definition test_setbg_red :: kernel_test where
  "test_setbg_red = test_set_color ''red'' RED setbg get_background ''set red failed''"

definition test_setbg_black :: kernel_test where
  "test_setbg_black = test_set_color ''black'' BLACK setbg get_background ''set black failed''"

definition test_setbg_green :: kernel_test where
  "test_setbg_green = test_set_color ''green'' GREEN setbg get_background ''set green failed''"

definition test_setbg_blue :: kernel_test where
  "test_setbg_blue = test_set_color ''blue'' BLUE setbg get_background ''set blue failed''"

definition test_setbg_white :: kernel_test where
  "test_setbg_white = test_set_color ''white'' WHITE setbg get_background ''set white failed''"

definition test_setfg_red :: kernel_test where
  "test_setfg_red = test_set_color ''red'' RED setfg get_foreground ''set red failed''"

definition test_setfg_black :: kernel_test where
  "test_setfg_black = test_set_color ''black'' BLACK setfg get_foreground ''set black failed''"

definition test_setfg_green :: kernel_test where
  "test_setfg_green = test_set_color ''green'' GREEN setfg get_foreground ''set green failed''"

definition test_setfg_blue :: kernel_test where
  "test_setfg_blue = test_set_color ''blue'' BLUE setfg get_foreground ''set blue failed''"

definition test_setfg_white :: kernel_test where
  "test_setfg_white = test_set_color ''white'' WHITE setfg get_foreground ''set white failed''"

section \<open>The small test files\<close>

definition test_runner_works :: kernel_test where
  "test_runner_works k = Done (Pass, k)"

definition simple_addition :: kernel_test where
  "simple_addition k = Done (if 1 + 1 = (2 :: int) then Pass else Fail ''lksjdf'', k)"

definition manual_assert :: kernel_test where
  "manual_assert k = Done (if 2 + 2 = (4 :: int) then Pass else Fail ''2 + 2 != 4'', k)"

text \<open>\<open>int3\<close> raises the breakpoint exception; \<open>env_frame\<close> is the text of the frame the processor pushes.\<close>

definition test_int3 :: "env \<Rightarrow> kernel_test" where
  "test_int3 e k = after_call (breakpoint_handler (env_frame e) k) (\<lambda>k1. Done (Pass, k1))"

section \<open>The registered tests\<close>

definition shell_tests :: "test list" where
  "shell_tests =
    [registered ''test_setbg_red'' test_setbg_red,
     registered ''test_setbg_black'' test_setbg_black,
     registered ''test_setbg_green'' test_setbg_green,
     registered ''test_setbg_blue'' test_setbg_blue,
     registered ''test_setbg_white'' test_setbg_white,
     registered ''test_setfg_red'' test_setfg_red,
     registered ''test_setfg_black'' test_setfg_black,
     registered ''test_setfg_green'' test_setfg_green,
     registered ''test_setfg_blue'' test_setfg_blue,
     registered ''test_setfg_white'' test_setfg_white]"

definition small_tests :: "env \<Rightarrow> test list" where
  "small_tests e =
    [registered ''test_runner_works'' test_runner_works,
     registered ''simple_addition'' simple_addition,
     registered ''manual_assert'' manual_assert,
     registered ''test_int3'' (test_int3 e)]"

end
