(* ===== verification/Test_Shell_Props.thy ===== *)
theory Test_Shell_Props
  imports Test_Shell Shell_Props
begin

text \<open>
  The shell's colour tests and the small tests pass on every kernel with a console, whatever its
  colours and whatever the dirty rectangle.
\<close>

definition ui_test_passes :: "info \<Rightarrow> kernel_test \<Rightarrow> bool" where
  "ui_test_passes i t \<longleftrightarrow> (\<forall>k. ui_bounded False i (k_ui k) \<longrightarrow>
     (\<exists>u. t k = Done (Pass, k\<lparr>k_ui := u\<rparr>) \<and> ui_bounded False i u))"

lemma ui_test_returns:
  assumes "\<And>k. ui_bounded False i (k_ui k) \<Longrightarrow>
    returns_in (\<lambda>k'. k' = k\<lparr>k_ui := k_ui k'\<rparr> \<and> ui_bounded False i (k_ui k')) (f k)"
  shows "ui_test_passes i (\<lambda>k. after_call (f k) (\<lambda>k1. Done (Pass, k1)))"
  unfolding ui_test_passes_def
proof (intro allI impI)
  fix k :: kernel assume "ui_bounded False i (k_ui k)"
  then obtain k' where "f k = Done (Returns k')" "k' = k\<lparr>k_ui := k_ui k'\<rparr>" "ui_bounded False i (k_ui k')"
    using assms unfolding returns_in_def by blast
  then show "\<exists>u. after_call (f k) (\<lambda>k1. Done (Pass, k1)) = Done (Pass, k\<lparr>k_ui := u\<rparr>) \<and> ui_bounded False i u"
    by (auto simp: after_call_def)
qed

section \<open>Colours\<close>

text \<open>A colour command sets the colour and clears the console, which keeps it.\<close>

lemma color_cmd_sets:
  assumes "\<And>con. con_inv i con \<Longrightarrow> con_inv i (setter c con)" and "color_from_name name = Some c"
    and "ui_bounded d i (k_ui k)"
  shows "\<exists>con u. ui_console (k_ui k) = Some con \<and> color_cmd setter usage [name] k = Done (Returns (k\<lparr>k_ui := u\<rparr>)) \<and>
    ui_console u = Some (grid_clear (setter c con)) \<and> ui_bounded d i u"
proof -
  obtain con where con: "ui_console (k_ui k) = Some con" "con_inv i con" "fb_inv i (ui_fb (k_ui k))"
    "d \<longrightarrow> dirty_sound i (ui_fb (k_ui k))"
    using assms(3) by (auto simp: ui_bounded_def safe_tty_def)
  note inv = assms(1) [OF con(2)]
  obtain fb' where fb': "clear_console (setter c con, ui_fb (k_ui k)) = Done (grid_clear (setter c con), fb')"
    "fb_kept i (ui_fb (k_ui k)) fb'" "grid_ok (grid_clear (setter c con))"
    "same_grid (setter c con) (grid_clear (setter c con))"
    by (rule refinesD [OF refines_clear con_inv_grid_ok [OF inv fb_inv_ok [OF con(3)]] con(3)])
  let ?u = "(k_ui k)\<lparr>ui_console := Some (grid_clear (setter c con)), ui_fb := fb'\<rparr>"
  have "color_cmd setter usage [name] k = Done (Returns (k\<lparr>k_ui := ?u\<rparr>))"
    using con(1) fb'(1) assms(2) by (simp add: color_cmd_def with_ui_def with_console_def)
  moreover have "ui_bounded d i ?u"
    using con(4) same_grid_con_inv [OF inv fb'(4,3)] fb'(2) by (auto simp: ui_bounded_def safe_tty_def fb_kept_def)
  ultimately show ?thesis using con(1) by (intro exI [of _ con] exI [of _ ?u]) simp
qed

lemma test_set_color_passes:
  assumes "\<And>con. con_inv i con \<Longrightarrow> con_inv i (setter c con)" and "color_from_name name = Some c"
    and "split_whitespace name = [name]" and "\<And>con. get_color (grid_clear (setter c con)) = c"
  shows "ui_test_passes i (test_set_color name c (color_cmd setter usage) get_color reason)"
  unfolding ui_test_passes_def
proof (intro allI impI)
  fix k :: kernel assume "ui_bounded False i (k_ui k)"
  from color_cmd_sets [where setter = setter and c = c and i = i and usage = usage, OF assms(1,2) this]
  show "\<exists>u. test_set_color name c (color_cmd setter usage) get_color reason k = Done (Pass, k\<lparr>k_ui := u\<rparr>) \<and>
      ui_bounded False i u"
    using assms(3,4) by (auto simp: test_set_color_def after_call_def)
qed

lemma background_test:
  assumes "color_from_name name = Some c" and "split_whitespace name = [name]"
  shows "ui_test_passes i (test_set_color name c setbg get_background reason)"
  unfolding setbg_def
  by (rule test_set_color_passes [OF _ assms])
    (simp_all add: get_background_def set_background_def grid_clear_def setter_inv [unfolded set_background_def])

lemma foreground_test:
  assumes "color_from_name name = Some c" and "split_whitespace name = [name]"
  shows "ui_test_passes i (test_set_color name c setfg get_foreground reason)"
  unfolding setfg_def
  by (rule test_set_color_passes [OF _ assms])
    (simp_all add: get_foreground_def set_foreground_def grid_clear_def setter_inv [unfolded set_foreground_def])

lemma color_words:
  "split_whitespace ''red'' = [''red'']" "split_whitespace ''black'' = [''black'']"
  "split_whitespace ''green'' = [''green'']" "split_whitespace ''blue'' = [''blue'']"
  "split_whitespace ''white'' = [''white'']"
  by (simp_all add: split_whitespace_def is_whitespace_def)

lemma all_shell_tests_pass: "\<forall>t \<in> set shell_tests. ui_test_passes i (test_function t)"
  unfolding shell_tests_def registered_def
  by (auto simp: test_setbg_red_def test_setbg_black_def test_setbg_green_def test_setbg_blue_def test_setbg_white_def test_setfg_red_def test_setfg_black_def test_setfg_green_def test_setfg_blue_def test_setfg_white_def
      color_words color_from_name_def intro!: background_test foreground_test)

section \<open>The small tests\<close>

lemma ui_test_trivial: "ui_test_passes i (\<lambda>k. Done (Pass, k))"
  unfolding ui_test_passes_def
proof (intro allI impI)
  fix k :: kernel assume "ui_bounded False i (k_ui k)"
  then show "\<exists>u. Done (Pass, k) = Done (Pass, k\<lparr>k_ui := u\<rparr>) \<and> ui_bounded False i u"
    by (intro exI [of _ "k_ui k"]) simp
qed

lemma test_int3_passes: "ui_test_passes i (test_int3 e)"
  unfolding test_int3_def [abs_def]
proof (rule ui_test_returns)
  fix k :: kernel assume u: "ui_bounded False i (k_ui k)"
  let ?k = "serial_lines [''EXCEPTION: BREAKPOINT'', env_frame e] k"
  have k: "ui_bounded False i (k_ui ?k)" using u safe.serial_lines_keep by blast
  have "prints (ui_bounded False i) (''EXCEPTION: BREAKPOINT'' @ [CHR 0x0A] @ env_frame e @ [CHR 0x0A])
      (all_of [say_color RED ''EXCEPTION: BREAKPOINT'', say_color RED (env_frame e)])"
    by (rule prints_out, (rule safe.rules)+) simp
  from printsD [OF this k] obtain k' where k': "breakpoint_handler (env_frame e) k = Done (Returns k')"
    "k' = ?k\<lparr>k_ui := k_ui k'\<rparr>" "ui_bounded False i (k_ui k')"
    unfolding returns_in_def printed_def breakpoint_handler_def by blast
  have "k' = k\<lparr>k_ui := k_ui k'\<rparr>"
    using k'(2) unfolding serial_lines_eq by (metis kernel.surjective kernel.update_convs(1))
  with k'(1,3) show "returns_in (\<lambda>k'. k' = k\<lparr>k_ui := k_ui k'\<rparr> \<and> ui_bounded False i (k_ui k')) (breakpoint_handler (env_frame e) k)"
    by (simp add: returns_in_def)
qed

lemma all_small_tests_pass: "\<forall>t \<in> set (small_tests e). ui_test_passes i (test_function t)"
  using ui_test_trivial test_int3_passes
  by (simp add: small_tests_def registered_def test_runner_works_def [abs_def] simple_addition_def [abs_def]
      manual_assert_def [abs_def])

end
