(* ===== verification/Test_Suite.thy ===== *)
theory Test_Suite
  imports Test_Console_Props Test_Framebuffer_Props Test_Fs_Props Test_Heap_Props Test_Shell_Props
    Kernel_Main_Props
begin

text \<open>
  The whole test build: \<open>kmain\<close> boots and runs the tests the linker collected. Their order is the
  linker's, so nothing may depend on it: \<open>suite_ok\<close> is what every test finds and leaves behind.
\<close>

definition all_tests :: "8 word list \<Rightarrow> env \<Rightarrow> test list" where
  "all_tests font e = console_tests font @ framebuffer_tests @ fs_tests @ heap_tests @ shell_tests @ small_tests e"

definition suite_ok :: "info \<Rightarrow> string set \<Rightarrow> kernel \<Rightarrow> bool" where
  "suite_ok i A k \<longleftrightarrow> ui_bounded False i (k_ui k) \<and> tmpfs_ok (k_fs k) \<and> rooted (k_fs k) \<and>
     (\<forall>p \<in> A. \<not> exists_path (k_fs k) p) \<and> heap_roomy 0 (k_heap k) {}"

lemma suite_ok_serial: "suite_ok i A k \<Longrightarrow> suite_ok i A (k\<lparr>k_ui := (k_ui k)\<lparr>serial_out := s\<rparr>\<rparr>)"
  by (simp add: suite_ok_def ui_bounded_def)

section \<open>One test\<close>

text \<open>A test may use its own scratch paths \<open>A\<close>; it touches no others.\<close>

definition suite_passes :: "info \<Rightarrow> string set \<Rightarrow> kernel_test \<Rightarrow> bool" where
  "suite_passes i A t \<longleftrightarrow> (\<forall>B k. suite_ok i (A \<union> B) k \<longrightarrow> A \<inter> B = {} \<longrightarrow>
     (\<exists>k'. t k = Done (Pass, k') \<and> suite_ok i B k'))"

lemma ui_suite_passes: "ui_test_passes i t \<Longrightarrow> suite_passes i A t"
  by (fastforce simp: suite_passes_def ui_test_passes_def suite_ok_def)

lemma heap_suite_passes: "heap_test_passes t \<Longrightarrow> suite_passes i A t"
  by (fastforce simp: suite_passes_def heap_test_passes_def suite_ok_def)

lemma fs_suite_passes:
  assumes "fs_test_passes A t"
  shows "suite_passes i A t"
  unfolding suite_passes_def
proof (intro allI impI)
  fix B k assume k: "suite_ok i (A \<union> B) k" and disjoint: "A \<inter> B = {}"
  then obtain fs' where fs': "t k = Done (Pass, k\<lparr>k_fs := fs'\<rparr>)" "tmpfs_ok fs'" "rooted fs'"
    "\<And>p. p \<notin> A \<Longrightarrow> exists_path fs' p = exists_path (k_fs k) p"
    using assms unfolding fs_test_passes_def suite_ok_def by blast
  have "suite_ok i B (k\<lparr>k_fs := fs'\<rparr>)" using k fs'(2-4) disjoint by (auto simp: suite_ok_def)
  with fs'(1) show "\<exists>k'. t k = Done (Pass, k') \<and> suite_ok i B k'" by blast
qed

lemma fb_suite_passes:
  assumes "fb_test_passes i t"
  shows "suite_passes i A t"
  unfolding suite_passes_def
proof (intro allI impI)
  fix B k assume k: "suite_ok i (A \<union> B) k"
  then have "fb_inv i (ui_fb (k_ui k))" by (auto simp: suite_ok_def ui_bounded_def safe_tty_def)
  then obtain fb' where "t k = Done (Pass, k\<lparr>k_ui := (k_ui k)\<lparr>ui_fb := fb'\<rparr>\<rparr>)" "fb_inv i fb'"
    using assms unfolding fb_test_passes_def by blast
  moreover from this(2) have "suite_ok i B (k\<lparr>k_ui := (k_ui k)\<lparr>ui_fb := fb'\<rparr>\<rparr>)"
    using k by (auto simp: suite_ok_def ui_bounded_def safe_tty_def)
  ultimately show "\<exists>k'. t k = Done (Pass, k') \<and> suite_ok i B k'" by blast
qed

lemma console_suite_passes:
  assumes "console_test_passes font t" and "font_new font = Done f" and "font_ok f"
  shows "suite_passes i A t"
  unfolding suite_passes_def
proof (intro allI impI)
  fix B k assume k: "suite_ok i (A \<union> B) k"
  then have "fb_inv i (ui_fb (k_ui k))" by (auto simp: suite_ok_def ui_bounded_def safe_tty_def)
  then obtain con fb' where t: "t k = Done (Pass, k\<lparr>k_ui := (share_cells con (k_ui k))\<lparr>ui_fb := fb'\<rparr>\<rparr>)"
    "fb_kept i (ui_fb (k_ui k)) fb'"
    using assms unfolding console_test_passes_def console_tested_def by blast
  then have "suite_ok i B (k\<lparr>k_ui := (share_cells con (k_ui k))\<lparr>ui_fb := fb'\<rparr>\<rparr>)"
    using k fb_kept_inv [OF t(2)] by (auto simp: suite_ok_def ui_bounded_def safe_tty_def share_cells_def con_inv_def)
  with t(1) show "\<exists>k'. t k = Done (Pass, k') \<and> suite_ok i B k'" by blast
qed

lemma all_tests_pass:
  assumes "font_new font = Done f" and "font_ok f" and "big_screen i" and "t \<in> set (all_tests font e)"
  shows "suite_passes i (fs_scratch (test_name t)) (test_function t)"
proof -
  consider "t \<in> set (console_tests font)" | "t \<in> set framebuffer_tests" | "t \<in> set fs_tests"
    | "t \<in> set heap_tests" | "t \<in> set shell_tests" | "t \<in> set (small_tests e)"
    using assms(4) unfolding all_tests_def by auto
  then show ?thesis
  proof cases
    case 1
    then show ?thesis using console_suite_passes [OF _ assms(1,2)] all_console_tests_pass by blast
  next
    case 2
    then show ?thesis using fb_suite_passes all_framebuffer_tests_pass [OF assms(3)] by blast
  next
    case 3
    then show ?thesis using fs_suite_passes all_fs_tests_pass by blast
  next
    case 4
    then show ?thesis using heap_suite_passes all_heap_tests_pass by blast
  next
    case 5
    then show ?thesis using ui_suite_passes all_shell_tests_pass by blast
  next
    case 6
    then show ?thesis using ui_suite_passes all_small_tests_pass by blast
  qed
qed

section \<open>All tests\<close>

definition remaining :: "info \<Rightarrow> test list \<Rightarrow> kernel \<Rightarrow> bool" where
  "remaining i ts k \<longleftrightarrow> distinct (map test_name ts) \<and>
     (\<forall>t \<in> set ts. suite_passes i (fs_scratch (test_name t)) (test_function t)) \<and>
     suite_ok i (\<Union>t \<in> set ts. fs_scratch (test_name t)) k"

lemma remaining_serial:
  "remaining i ts k \<Longrightarrow> remaining i ts (serial_lines ls k)" "remaining i ts k \<Longrightarrow> remaining i ts (serial_text str k)"
  by (simp_all add: remaining_def serial_lines_eq suite_ok_serial serial_text_def serial_write_fmt_def)

lemma remaining_test:
  assumes "remaining i (t # ts) k"
  shows "\<exists>k'. test_function t k = Done (Pass, k') \<and> remaining i ts k'"
proof -
  let ?B = "\<Union>u \<in> set ts. fs_scratch (test_name u)"
  have "fs_scratch (test_name t) \<inter> fs_scratch (test_name u) = {}" if "u \<in> set ts" for u
    by (rule fs_scratch_apart) (use assms that in \<open>auto simp: remaining_def\<close>)
  then have "fs_scratch (test_name t) \<inter> ?B = {}" by blast
  moreover have "suite_passes i (fs_scratch (test_name t)) (test_function t)"
    "suite_ok i (fs_scratch (test_name t) \<union> ?B) k"
    using assms by (simp_all add: remaining_def)
  ultimately obtain k' where "test_function t k = Done (Pass, k')" "suite_ok i ?B k'"
    unfolding suite_passes_def by blast
  then show ?thesis using assms by (auto simp: remaining_def)
qed

lemma run_remaining:
  assumes "remaining i ts k"
  shows "\<exists>k'. for_each ts run_test (c, k) = Done (\<lparr>tests_total = tests_total c + length ts,
      passes = passes c + length ts, failures = failures c\<rparr>, k')"
  using assms
proof (induction ts arbitrary: c k)
  case (Cons t ts)
  obtain k1 where k1: "test_function t (serial_text (''test '' @ test_name t @ '' ... '') k) = Done (Pass, k1)"
    "remaining i ts k1"
    using remaining_test [OF remaining_serial(2) [OF Cons.prems]] by blast
  let ?c = "c\<lparr>tests_total := tests_total c + 1, passes := passes c + 1\<rparr>"
  have "run_test t (c, k) = Done (?c, serial_lines [''PASS''] k1)"
    using k1(1) by (simp add: run_test_def Let_def)
  then show ?case
    using Cons.IH [OF remaining_serial(1) [OF k1(2)], of ?c "[''PASS'']"] by simp
qed simp

lemma run_tests_all_pass:
  assumes "remaining i ts k"
  shows "\<exists>k1. run_tests ts k = Done (Diverges (act [WritePort32 0xF4 0x10] (serial_lines [''ALL TESTS PASSED'']
    (serial_lines ['''', test_banner,
       ''Tests: '' @ dec (length ts) @ '' total, '' @ dec (length ts) @ '' passed, '' @ dec 0 @ '' failed'',
       test_banner] k1))))"
proof -
  let ?k = "serial_lines ['''', test_banner, ''       SILLOS KERNEL TEST SUITE'', test_banner, ''''] k"
  obtain k1 where k1: "for_each ts run_test (\<lparr>tests_total = 0, passes = 0, failures = 0\<rparr>, ?k) =
    Done (\<lparr>tests_total = length ts, passes = length ts, failures = 0\<rparr>, k1)"
    using run_remaining [OF remaining_serial(1) [OF assms], of "\<lparr>tests_total = 0, passes = 0, failures = 0\<rparr>"] by auto
  show ?thesis unfolding run_tests_def k1 by (auto simp: exit_qemu_def Let_def)
qed

text \<open>Every test has its own name.\<close>

lemma distinct_by_prefix:
  assumes "distinct xs" and "distinct ys" and "\<forall>x \<in> set xs. take n x = pre" and "\<forall>y \<in> set ys. take n y \<noteq> pre"
  shows "distinct (xs @ ys)"
  using assms by auto

lemma all_tests_distinct: "distinct (map test_name (all_tests font e))"
  unfolding all_tests_def map_append
proof (rule distinct_by_prefix [where n = 8 and pre = "''console_''"])
  show "distinct (map test_name framebuffer_tests @ map test_name fs_tests @ map test_name heap_tests @
      map test_name shell_tests @ map test_name (small_tests e))"
  proof (rule distinct_by_prefix [where n = 12 and pre = "''framebuffer_''"])
    show "distinct (map test_name fs_tests @ map test_name heap_tests @ map test_name shell_tests @
        map test_name (small_tests e))"
      by (simp add: fs_tests_def heap_tests_def shell_tests_def small_tests_def registered_def)
  qed (simp_all add: framebuffer_tests_def fs_tests_def heap_tests_def shell_tests_def small_tests_def registered_def)
qed (simp_all add: console_tests_def framebuffer_tests_def fs_tests_def heap_tests_def shell_tests_def
    small_tests_def registered_def)

section \<open>The test build\<close>

lemma stage_suite_ok:
  assumes "stage i s k" and "heap_roomy 0 (k_heap s) {}" and "k_fs s = tmpfs_new" and "root \<notin> A"
  shows "suite_ok i A k"
proof -
  have "ui_ok i (k_ui k)" "k_heap k = k_heap s" "k_fs k = tmpfs_new"
    using assms(1,3) stage_fields [OF assms(1)] by (simp_all add: stage_def)
  moreover have "\<not> exists_path tmpfs_new p" if "p \<in> A" for p
    using assms(4) that by (auto simp: exists_path_def is_dir_def tmpfs_new_def)
  moreover have "ui_bounded False i u" if "ui_ok i u" for u
    using ui_ok_safe [OF that] by (auto simp: ui_bounded_def safe_tty_def)
  ultimately show ?thesis using assms(2) tmpfs_ok_new rooted_new by (simp add: suite_ok_def)
qed

lemma root_not_scratch: "root \<notin> fs_scratch name"
  by (simp add: fs_scratch_def scratch_paths_def)


definition test_screen :: limine_framebuffer where
  "test_screen = \<lparr>lf_width = 128, lf_height = 224, lf_pitch = 512, lf_bpp = 32,
     lf_red_shift = 16, lf_green_shift = 8, lf_blue_shift = 0\<rparr>"


end
