(* ===== verification/Spec2Isabelle.thy ===== *)
theory Spec2Isabelle
  imports Boot Tmpfs Console_Props Kmem_Props Acpi Interrupts_Props Shell_Props Keyboard_Props
    Test_Runner Kernel_Main_Props List_Alloc_Props Locked_Heap Serial_Port Test_Suite
begin

text \<open>
  SillOS, a kernel for x86-64 in Rust (\<open>src/\<close>, crate root \<open>src/main.rs\<close>): a model of the kernel as
  it is written, and the theorems that make it correct.

  \<^bold>\<open>The program.\<close> The Limine boot loader enters \<open>kmain\<close>, which runs \<open>kinit\<close> once: framebuffer
  (\<open>fb.rs\<close>), console (\<open>console.rs\<close>, drawing with \<open>font.rs\<close>), segments (\<open>gdt.rs\<close>), interrupt
  table (\<open>int.rs\<close>), interrupt controllers (\<open>pic.rs\<close>), ACPI (\<open>acpi.rs\<close>), memory (\<open>kmem/mod.rs\<close>:
  the frame allocator \<open>kmem/frame.rs\<close>, the page mapping and the heap of \<open>kmem/heap.rs\<close> with the
  buddy allocator of \<open>kmem/heap/buddy.rs\<close>). Then it prints a banner and waits; all further work
  happens in the keyboard interrupt, which edits a line in the console and on Enter hands it to the
  shell (\<open>shell.rs\<close>), whose commands act on the screen, the file system (\<open>fs.rs\<close>,
  \<open>fs/tempfs.rs\<close>), the heap and the machine. Built with the feature \<open>test\<close>, it runs the 97 registered
  tests (\<open>test.rs\<close>) instead: those inside \<open>console.rs\<close>, \<open>fb.rs\<close>, \<open>fs.rs\<close> and \<open>shell.rs\<close>,
  \<open>kmem/memtests.rs\<close>, \<open>unit_tests.rs\<close> and the two files of \<open>tests/\<close>.

  \<^bold>\<open>How it is modelled.\<close> Every operation is a function of its state that returns an \<open>outcome\<close>
  (\<open>Sill_Prelude\<close>): \<open>Done\<close> with the result, \<open>Panic\<close> with the reason (the kernel is built with
  overflow checks; \<open>uadd\<close>, \<open>usub\<close>, \<open>umul\<close> panic where the code's arithmetic can leave its type,
  pixels and table bytes are \<open>32 word\<close> and \<open>8 word\<close>), or \<open>Hang\<close>. Statics of a module are a record
  that its functions take and return; \<open>Machine\<close> joins them in the record \<open>kernel\<close> (console,
  framebuffer and serial port as \<open>k_ui\<close>, the saved reset register, the file system, the heap, the list of actions
  on the hardware, the flag of \<open>kinit\<close>). A call into the kernel is a \<open>run\<close>: it panics, returns, or
  never returns (\<open>Diverges\<close>) in the state it leaves. Memory is explicit where the code reads or
  writes it through raw pointers: the free lists of both allocators live in the heap's own words,
  the framebuffer is its bytes, ACPI tables are bytes at addresses. What is not in \<open>src/\<close> is a
  parameter: the boot loader's responses, the \<open>x86_64\<close>, \<open>limine\<close>, \<open>pc_keyboard\<close>, \<open>pic8259\<close> and
  \<open>uart\<close> crates (page and frame types, \<open>Mapper::map_to\<close>, the scancode decoder, the text of a
  stack frame), the embedded font file, the bytes a port delivers.

  \<^bold>\<open>The theories.\<close>

  \<^item> \<open>Sill_Prelude\<close>: outcomes, checked arithmetic, slices, counted loops, alignment masks.
    \<open>Fmt\<close>: the number formatting and parsing of the standard library that is used.
    \<open>Hardware\<close>: the actions on the machine. \<open>Ordered_Map\<close>: the contract of the
    standard library's ordered maps (locale \<open>ordered_map\<close>).
  \<^item> \<open>Allocator\<close>: layouts, the trait \<open>MemoryAllocator\<close> as the locale \<open>memory_allocator\<close>, and its
    clients as a step relation; safety of every client is proved once there.
    \<open>Buddy\<close> (the code of \<open>buddy.rs\<close>), \<open>Blocks\<close> and \<open>Buddy_Spec\<close> (tilings and the abstract buddy
    system), \<open>Buddy_Refine\<close> and \<open>Buddy_Correct\<close> (the pointer lists implement it; the interpretation
    \<open>buddy_heap\<close>), \<open>Kernel_Heap\<close> (\<open>init_heap\<close>, the heap's range, alignment and accounting),
    \<open>Buddy_Coalesce\<close> (merging is complete, so nothing fragments the heap for good; how many requests
    are sure to succeed), \<open>Locked_Heap\<close> (the global allocator's lock, and interrupts),
    \<open>List_Alloc\<close> and \<open>List_Alloc_Props\<close> (the linked-list allocator of \<open>heap.rs\<close>, the
    interpretation \<open>ll\<close> for requests of whole words, and its defect for others).
  \<^item> \<open>Frame_Alloc\<close>: the physical frame allocator against the list of the frames of a memory map.
    \<open>Boot\<close>: \<open>init_heap\<close> over it. \<open>Kmem\<close> and \<open>Kmem_Props\<close>: \<open>kmem::init\<close>, address conversion, the
    memory report line by line, and what its figures mean.
  \<^item> \<open>Tmpfs\<close>: the file system, its invariants, exact listings, read after write, and the
    consequences of comparing paths as text.
  \<^item> \<open>Framebuffer\<close>: backbuffer, dirty rectangle and present, against the picture described by the
    calls. \<open>Font\<close>, \<open>Console\<close>: glyphs, cells, cursor, scrolling, line editor. \<open>Console_Correct\<close>:
    the picture is the rendering of the cells, kept by every operation. \<open>Terminal\<close> and
    \<open>Console_Props\<close>: the global console with serial mirroring, any history of calls, printing,
    editing. \<open>Grid\<close>: the console without its pixels, which the code refines on any framebuffer;
    \<open>Console_Safe\<close>: from it, the bounds alone, for every background colour.
  \<^item> \<open>Serial_Port\<close>: the serial port in detail, and printing between interrupts.
  \<^item> \<open>Acpi\<close>: checksums, table search, the reset register, both ways to reboot.
  \<^item> \<open>Machine\<close>: the whole kernel's state and the sequencing of runs. \<open>Kernel_Print\<close>: what a piece of
    code prints (locale \<open>terminal\<close>, interpreted for both conditions on the console).
    \<open>Interrupts\<close> and \<open>Interrupts_Props\<close>, \<open>Shell\<close> and \<open>Shell_Props\<close>, \<open>Keyboard\<close> and
    \<open>Keyboard_Props\<close>, \<open>Test_Runner\<close>, \<open>Kernel_Main\<close> and \<open>Kernel_Main_Props\<close>: the components that
    work on it, with their properties.
  \<^item> \<open>Test_Script\<close>: tests as scripts, with their early returns. \<open>Test_Console\<close>, \<open>Test_Framebuffer\<close>,
    \<open>Test_Fs\<close>, \<open>Test_Heap\<close>, \<open>Test_Shell\<close>: the kernel's own tests, one definition per test function;
    each \<open>_Props\<close> theory shows that they pass and what they leave behind, with rules that follow a
    script on an abstract state (the grid, the picture, directories and contents, live blocks).
    \<open>Test_Suite\<close>: the test build as a whole.

  \<^bold>\<open>What is shown.\<close> The heap: no client that frees only what it holds can make the allocator panic,
  loop, overlap blocks or lose a byte; alignment holds up to 256 KiB and fails above. Frames are
  handed out exactly once, in order, inside usable memory. The screen always shows the cells of the
  console, and drawing stays inside its buffers. Typed lines are edited, read and executed as typed.
  The file system keeps its invariant and lists exactly. The shell never panics on any session
  without \<open>panic\<close> and \<open>dealloc!\<close>. The kernel boots, once, and sets up the processor in order. Every
  exception has its handler. Printing on the serial port never deadlocks. The kernel's own tests all
  pass, in any order, on a screen of at least 120 by 220 pixels, and are counted exactly. The theorems of kind error record
  where the code does not do what it means to: each states the defect on the code's model.

  \<^bold>\<open>Bounds and termination.\<close> Loops over lists and counters are structural or have a measure
  (\<open>next_usable_region\<close>, \<open>allocate_frame\<close>, the order searches, at most 100000 polls of a status
  port). Walks along pointers in memory (\<open>remove_scan\<close>, \<open>find_region\<close>) are partial functions over
  \<open>option\<close>, and it is proved that they return on every reachable heap. There is no fuel.

  \<^bold>\<open>Not modelled.\<close> One processor. The locks of the serial port and of the heap are modelled
  with the interrupts that can come while they are held (\<open>Serial_Port\<close>, \<open>Locked_Heap\<close>); the other theories
  take each call as atomic, so the spin lock of the file system and an interrupt between two statements of the
  console are not. Neither are the heap memory the kernel's own collections take (path strings, listings);
  the encoding of descriptors and page tables, which belongs to the \<open>x86_64\<close> crate; and the UART. Of
  \<open>fb.rs\<close> the test helper \<open>fill_test_pattern\<close>, which nothing calls, is left out; of the macro crate
  \<open>test_macro\<close> the entry it registers is modelled, the handling of tokens belongs to the compiler's crates.
\<close>

end
